(* ===== verification/Prelude.thy ===== *)
theory Prelude
  imports Main "HOL-Library.Word" "HOL-Library.Signed_Division"
begin

text \<open>
  Shared vocabulary of the development: the fixed-width integer types of
  \<^verbatim>\<open>include/types.h\<close>, the ways a C function can stop without returning, the
  sequencing combinator that every fallible operation is composed with, and a small
  postcondition calculus for it.  The collections declared here gather the frame facts of
  all components, so that the proofs about the processor are one call of the simplifier.
\<close>

unbundle bit_operations_syntax

section \<open>Fixed-width integers (include/types.h)\<close>

type_synonym u8 = "8 word"
type_synonym u16 = "16 word"
type_synonym u32 = "32 word"
type_synonym u64 = "64 word"
type_synonym u128 = "128 word"

text \<open>
  The signed types \<^verbatim>\<open>i8 .. i64\<close> have the same bits as the unsigned ones; the model
  keeps the word and reads it as signed (\<^term>\<open>sint\<close>) where the code casts.  A widening
  signed cast is \<^term>\<open>scast\<close>, a widening unsigned or a narrowing one \<^term>\<open>ucast\<close>.
\<close>

section \<open>Stopping without a result\<close>

datatype undefined_behaviour =
    OutOfBounds         \<comment> \<open>access outside a heap block or array\<close>
  | NullPointer         \<comment> \<open>access through a null data pointer\<close>
  | DivisionByZero
  | SignedOverflow      \<comment> \<open>an overflow of a signed C type, the division overflow included\<close>
  | OutOfRangeCast      \<comment> \<open>a floating-point value outside the integer type\<close>

datatype stop =
    Exit nat                  \<comment> \<open>a call of \<^verbatim>\<open>exit\<close> with this status\<close>
  | Undefined undefined_behaviour
  | OutOfFuel                 \<comment> \<open>the bound on loop iterations or nested callbacks is used up\<close>

text \<open>Run a computation and, when it returns, continue with its result.\<close>

definition andThen :: "stop + 'a \<Rightarrow> ('a \<Rightarrow> stop + 'b) \<Rightarrow> stop + 'b" where
  "andThen x f = (case x of Inl e \<Rightarrow> Inl e | Inr a \<Rightarrow> f a)"

lemma andThen_simps [simp]:
  "andThen (Inl e) f = Inl e"
  "andThen (Inr a) f = f a"
  by (simp_all add: andThen_def)

lemma andThen_Inr_iff: "andThen x f = Inr b \<longleftrightarrow> (\<exists>a. x = Inr a \<and> f a = Inr b)"
  by (cases x) simp_all

lemma andThen_Inl_iff:
  "andThen x f = Inl e \<longleftrightarrow> x = Inl e \<or> (\<exists>a. x = Inr a \<and> f a = Inl e)"
  by (cases x) auto

lemma andThen_assoc: "andThen (andThen x f) g = andThen x (\<lambda>a. andThen (f a) g)"
  by (cases x) simp_all

lemma andThen_If: "andThen (if c then x else y) f = (if c then andThen x f else andThen y f)"
  by simp

text \<open>An array of \<open>n\<close> elements accessed at index \<open>i\<close>: the index, when it is inside.\<close>

definition in_array :: "nat \<Rightarrow> int \<Rightarrow> stop + nat" where
  "in_array n i = (if 0 \<le> i \<and> i < int n then Inr (nat i) else Inl (Undefined OutOfBounds))"

section \<open>Postconditions of computations that may stop\<close>

text \<open>
  \<open>okR P x\<close>: if \<open>x\<close> returns, its result satisfies \<open>P\<close>.  \<open>stops S x\<close>: if \<open>x\<close> stops, then
  for a reason in \<open>S\<close>.
\<close>

definition okR :: "('a \<Rightarrow> bool) \<Rightarrow> stop + 'a \<Rightarrow> bool" where
  "okR P x \<longleftrightarrow> (case x of Inl _ \<Rightarrow> True | Inr a \<Rightarrow> P a)"

definition stops :: "(stop \<Rightarrow> bool) \<Rightarrow> stop + 'a \<Rightarrow> bool" where
  "stops S x \<longleftrightarrow> (case x of Inl e \<Rightarrow> S e | Inr _ \<Rightarrow> True)"

lemma okR_simps [simp]:
  "okR P (Inl e)"
  "okR P (Inr a) \<longleftrightarrow> P a"
  "okR P (andThen x f) \<longleftrightarrow> okR (\<lambda>a. okR P (f a)) x"
  by (cases x; simp add: okR_def)+

lemma okR_If: "okR P (if c then x else y) \<longleftrightarrow> (c \<longrightarrow> okR P x) \<and> (\<not> c \<longrightarrow> okR P y)"
  by simp

lemma okR_mono: "okR P x \<Longrightarrow> (\<And>a. P a \<Longrightarrow> Q a) \<Longrightarrow> okR Q x"
  by (cases x) simp_all

lemma okR_bind: "okR P x \<Longrightarrow> (\<And>a. P a \<Longrightarrow> okR Q (f a)) \<Longrightarrow> okR Q (andThen x f)"
  by (cases x) simp_all

lemma okR_conj: "okR P x \<Longrightarrow> okR Q x \<Longrightarrow> okR (\<lambda>a. P a \<and> Q a) x"
  by (cases x) simp_all

lemma okR_True [simp]: "okR (\<lambda>_. True) x"
  by (cases x) simp_all

lemma okR_elim: "okR P x \<Longrightarrow> x = Inr a \<Longrightarrow> P a"
  by simp

lemma okR_iff: "okR P x \<longleftrightarrow> (\<forall>a. x = Inr a \<longrightarrow> P a)"
  by (cases x) simp_all

lemma stops_simps [simp]:
  "stops S (Inl e) \<longleftrightarrow> S e"
  "stops S (Inr a)"
  by (simp_all add: stops_def)

lemma stops_bind: "stops S x \<Longrightarrow> (\<And>a. x = Inr a \<Longrightarrow> stops S (f a)) \<Longrightarrow> stops S (andThen x f)"
  by (cases x) simp_all

lemma stops_mono: "stops S x \<Longrightarrow> (\<And>e. S e \<Longrightarrow> T e) \<Longrightarrow> stops T x"
  by (cases x) simp_all

section \<open>Computations along a relation of states\<close>

text \<open>
  \<open>moves R m x\<close>: if \<open>x\<close>, started in the state \<open>m\<close>, returns a state, \<open>R\<close> relates \<open>m\<close> to it;
  \<open>gives R m x\<close> is the same for a computation that returns a value and a state.  For a
  reflexive and transitive \<open>R\<close> both are closed under sequencing: the frame of a handler is
  the frames of its calls.
\<close>

definition moves :: "('m \<Rightarrow> 'm \<Rightarrow> bool) \<Rightarrow> 'm \<Rightarrow> stop + 'm \<Rightarrow> bool" where
  "moves R m x \<longleftrightarrow> okR (R m) x"

definition gives :: "('m \<Rightarrow> 'm \<Rightarrow> bool) \<Rightarrow> 'm \<Rightarrow> stop + 'a \<times> 'm \<Rightarrow> bool" where
  "gives R m x \<longleftrightarrow> okR (\<lambda>p. R m (snd p)) x"

lemma moves_simps [simp]:
  "moves R m (Inl e)" "moves R m (Inr m') \<longleftrightarrow> R m m'"
  "gives R m (Inl e)" "gives R m (Inr (v, m')) \<longleftrightarrow> R m m'"
  by (simp_all add: moves_def gives_def)

lemma moves_If [simp]:
  "moves R m (if c then x else y) \<longleftrightarrow> (c \<longrightarrow> moves R m x) \<and> (\<not> c \<longrightarrow> moves R m y)"
  "gives R m (if c then x' else y') \<longleftrightarrow> (c \<longrightarrow> gives R m x') \<and> (\<not> c \<longrightarrow> gives R m y')"
  by simp_all

lemma moves_elim: "moves R m x \<Longrightarrow> x = Inr m' \<Longrightarrow> R m m'"
  by (simp add: moves_def)

lemma gives_elim: "gives R m x \<Longrightarrow> x = Inr (v, m') \<Longrightarrow> R m m'"
  by (simp add: gives_def)

locale state_relation =
  fixes R :: "'m \<Rightarrow> 'm \<Rightarrow> bool"
  assumes refl: "R m m" and trans: "R a b \<Longrightarrow> R b c \<Longrightarrow> R a c"
begin

lemma moves_bind: "moves R m x \<Longrightarrow> (\<And>m'. R m m' \<Longrightarrow> moves R m' (f m')) \<Longrightarrow> moves R m (andThen x f)"
  by (auto simp: moves_def okR_iff andThen_Inr_iff intro: trans)

lemma moves_gives: "moves R m x \<Longrightarrow> (\<And>m'. R m m' \<Longrightarrow> gives R m' (f m')) \<Longrightarrow> gives R m (andThen x f)"
  by (fastforce simp: moves_def gives_def okR_iff andThen_Inr_iff intro: trans)

lemma gives_bind: "gives R m x \<Longrightarrow> (\<And>v m'. R m m' \<Longrightarrow> gives R m' (f (v, m'))) \<Longrightarrow> gives R m (andThen x f)"
  by (fastforce simp: gives_def okR_iff andThen_Inr_iff intro: trans)

lemma gives_moves: "gives R m x \<Longrightarrow> (\<And>v m'. R m m' \<Longrightarrow> moves R m' (f (v, m'))) \<Longrightarrow> moves R m (andThen x f)"
  by (fastforce simp: moves_def gives_def okR_iff andThen_Inr_iff intro: trans)

lemma gives_pure: "(\<And>a. x = Inr a \<Longrightarrow> gives R m (f a)) \<Longrightarrow> gives R m (andThen x f)"
  by (cases x) simp_all

lemma moves_pure: "(\<And>a. x = Inr a \<Longrightarrow> moves R m (f a)) \<Longrightarrow> moves R m (andThen x f)"
  by (cases x) simp_all

lemma gives_after: "R m m' \<Longrightarrow> gives R m' x \<Longrightarrow> gives R m x"
  by (auto simp: gives_def okR_iff intro: trans)

lemma moves_after: "R m m' \<Longrightarrow> moves R m' x \<Longrightarrow> moves R m x"
  by (auto simp: moves_def okR_iff intro: trans)

lemmas bind = moves_bind moves_gives gives_bind gives_moves

end

named_theorems frames \<open>what an operation leaves unchanged\<close>
named_theorems bit_facts \<open>the bits of the masks of the program\<close>

section \<open>Words\<close>

text \<open>\<^verbatim>\<open>(int)w\<close>: the low 32 bits, read as signed.\<close>

definition c_int :: "u64 \<Rightarrow> int" where
  "c_int w = sint (ucast w :: u32)"

lemma c_int_small: "w < 0x80000000 \<Longrightarrow> c_int w = uint w"
proof -
  assume "w < 0x80000000"
  then have u: "uint w < 2 ^ 31" by (simp add: word_less_def)
  then have "uint (ucast w :: u32) = uint w" by (simp add: unsigned_ucast_eq take_bit_int_eq_self)
  moreover have "- (2 ^ 31) \<le> uint w" by (rule order_trans [of _ 0]) simp_all
  ultimately show ?thesis using u by (simp add: c_int_def sint_uint signed_take_bit_int_eq_self_iff)
qed

text \<open>\<^verbatim>\<open>(i64)(val << shift) >> shift\<close> with \<^verbatim>\<open>shift = 64 - bits\<close>.\<close>

definition sext64 :: "u64 \<Rightarrow> nat \<Rightarrow> u64" where
  "sext64 val n = signed_drop_bit (64 - n) (push_bit (64 - n) val)"

lemma bit_sext64:
  assumes "0 < n" "n \<le> 64"
  shows "bit (sext64 v n) i \<longleftrightarrow> i < 64 \<and> bit v (if i < n then i else n - 1)"
  using assms
  by (auto simp: sext64_def bit_signed_drop_bit_iff bit_push_bit_iff min_def)

lemma word_plus_one_diff: "b \<noteq> (a :: 'a::len word) \<Longrightarrow> unat (b - (a + 1)) = unat (b - a) - 1"
  by (metis (no_types, opaque_lifting) diff_diff_eq right_minus_eq unat_minus_one)

lemma unat_le_of_no_wrap:
  fixes a b :: "'a::len word"
  assumes "unat a + unat b < 2 ^ LENGTH('a)"
  shows "unat (a + b) = unat a + unat b"
  using assms by (simp add: unat_word_ariths)

lemma unat_diff_word: "(b :: 'a::len word) \<le> a \<Longrightarrow> unat (a - b) = unat a - unat b"
  by (simp add: unat_sub)

lemma ucast_ucast_same:
  "LENGTH('a) \<le> LENGTH('b) \<Longrightarrow> (ucast (ucast w :: 'b::len word) :: 'a::len word) = w"
  by (rule bit_word_eqI) (simp add: bit_simps)

lemmas ucast_down_up [simp] =
  ucast_ucast_same [where 'a = 8 and 'b = 64, simplified]
  ucast_ucast_same [where 'a = 16 and 'b = 64, simplified]
  ucast_ucast_same [where 'a = 32 and 'b = 64, simplified]

end
