(* ===== verification/Float_Ops.thy ===== *)
theory Float_Ops
  imports Prelude "HOL-Library.Log_Nat"
begin

text \<open>
  The floating-point arithmetic of C that \<^verbatim>\<open>src/cpu.c\<close> uses, as the IEC 60559 arithmetic of
  the host in its default mode (round to nearest, ties to even, no traps), on bit patterns.
  Every finite operand is taken apart into an integer significand and an exponent, the exact
  result is computed on integers, and one function rounds it.  What the standard leaves to
  the implementation is a field of \<open>fpu\<close>: the NaN an operation returns, whether \<^verbatim>\<open>a * b + c\<close>
  is contracted to one rounding, and the zero that the minimum of two zeros is.
\<close>

section \<open>Formats\<close>

record fformat =
  frac :: nat   \<comment> \<open>bits of the fraction\<close>
  expw :: nat   \<comment> \<open>bits of the exponent\<close>

definition F32 :: fformat where "F32 = \<lparr>frac = 23, expw = 8\<rparr>"
definition F64 :: fformat where "F64 = \<lparr>frac = 52, expw = 11\<rparr>"

record fpu =
  nan_result :: "fformat \<Rightarrow> nat list \<Rightarrow> nat"
  contracts :: bool
  zero_second :: bool

definition magnitude :: "fformat \<Rightarrow> nat \<Rightarrow> nat" where
  "magnitude f b = b mod 2 ^ (frac f + expw f)"

definition f_sign :: "fformat \<Rightarrow> nat \<Rightarrow> bool" where
  "f_sign f b \<longleftrightarrow> odd (b div 2 ^ (frac f + expw f))"

definition f_exp :: "fformat \<Rightarrow> nat \<Rightarrow> nat" where
  "f_exp f b = magnitude f b div 2 ^ frac f"

definition f_frac :: "fformat \<Rightarrow> nat \<Rightarrow> nat" where
  "f_frac f b = b mod 2 ^ frac f"

definition inf_bits :: "fformat \<Rightarrow> nat" where
  "inf_bits f = (2 ^ expw f - 1) * 2 ^ frac f"

definition sign_bit :: "fformat \<Rightarrow> bool \<Rightarrow> nat" where
  "sign_bit f s = (if s then 2 ^ (frac f + expw f) else 0)"

definition f_isnan :: "fformat \<Rightarrow> nat \<Rightarrow> bool" where
  "f_isnan f b \<longleftrightarrow> inf_bits f < magnitude f b"

definition f_isinf :: "fformat \<Rightarrow> nat \<Rightarrow> bool" where
  "f_isinf f b \<longleftrightarrow> magnitude f b = inf_bits f"

definition f_iszero :: "fformat \<Rightarrow> nat \<Rightarrow> bool" where
  "f_iszero f b \<longleftrightarrow> magnitude f b = 0"

definition f_subnormal :: "fformat \<Rightarrow> nat \<Rightarrow> bool" where
  "f_subnormal f b \<longleftrightarrow> 0 < magnitude f b \<and> magnitude f b < 2 ^ frac f"

definition f_normal :: "fformat \<Rightarrow> nat \<Rightarrow> bool" where
  "f_normal f b \<longleftrightarrow> 2 ^ frac f \<le> magnitude f b \<and> magnitude f b < inf_bits f"

text \<open>The value of a finite pattern is \<open>\<plusminus> f_sig * 2 ^ f_ulp\<close>.\<close>

definition q_min :: "fformat \<Rightarrow> int" where
  "q_min f = 2 - 2 ^ (expw f - 1) - int (frac f)"

definition f_sig :: "fformat \<Rightarrow> nat \<Rightarrow> nat" where
  "f_sig f b = (if f_exp f b = 0 then f_frac f b else f_frac f b + 2 ^ frac f)"

definition f_ulp :: "fformat \<Rightarrow> nat \<Rightarrow> int" where
  "f_ulp f b = q_min f + int (f_exp f b - 1)"

definition f_neg :: "fformat \<Rightarrow> nat \<Rightarrow> nat" where
  "f_neg f b = sign_bit f (\<not> f_sign f b) + magnitude f b"

section \<open>Rounding\<close>

definition round_half_even :: "nat \<Rightarrow> nat \<Rightarrow> nat" where
  "round_half_even m k =
     (let d = m div 2 ^ k; r = m mod 2 ^ k; h = 2 ^ (k - 1) in
      if h < r \<or> (r = h \<and> odd d) then d + 1 else d)"

text \<open>
  The pattern nearest to \<open>m * 2 ^ e\<close>.  The exponent field and the fraction are one number, so
  that a carry out of the fraction moves to the next exponent, and past the last one to
  infinity.
\<close>

definition round_pack :: "fformat \<Rightarrow> bool \<Rightarrow> nat \<Rightarrow> int \<Rightarrow> nat" where
  "round_pack f s m e =
     sign_bit f s +
     (if m = 0 then 0
      else
        (let q = max (e + int (floorlog 2 m) - int (frac f + 1)) (q_min f);
             r = (if q \<le> e then m * 2 ^ nat (e - q) else round_half_even m (nat (q - e)))
         in min (nat (q - q_min f) * 2 ^ frac f + r) (inf_bits f)))"

definition signed_sig :: "fformat \<Rightarrow> nat \<Rightarrow> int \<Rightarrow> int" where
  "signed_sig f b e = (if f_sign f b then - 1 else 1) * int (f_sig f b * 2 ^ nat (f_ulp f b - e))"

text \<open>An exact sum \<open>x * 2 ^ e\<close>; an exact zero is positive unless both terms are negative.\<close>

definition round_sum :: "fformat \<Rightarrow> bool \<Rightarrow> int \<Rightarrow> int \<Rightarrow> nat" where
  "round_sum f both_neg x e =
     (if x = 0 then sign_bit f both_neg else round_pack f (x < 0) (nat \<bar>x\<bar>) e)"

section \<open>Operations\<close>

definition f_inf :: "fformat \<Rightarrow> bool \<Rightarrow> nat" where
  "f_inf f s = sign_bit f s + inf_bits f"

definition f_add :: "fpu \<Rightarrow> fformat \<Rightarrow> nat \<Rightarrow> nat \<Rightarrow> nat" where
  "f_add h f a b =
     (if f_isnan f a \<or> f_isnan f b then nan_result h f [a, b]
      else if f_isinf f a then (if f_isinf f b \<and> f_sign f a \<noteq> f_sign f b then nan_result h f [a, b] else a)
      else if f_isinf f b then b
      else (let e = min (f_ulp f a) (f_ulp f b)
            in round_sum f (f_sign f a \<and> f_sign f b) (signed_sig f a e + signed_sig f b e) e))"

definition f_sub :: "fpu \<Rightarrow> fformat \<Rightarrow> nat \<Rightarrow> nat \<Rightarrow> nat" where
  "f_sub h f a b = (if f_isnan f a \<or> f_isnan f b then nan_result h f [a, b] else f_add h f a (f_neg f b))"

definition f_mul :: "fpu \<Rightarrow> fformat \<Rightarrow> nat \<Rightarrow> nat \<Rightarrow> nat" where
  "f_mul h f a b =
     (let s = (f_sign f a \<noteq> f_sign f b) in
      if f_isnan f a \<or> f_isnan f b then nan_result h f [a, b]
      else if f_isinf f a \<or> f_isinf f b then
        (if f_iszero f a \<or> f_iszero f b then nan_result h f [a, b] else f_inf f s)
      else round_pack f s (f_sig f a * f_sig f b) (f_ulp f a + f_ulp f b))"

definition f_div :: "fpu \<Rightarrow> fformat \<Rightarrow> nat \<Rightarrow> nat \<Rightarrow> nat" where
  "f_div h f a b =
     (let s = (f_sign f a \<noteq> f_sign f b); k = 2 * frac f + 4 in
      if f_isnan f a \<or> f_isnan f b then nan_result h f [a, b]
      else if f_isinf f a then (if f_isinf f b then nan_result h f [a, b] else f_inf f s)
      else if f_isinf f b then sign_bit f s
      else if f_iszero f b then (if f_iszero f a then nan_result h f [a, b] else f_inf f s)
      else (let n = f_sig f a * 2 ^ k; d = f_sig f b
            in round_pack f s (2 * (n div d) + (if n mod d = 0 then 0 else 1)) (f_ulp f a - f_ulp f b - int k - 1)))"

fun isqrt :: "nat \<Rightarrow> nat" where
  "isqrt n = (if n = 0 then 0 else (let r = 2 * isqrt (n div 4) in if (r + 1) * (r + 1) \<le> n then r + 1 else r))"

declare isqrt.simps [simp del]

definition f_sqrt :: "fpu \<Rightarrow> fformat \<Rightarrow> nat \<Rightarrow> nat" where
  "f_sqrt h f a =
     (if f_isnan f a then nan_result h f [a]
      else if f_iszero f a then a
      else if f_sign f a then nan_result h f [a]
      else if f_isinf f a then a
      else (let k = 2 * frac f + 8 + (if even (f_ulp f a) then 0 else 1);
                n = f_sig f a * 2 ^ k; r = isqrt n
            in round_pack f False (2 * r + (if r * r = n then 0 else 1)) ((f_ulp f a - int k) div 2 - 1)))"

text \<open>\<^verbatim>\<open>a * b + c\<close>: two roundings, or one where the host contracts it.\<close>

definition f_fused :: "fpu \<Rightarrow> fformat \<Rightarrow> nat \<Rightarrow> nat \<Rightarrow> nat \<Rightarrow> nat" where
  "f_fused h f a b c =
     (let s = (f_sign f a \<noteq> f_sign f b) in
      if f_isnan f a \<or> f_isnan f b \<or> f_isnan f c then nan_result h f [a, b, c]
      else if f_isinf f a \<or> f_isinf f b then
        (if f_iszero f a \<or> f_iszero f b \<or> (f_isinf f c \<and> f_sign f c \<noteq> s) then nan_result h f [a, b, c] else f_inf f s)
      else if f_isinf f c then c
      else (let u = f_ulp f a + f_ulp f b; e = min u (f_ulp f c);
                x = (if s then - 1 else 1) * int (f_sig f a * f_sig f b * 2 ^ nat (u - e))
            in round_sum f (s \<and> f_sign f c) (x + signed_sig f c e) e))"

definition f_muladd :: "fpu \<Rightarrow> fformat \<Rightarrow> nat \<Rightarrow> nat \<Rightarrow> nat \<Rightarrow> nat" where
  "f_muladd h f a b c = (if contracts h then f_fused h f a b c else f_add h f (f_mul h f a b) c)"

definition f_mulsub :: "fpu \<Rightarrow> fformat \<Rightarrow> nat \<Rightarrow> nat \<Rightarrow> nat \<Rightarrow> nat" where
  "f_mulsub h f a b c = (if contracts h then f_fused h f a b (f_neg f c) else f_sub h f (f_mul h f a b) c)"

section \<open>Comparison, classification, conversion\<close>

definition f_key :: "fformat \<Rightarrow> nat \<Rightarrow> int" where
  "f_key f b = (if f_sign f b then - int (magnitude f b) else int (magnitude f b))"

definition f_eq :: "fformat \<Rightarrow> nat \<Rightarrow> nat \<Rightarrow> bool" where
  "f_eq f a b \<longleftrightarrow> \<not> f_isnan f a \<and> \<not> f_isnan f b \<and> f_key f a = f_key f b"

definition f_lt :: "fformat \<Rightarrow> nat \<Rightarrow> nat \<Rightarrow> bool" where
  "f_lt f a b \<longleftrightarrow> \<not> f_isnan f a \<and> \<not> f_isnan f b \<and> f_key f a < f_key f b"

definition f_le :: "fformat \<Rightarrow> nat \<Rightarrow> nat \<Rightarrow> bool" where
  "f_le f a b \<longleftrightarrow> \<not> f_isnan f a \<and> \<not> f_isnan f b \<and> f_key f a \<le> f_key f b"

text \<open>\<^verbatim>\<open>fmin\<close> and \<^verbatim>\<open>fmax\<close> on two numbers.\<close>

definition f_min :: "fpu \<Rightarrow> fformat \<Rightarrow> nat \<Rightarrow> nat \<Rightarrow> nat" where
  "f_min h f a b = (if f_lt f a b then a else if f_lt f b a then b else if zero_second h then b else a)"

definition f_max :: "fpu \<Rightarrow> fformat \<Rightarrow> nat \<Rightarrow> nat \<Rightarrow> nat" where
  "f_max h f a b = (if f_lt f b a then a else if f_lt f a b then b else if zero_second h then b else a)"

text \<open>A cast to an integer type truncates; outside \<open>lo .. hi\<close> it is undefined.\<close>

definition f_trunc :: "fformat \<Rightarrow> nat \<Rightarrow> int" where
  "f_trunc f b =
     (if f_sign f b then - 1 else 1) *
     int (if 0 \<le> f_ulp f b then f_sig f b * 2 ^ nat (f_ulp f b) else f_sig f b div 2 ^ nat (- f_ulp f b))"

definition f_to_int :: "fformat \<Rightarrow> int \<Rightarrow> int \<Rightarrow> nat \<Rightarrow> stop + int" where
  "f_to_int f lo hi b =
     (if f_isnan f b \<or> f_isinf f b \<or> f_trunc f b < lo \<or> hi < f_trunc f b then Inl (Undefined OutOfRangeCast)
      else Inr (f_trunc f b))"

definition f_of_int :: "fformat \<Rightarrow> int \<Rightarrow> nat" where
  "f_of_int f x = round_pack f (x < 0) (nat \<bar>x\<bar>) 0"

definition f_convert :: "fpu \<Rightarrow> fformat \<Rightarrow> fformat \<Rightarrow> nat \<Rightarrow> nat" where
  "f_convert h f g b =
     (if f_isnan f b then nan_result h g [b]
      else if f_isinf f b then f_inf g (f_sign f b)
      else round_pack g (f_sign f b) (f_sig f b) (f_ulp f b))"

end
