(* ===== verification/Device.thy ===== *)
theory Device
  imports Prelude
begin

text \<open>
  The interface between the memory system and a memory-mapped device: the two handlers of
  \<^verbatim>\<open>include/memory.h\<close> (\<^verbatim>\<open>MemReadFn\<close>, \<^verbatim>\<open>MemWriteFn\<close>), and what a device promises
  about them.  The laws are proved once per device; that they survive any sequence of
  accesses by the guest is proved once here.
\<close>

datatype access = Load (access_offset: u64) | Store (access_offset: u64) u64

fun run_accesses :: "('d \<Rightarrow> u64 \<Rightarrow> stop + u64 \<times> 'd) \<Rightarrow> ('d \<Rightarrow> u64 \<Rightarrow> u64 \<Rightarrow> stop + 'd)
    \<Rightarrow> 'd \<Rightarrow> access list \<Rightarrow> stop + 'd" where
  "run_accesses rd wr d [] = Inr d"
| "run_accesses rd wr d (Load off # as) = andThen (rd d off) (\<lambda>(_, d). run_accesses rd wr d as)"
| "run_accesses rd wr d (Store off v # as) = andThen (wr d off v) (\<lambda>d. run_accesses rd wr d as)"

text \<open>If every access at an acceptable offset returns, so does every sequence of them.\<close>

lemma run_accesses_returns:
  assumes "\<And>d off. ok off \<Longrightarrow> \<exists>r. rd d off = Inr r" "\<And>d off v. ok off \<Longrightarrow> \<exists>d'. wr d off v = Inr d'"
  shows "\<forall>a \<in> set as. ok (access_offset a) \<Longrightarrow> \<exists>d'. run_accesses rd wr d as = Inr d'"
proof (induction as arbitrary: d)
  case (Cons a as)
  show ?case
  proof (cases a)
    case (Load off)
    then obtain v d1 where "rd d off = Inr (v, d1)" using assms(1) [of off d] Cons.prems by auto
    then show ?thesis using Load Cons.IH [of d1] Cons.prems by simp
  next
    case (Store off v)
    then obtain d1 where "wr d off v = Inr d1" using assms(2) [of off d v] Cons.prems by auto
    then show ?thesis using Store Cons.IH [of d1] Cons.prems by simp
  qed
qed simp

locale mmio_device =
  fixes rd :: "'d \<Rightarrow> u64 \<Rightarrow> stop + u64 \<times> 'd" and wr :: "'d \<Rightarrow> u64 \<Rightarrow> u64 \<Rightarrow> stop + 'd"
    and inv :: "'d \<Rightarrow> bool" and keep :: "'d \<Rightarrow> 'k"
  assumes inv_rd: "inv d \<Longrightarrow> okR (\<lambda>(_, d'). inv d') (rd d off)"
    and inv_wr: "inv d \<Longrightarrow> okR inv (wr d off v)"
    and keep_rd: "okR (\<lambda>(_, d'). keep d' = keep d) (rd d off)"
    and keep_wr: "okR (\<lambda>d'. keep d' = keep d) (wr d off v)"
begin

lemma inv_run: "inv d \<Longrightarrow> okR inv (run_accesses rd wr d as)"
proof (induction as arbitrary: d)
  case Nil
  then show ?case by simp
next
  case (Cons a as)
  show ?case
  proof (cases a)
    case (Load off)
    have "okR (\<lambda>(_, d'). okR inv (run_accesses rd wr d' as)) (rd d off)"
      using inv_rd [OF Cons.prems] by (rule okR_mono) (auto intro: Cons.IH)
    with Load show ?thesis by (simp add: case_prod_unfold)
  next
    case (Store off v)
    have "okR (\<lambda>d'. okR inv (run_accesses rd wr d' as)) (wr d off v)"
      using inv_wr [OF Cons.prems] by (rule okR_mono) (rule Cons.IH)
    with Store show ?thesis by simp
  qed
qed

lemma keep_run: "okR (\<lambda>d'. keep d' = keep d) (run_accesses rd wr d as)"
proof (induction as arbitrary: d)
  case Nil
  then show ?case by simp
next
  case (Cons a as)
  show ?case
  proof (cases a)
    case (Load off)
    have "okR (\<lambda>(_, d'). okR (\<lambda>e. keep e = keep d) (run_accesses rd wr d' as)) (rd d off)"
      using keep_rd by (rule okR_mono) (clarsimp, metis (no_types, lifting) Cons.IH okR_mono)
    with Load show ?thesis by (simp add: case_prod_unfold)
  next
    case (Store off v)
    have "okR (\<lambda>d'. okR (\<lambda>e. keep e = keep d) (run_accesses rd wr d' as)) (wr d off v)"
      using keep_wr by (rule okR_mono) (metis (no_types, lifting) Cons.IH okR_mono)
    with Store show ?thesis by simp
  qed
qed

end

end
