(* ===== verification/Cpu.thy ===== *)
theory Cpu
  imports Device
begin

text \<open>
  The processor state of \<^verbatim>\<open>include/cpu.h\<close> and the parts of \<^verbatim>\<open>src/cpu.c\<close> that touch
  nothing else: CSR access, register writes, reset, the interrupt lines, and trap entry and
  return.  The arrays of the struct are total functions on the index the code uses; the
  theories \<open>Decode\<close> and \<open>Decode_C\<close> prove that every index stays below the array's length.
\<close>

section \<open>Constants (include/cpu.h, include/trap.h)\<close>

abbreviation (input) PRIV_U :: u32 where "PRIV_U \<equiv> 0"
abbreviation (input) PRIV_S :: u32 where "PRIV_S \<equiv> 1"
abbreviation (input) PRIV_M :: u32 where "PRIV_M \<equiv> 3"

abbreviation (input) INSN_SIZE :: u64 where "INSN_SIZE \<equiv> 4"
abbreviation (input) REG_SP :: u32 where "REG_SP \<equiv> 2"
abbreviation (input) REG_A0 :: u32 where "REG_A0 \<equiv> 10"
abbreviation (input) REG_A1 :: u32 where "REG_A1 \<equiv> 11"
abbreviation (input) REG_A6 :: u32 where "REG_A6 \<equiv> 16"
abbreviation (input) REG_A7 :: u32 where "REG_A7 \<equiv> 17"

abbreviation (input) CSR_MSTATUS :: u32 where "CSR_MSTATUS \<equiv> 0x300"
abbreviation (input) CSR_MEDELEG :: u32 where "CSR_MEDELEG \<equiv> 0x302"
abbreviation (input) CSR_MIDELEG :: u32 where "CSR_MIDELEG \<equiv> 0x303"
abbreviation (input) CSR_MIE :: u32 where "CSR_MIE \<equiv> 0x304"
abbreviation (input) CSR_MTVEC :: u32 where "CSR_MTVEC \<equiv> 0x305"
abbreviation (input) CSR_MCOUNTEREN :: u32 where "CSR_MCOUNTEREN \<equiv> 0x306"
abbreviation (input) CSR_MEPC :: u32 where "CSR_MEPC \<equiv> 0x341"
abbreviation (input) CSR_MCAUSE :: u32 where "CSR_MCAUSE \<equiv> 0x342"
abbreviation (input) CSR_MTVAL :: u32 where "CSR_MTVAL \<equiv> 0x343"
abbreviation (input) CSR_MIP :: u32 where "CSR_MIP \<equiv> 0x344"
abbreviation (input) CSR_CYCLE :: u32 where "CSR_CYCLE \<equiv> 0xC00"
abbreviation (input) CSR_TIME :: u32 where "CSR_TIME \<equiv> 0xC01"
abbreviation (input) CSR_INSTRET :: u32 where "CSR_INSTRET \<equiv> 0xC02"
abbreviation (input) CSR_MCYCLE :: u32 where "CSR_MCYCLE \<equiv> 0xB00"
abbreviation (input) CSR_MINSTRET :: u32 where "CSR_MINSTRET \<equiv> 0xB02"
abbreviation (input) CSR_SSTATUS :: u32 where "CSR_SSTATUS \<equiv> 0x100"
abbreviation (input) CSR_SIE :: u32 where "CSR_SIE \<equiv> 0x104"
abbreviation (input) CSR_STVEC :: u32 where "CSR_STVEC \<equiv> 0x105"
abbreviation (input) CSR_SEPC :: u32 where "CSR_SEPC \<equiv> 0x141"
abbreviation (input) CSR_SCAUSE :: u32 where "CSR_SCAUSE \<equiv> 0x142"
abbreviation (input) CSR_STVAL :: u32 where "CSR_STVAL \<equiv> 0x143"
abbreviation (input) CSR_SIP :: u32 where "CSR_SIP \<equiv> 0x144"
abbreviation (input) CSR_SATP :: u32 where "CSR_SATP \<equiv> 0x180"

abbreviation (input) MSTATUS_SIE :: u64 where "MSTATUS_SIE \<equiv> 0x2"
abbreviation (input) MSTATUS_MIE :: u64 where "MSTATUS_MIE \<equiv> 0x8"
abbreviation (input) MSTATUS_SPIE :: u64 where "MSTATUS_SPIE \<equiv> 0x20"
abbreviation (input) MSTATUS_MPIE :: u64 where "MSTATUS_MPIE \<equiv> 0x80"
abbreviation (input) MSTATUS_SPP :: u64 where "MSTATUS_SPP \<equiv> 0x100"
abbreviation (input) SSTATUS_FS :: u64 where "SSTATUS_FS \<equiv> 0x6000"
abbreviation (input) SSTATUS_SUM :: u64 where "SSTATUS_SUM \<equiv> 0x40000"
abbreviation (input) SSTATUS_MXR :: u64 where "SSTATUS_MXR \<equiv> 0x80000"
abbreviation (input) SSTATUS_MASK :: u64 where
  "SSTATUS_MASK \<equiv> MSTATUS_SIE OR MSTATUS_SPIE OR MSTATUS_SPP OR SSTATUS_FS OR SSTATUS_SUM OR SSTATUS_MXR"
abbreviation (input) MSTATUS_MPP_SHIFT :: nat where "MSTATUS_MPP_SHIFT \<equiv> 11"
abbreviation (input) MSTATUS_MPP_MASK :: u64 where "MSTATUS_MPP_MASK \<equiv> 0x1800"
abbreviation (input) SATP_MODE_SHIFT :: nat where "SATP_MODE_SHIFT \<equiv> 60"
abbreviation (input) SATP_MODE_BARE :: u64 where "SATP_MODE_BARE \<equiv> 0"
abbreviation (input) SATP_MODE_SV39 :: u64 where "SATP_MODE_SV39 \<equiv> 8"
abbreviation (input) SATP_MODE_MASK :: u64 where "SATP_MODE_MASK \<equiv> 0xF000000000000000"

abbreviation (input) MIP_SSIP :: u64 where "MIP_SSIP \<equiv> 0x2"
abbreviation (input) MIP_STIP :: u64 where "MIP_STIP \<equiv> 0x20"
abbreviation (input) MIP_SEIP :: u64 where "MIP_SEIP \<equiv> 0x200"

abbreviation (input) EXC_CAUSE_ILLEGAL_INSTR :: u64 where "EXC_CAUSE_ILLEGAL_INSTR \<equiv> 2"
abbreviation (input) EXC_CAUSE_BREAKPOINT :: u64 where "EXC_CAUSE_BREAKPOINT \<equiv> 3"
abbreviation (input) EXC_CAUSE_FETCH_PAGE_FAULT :: u64 where "EXC_CAUSE_FETCH_PAGE_FAULT \<equiv> 0xc"
abbreviation (input) EXC_CAUSE_LOAD_PAGE_FAULT :: u64 where "EXC_CAUSE_LOAD_PAGE_FAULT \<equiv> 0xd"
abbreviation (input) EXC_CAUSE_STORE_PAGE_FAULT :: u64 where "EXC_CAUSE_STORE_PAGE_FAULT \<equiv> 0xf"

section \<open>State and register access\<close>

record cpu =
  regs :: "u32 \<Rightarrow> u64"
  fregs :: "u32 \<Rightarrow> u64"
  fcsr :: u32
  pc :: u64
  csrs :: "u32 \<Rightarrow> u64"
  privilege :: u32
  halted :: bool
  steps :: u64

definition reg_write :: "cpu \<Rightarrow> u32 \<Rightarrow> u64 \<Rightarrow> cpu" where
  "reg_write c rd val = (if rd \<noteq> 0 then c\<lparr>regs := (regs c)(rd := val)\<rparr> else c)"

definition csr_read :: "cpu \<Rightarrow> u32 \<Rightarrow> u64" where
  "csr_read c addr =
     (if addr = CSR_SSTATUS then csrs c CSR_MSTATUS AND SSTATUS_MASK
      else if addr = CSR_SIE then csrs c CSR_MIE AND csrs c CSR_MIDELEG
      else if addr = CSR_SIP then csrs c CSR_MIP AND csrs c CSR_MIDELEG
      else if addr = CSR_CYCLE \<or> addr = CSR_TIME \<or> addr = CSR_INSTRET
              \<or> addr = CSR_MCYCLE \<or> addr = CSR_MINSTRET then steps c
      else csrs c addr)"

definition set_csr :: "cpu \<Rightarrow> u32 \<Rightarrow> u64 \<Rightarrow> cpu" where
  "set_csr c addr val = c\<lparr>csrs := (csrs c)(addr := val)\<rparr>"

definition csr_write :: "cpu \<Rightarrow> u32 \<Rightarrow> u64 \<Rightarrow> cpu" where
  "csr_write c addr val =
     (if addr = CSR_SSTATUS then
        set_csr c CSR_MSTATUS ((csrs c CSR_MSTATUS AND NOT SSTATUS_MASK) OR (val AND SSTATUS_MASK))
      else if addr = CSR_SIE then
        set_csr c CSR_MIE ((csrs c CSR_MIE AND NOT (csrs c CSR_MIDELEG)) OR (val AND csrs c CSR_MIDELEG))
      else if addr = CSR_SIP then
        set_csr c CSR_MIP ((csrs c CSR_MIP AND NOT MIP_SSIP) OR (val AND MIP_SSIP))
      else if addr = CSR_SATP then
        (let mode = drop_bit SATP_MODE_SHIFT (val AND SATP_MODE_MASK)
         in set_csr c CSR_SATP
              (if mode \<noteq> SATP_MODE_BARE \<and> mode \<noteq> SATP_MODE_SV39
               then val AND NOT SATP_MODE_MASK else val))
      else set_csr c addr val)"

section \<open>Interrupt lines and reset\<close>

definition cpu_raise_irq :: "cpu \<Rightarrow> u64 \<Rightarrow> cpu" where
  "cpu_raise_irq c b = set_csr c CSR_MIP (csrs c CSR_MIP OR b)"

definition cpu_lower_irq :: "cpu \<Rightarrow> u64 \<Rightarrow> cpu" where
  "cpu_lower_irq c b = set_csr c CSR_MIP (csrs c CSR_MIP AND NOT b)"

definition cpu_init :: "cpu \<Rightarrow> cpu" where
  "cpu_init c =
     (let c = c\<lparr>privilege := PRIV_M\<rparr>;
          c = set_csr c CSR_MEDELEG 0xFFFF;
          c = set_csr c CSR_MIDELEG 0xFFFF;
          c = c\<lparr>pc := 0x80000000\<rparr>
      in c\<lparr>regs := (regs c)(10 := 0, 11 := 0)\<rparr>)"

section \<open>Trap entry and trap return\<close>

definition s_trap_status :: "u64 \<Rightarrow> u32 \<Rightarrow> u64" where
  "s_trap_status status priv =
     (let status = status AND NOT MSTATUS_SPIE;
          status = (if status AND MSTATUS_SIE \<noteq> 0 then status OR MSTATUS_SPIE else status);
          status = status AND NOT MSTATUS_SIE;
          status = status AND NOT MSTATUS_SPP
      in if priv = PRIV_S then status OR MSTATUS_SPP else status)"

definition m_trap_status :: "u64 \<Rightarrow> u32 \<Rightarrow> u64" where
  "m_trap_status status priv =
     (let status = status AND NOT MSTATUS_MPIE;
          status = (if status AND MSTATUS_MIE \<noteq> 0 then status OR MSTATUS_MPIE else status);
          status = status AND NOT MSTATUS_MIE;
          status = status AND NOT (push_bit MSTATUS_MPP_SHIFT 3)
      in status OR push_bit MSTATUS_MPP_SHIFT (ucast priv))"

definition trap_to_s :: "cpu \<Rightarrow> u64 \<Rightarrow> bool" where
  "trap_to_s c cause =
     (let is_interrupt = drop_bit 63 cause \<noteq> 0;
          deleg_csr = (if is_interrupt then CSR_MIDELEG else CSR_MEDELEG);
          cause_idx = cause AND 0x3F
      in privilege c \<le> PRIV_S \<and> csr_read c deleg_csr AND push_bit (unat cause_idx) 1 \<noteq> 0)"

definition cpu_trap :: "cpu \<Rightarrow> u64 \<Rightarrow> u64 \<Rightarrow> cpu" where
  "cpu_trap c cause tval =
     (if trap_to_s c cause then
        (let c = csr_write c CSR_SEPC (pc c);
             c = csr_write c CSR_SCAUSE cause;
             c = csr_write c CSR_STVAL tval;
             c = csr_write c CSR_MSTATUS (s_trap_status (csr_read c CSR_MSTATUS) (privilege c));
             c = c\<lparr>privilege := PRIV_S\<rparr>
         in c\<lparr>pc := csr_read c CSR_STVEC AND NOT 3\<rparr>)
      else
        (let c = csr_write c CSR_MEPC (pc c);
             c = csr_write c CSR_MCAUSE cause;
             c = csr_write c CSR_MTVAL tval;
             c = csr_write c CSR_MSTATUS (m_trap_status (csr_read c CSR_MSTATUS) (privilege c));
             c = c\<lparr>privilege := PRIV_M\<rparr>
         in c\<lparr>pc := csr_read c CSR_MTVEC AND NOT 3\<rparr>))"

definition sret_status :: "u64 \<Rightarrow> u64" where
  "sret_status status =
     (let status = status AND NOT MSTATUS_SPP;
          status = status AND NOT MSTATUS_SIE;
          status = (if status AND MSTATUS_SPIE \<noteq> 0 then status OR MSTATUS_SIE else status)
      in status OR MSTATUS_SPIE)"

definition mret_status :: "u64 \<Rightarrow> u64" where
  "mret_status status =
     (let status = status AND NOT MSTATUS_MPP_MASK;
          status = status AND NOT MSTATUS_MIE;
          status = (if status AND MSTATUS_MPIE \<noteq> 0 then status OR MSTATUS_MIE else status)
      in status OR MSTATUS_MPIE)"

definition execute_sret :: "cpu \<Rightarrow> cpu" where
  "execute_sret c =
     (if privilege c < PRIV_S then cpu_trap c EXC_CAUSE_ILLEGAL_INSTR 0
      else
        (let status = csr_read c CSR_MSTATUS;
             c = c\<lparr>privilege := (if status AND MSTATUS_SPP \<noteq> 0 then PRIV_S else PRIV_U)\<rparr>;
             c = csr_write c CSR_MSTATUS (sret_status status)
         in c\<lparr>pc := csr_read c CSR_SEPC\<rparr>))"

definition execute_mret :: "cpu \<Rightarrow> cpu" where
  "execute_mret c =
     (if privilege c < PRIV_M then cpu_trap c EXC_CAUSE_ILLEGAL_INSTR 0
      else
        (let status = csr_read c CSR_MSTATUS;
             c = c\<lparr>privilege := ucast (drop_bit MSTATUS_MPP_SHIFT (status AND MSTATUS_MPP_MASK))\<rparr>;
             c = csr_write c CSR_MSTATUS (mret_status status)
         in c\<lparr>pc := csr_read c CSR_MEPC\<rparr>))"

section \<open>Bits of the masks\<close>

lemma and_exp_zero_iff: "n < 64 \<Longrightarrow> (w :: u64) AND 2 ^ n = 0 \<longleftrightarrow> \<not> bit w n"
  by (simp add: and_exp_eq_0_iff_not_bit)

lemma mask_tests [bit_facts]:
  fixes w :: u64
  shows "w AND 2 = 0 \<longleftrightarrow> \<not> bit w 1" "w AND 8 = 0 \<longleftrightarrow> \<not> bit w 3" "w AND 0x20 = 0 \<longleftrightarrow> \<not> bit w 5"
    "w AND 0x80 = 0 \<longleftrightarrow> \<not> bit w 7" "w AND 0x100 = 0 \<longleftrightarrow> \<not> bit w 8" "w AND 0x200 = 0 \<longleftrightarrow> \<not> bit w 9"
    "w AND 0x40000 = 0 \<longleftrightarrow> \<not> bit w 18"
  using and_exp_zero_iff [of 1 w] and_exp_zero_iff [of 3 w] and_exp_zero_iff [of 5 w]
    and_exp_zero_iff [of 7 w] and_exp_zero_iff [of 8 w] and_exp_zero_iff [of 9 w]
    and_exp_zero_iff [of 18 w] by simp_all

text \<open>The simplifier reads a bit of a word numeral off the integer numeral.\<close>

lemma bit_exp_int: "bit (2 ^ n :: int) m \<longleftrightarrow> m = n"
  by (auto simp: bit_exp_iff)

lemma mask_bits [bit_facts]:
  "bit (2 :: int) n \<longleftrightarrow> n = 1" "bit (8 :: int) n \<longleftrightarrow> n = 3" "bit (0x20 :: int) n \<longleftrightarrow> n = 5"
  "bit (0x80 :: int) n \<longleftrightarrow> n = 7" "bit (0x100 :: int) n \<longleftrightarrow> n = 8" "bit (0x200 :: int) n \<longleftrightarrow> n = 9"
  "bit (0x40000 :: int) n \<longleftrightarrow> n = 18"
  using bit_exp_int [of 1 n] bit_exp_int [of 3 n] bit_exp_int [of 5 n] bit_exp_int [of 7 n]
    bit_exp_int [of 8 n] bit_exp_int [of 9 n] bit_exp_int [of 18 n] by simp_all

lemma mask_bits2 [bit_facts]:
  "bit (0x1800 :: int) n \<longleftrightarrow> n = 11 \<or> n = 12" "bit (3 :: int) n \<longleftrightarrow> n = 0 \<or> n = 1"
proof -
  have "(0x1800 :: int) = 2 ^ 11 OR 2 ^ 12" "(3 :: int) = 2 ^ 0 OR 2 ^ 1" by simp_all
  then show "bit (0x1800 :: int) n \<longleftrightarrow> n = 11 \<or> n = 12" "bit (3 :: int) n \<longleftrightarrow> n = 0 \<or> n = 1"
    by (simp_all only: bit_or_iff bit_exp_int)
qed

lemmas bit_word_bound = bit_imp_le_length [where 'a = 64, simplified]

lemma bit_s_trap_status:
  "bit (s_trap_status st p) n \<longleftrightarrow>
     (if n = 1 then False else if n = 5 then bit st 1 else if n = 8 then p = PRIV_S else bit st n)"
  by (auto simp: s_trap_status_def Let_def bit_simps bit_facts dest: bit_word_bound)

lemma priv_cases: "(p :: u32) \<le> 3 \<Longrightarrow> p = 0 \<or> p = 1 \<or> p = 2 \<or> p = 3"
  by unat_arith

lemma bit_m_trap_status:
  assumes "p \<le> 3"
  shows "bit (m_trap_status st p) n \<longleftrightarrow>
     (if n = 3 then False else if n = 7 then bit st 3
      else if n = 11 then bit p 0 else if n = 12 then bit p 1 else bit st n)"
proof -
  have p: "bit p i \<Longrightarrow> i < 2" for i
    using priv_cases [OF assms] by (auto simp: bit_1_iff bit_facts)
  have i: "n = 11 \<or> n = 12" if "11 \<le> n" "bit p (n - 11)"
    using p [OF that(2)] that(1) by arith
  show ?thesis
    by (auto simp: m_trap_status_def Let_def bit_simps bit_facts dest: bit_word_bound i)
qed

lemma bit_sret_status:
  "bit (sret_status st) n \<longleftrightarrow>
     (if n = 8 then False else if n = 1 then bit st 5 else if n = 5 then True else bit st n)"
  by (auto simp: sret_status_def Let_def bit_simps bit_facts dest: bit_word_bound)

lemma bit_mret_status:
  "bit (mret_status st) n \<longleftrightarrow>
     (if n = 11 \<or> n = 12 then False else if n = 3 then bit st 7 else if n = 7 then True else bit st n)"
  by (auto simp: mret_status_def Let_def bit_simps bit_facts dest: bit_word_bound)

section \<open>Registers and CSRs\<close>

lemma reg_write_simps [simp]:
  "fregs (reg_write c r v) = fregs c" "fcsr (reg_write c r v) = fcsr c" "pc (reg_write c r v) = pc c"
  "csrs (reg_write c r v) = csrs c" "privilege (reg_write c r v) = privilege c"
  "halted (reg_write c r v) = halted c" "steps (reg_write c r v) = steps c"
  by (simp_all add: reg_write_def)

lemma regs_reg_write: "regs (reg_write c r v) = (if r = 0 then regs c else (regs c)(r := v))"
  by (simp add: reg_write_def)

lemma reg_write_x0 [simp]: "regs (reg_write c r v) 0 = regs c 0"
  by (simp add: reg_write_def)

lemma set_csr_simps [simp]:
  "regs (set_csr c a v) = regs c" "fregs (set_csr c a v) = fregs c" "fcsr (set_csr c a v) = fcsr c"
  "pc (set_csr c a v) = pc c" "privilege (set_csr c a v) = privilege c"
  "halted (set_csr c a v) = halted c" "steps (set_csr c a v) = steps c"
  "csrs (set_csr c a v) = (csrs c)(a := v)"
  by (simp_all add: set_csr_def)

lemma csr_write_simps [simp]:
  "regs (csr_write c a v) = regs c" "fregs (csr_write c a v) = fregs c"
  "fcsr (csr_write c a v) = fcsr c" "pc (csr_write c a v) = pc c"
  "privilege (csr_write c a v) = privilege c" "halted (csr_write c a v) = halted c"
  "steps (csr_write c a v) = steps c"
  by (simp_all add: csr_write_def Let_def)

lemma sstatus_mask_value: "SSTATUS_MASK = 0xC6122"
  by simp

lemma bit_sstatus_mask [bit_facts]:
  "bit (0xC6122 :: int) n \<longleftrightarrow> n = 1 \<or> n = 5 \<or> n = 8 \<or> n = 13 \<or> n = 14 \<or> n = 18 \<or> n = 19"
proof -
  have e: "(0xC6122 :: int) = 2 ^ 1 OR 2 ^ 5 OR 2 ^ 8 OR 2 ^ 13 OR 2 ^ 14 OR 2 ^ 18 OR 2 ^ 19" by simp
  show ?thesis unfolding e by (simp only: bit_or_iff bit_exp_int)
qed

text \<open>
  Legal values of satp: the mode field is bare or Sv39.  It holds at reset and every CSR
  write keeps it, whatever the address.
\<close>

definition satp_legal :: "cpu \<Rightarrow> bool" where
  "satp_legal c \<longleftrightarrow> drop_bit SATP_MODE_SHIFT (csrs c CSR_SATP) \<in> {SATP_MODE_BARE, SATP_MODE_SV39}"

lemma bit_15_int [bit_facts]: "bit (15 :: int) n \<longleftrightarrow> n < 4"
proof -
  have "(15 :: int) = mask 4" by (simp add: mask_eq_exp_minus_1)
  then show ?thesis by (simp only: bit_mask_iff) simp
qed

lemma satp_mode_field: "drop_bit 60 v AND 15 = drop_bit 60 (v :: u64)"
  by (rule bit_word_eqI) (auto simp: bit_simps bit_facts dest: bit_word_bound)

lemma satp_mode_cleared: "drop_bit 60 (v AND NOT 0xF000000000000000 :: u64) = 0"
proof (rule bit_word_eqI)
  fix n
  have "(0xF000000000000000 :: u64) = push_bit 60 (mask 4)" by (simp add: mask_eq_exp_minus_1)
  then show "bit (drop_bit 60 (v AND NOT 0xF000000000000000)) n = bit (0 :: u64) n"
    by (auto simp: bit_simps)
qed

lemma satp_legal_write: "satp_legal c \<Longrightarrow> satp_legal (csr_write c a v)"
  by (auto simp: satp_legal_def csr_write_def Let_def satp_mode_field satp_mode_cleared)

lemma satp_legal_cong: "csrs c' CSR_SATP = csrs c CSR_SATP \<Longrightarrow> satp_legal c' = satp_legal c"
  by (simp add: satp_legal_def)

section \<open>Trap entry and return as single updates of the state\<close>

lemma csr_plain_read:
  "csr_read c CSR_MSTATUS = csrs c CSR_MSTATUS" "csr_read c CSR_SEPC = csrs c CSR_SEPC"
  "csr_read c CSR_MEPC = csrs c CSR_MEPC" "csr_read c CSR_STVEC = csrs c CSR_STVEC"
  "csr_read c CSR_MTVEC = csrs c CSR_MTVEC" "csr_read c CSR_MEDELEG = csrs c CSR_MEDELEG"
  "csr_read c CSR_MIDELEG = csrs c CSR_MIDELEG"
  by (simp_all add: csr_read_def)

lemma csr_plain_write:
  "csr_write c CSR_MSTATUS v = set_csr c CSR_MSTATUS v" "csr_write c CSR_SEPC v = set_csr c CSR_SEPC v"
  "csr_write c CSR_MEPC v = set_csr c CSR_MEPC v" "csr_write c CSR_SCAUSE v = set_csr c CSR_SCAUSE v"
  "csr_write c CSR_MCAUSE v = set_csr c CSR_MCAUSE v" "csr_write c CSR_STVAL v = set_csr c CSR_STVAL v"
  "csr_write c CSR_MTVAL v = set_csr c CSR_MTVAL v"
  by (simp_all add: csr_write_def)

lemma drop_bit_63: "drop_bit 63 w \<noteq> 0 \<longleftrightarrow> bit (w :: u64) 63"
proof
  assume "drop_bit 63 w \<noteq> 0"
  then obtain n where n: "bit w (63 + n)"
    by (auto simp: bit_eq_iff [of "drop_bit 63 w"] bit_simps)
  from bit_word_bound [OF n] n show "bit w 63" by simp
next
  assume "bit w 63"
  then have "bit (drop_bit 63 w) 0" by (simp add: bit_simps)
  then show "drop_bit 63 w \<noteq> 0" by auto
qed

lemma trap_to_s_iff:
  "trap_to_s c cause \<longleftrightarrow> privilege c \<le> PRIV_S \<and>
     bit (csrs c (if bit cause 63 then CSR_MIDELEG else CSR_MEDELEG)) (unat (cause AND 0x3F))"
proof -
  have "unat (cause AND 0x3F) \<le> unat (0x3F :: u64)"
    using word_and_le1 word_le_nat_alt by blast
  then have "unat (cause AND 0x3F) < 64" by simp
  then have "w AND push_bit (unat (cause AND 0x3F)) 1 \<noteq> 0 \<longleftrightarrow> bit w (unat (cause AND 0x3F))" for w :: u64
    by (simp add: push_bit_eq_mult and_exp_zero_iff)
  moreover have "drop_bit 63 cause \<noteq> 0 \<longleftrightarrow> bit cause 63"
    by (rule drop_bit_63)
  ultimately show ?thesis
    by (simp add: trap_to_s_def Let_def csr_plain_read)
qed

lemma cpu_trap_s:
  assumes "trap_to_s c cause"
  shows "cpu_trap c cause tval = c\<lparr>
    csrs := (csrs c)(CSR_SEPC := pc c, CSR_SCAUSE := cause, CSR_STVAL := tval,
                     CSR_MSTATUS := s_trap_status (csrs c CSR_MSTATUS) (privilege c)),
    privilege := PRIV_S, pc := csrs c CSR_STVEC AND NOT 3\<rparr>"
  using assms by (simp add: cpu_trap_def Let_def csr_plain_read csr_plain_write set_csr_def)

lemma cpu_trap_m:
  assumes "\<not> trap_to_s c cause"
  shows "cpu_trap c cause tval = c\<lparr>
    csrs := (csrs c)(CSR_MEPC := pc c, CSR_MCAUSE := cause, CSR_MTVAL := tval,
                     CSR_MSTATUS := m_trap_status (csrs c CSR_MSTATUS) (privilege c)),
    privilege := PRIV_M, pc := csrs c CSR_MTVEC AND NOT 3\<rparr>"
  using assms by (simp add: cpu_trap_def Let_def csr_plain_read csr_plain_write set_csr_def)

lemma cpu_trap_frame [simp]:
  "regs (cpu_trap c cause tval) = regs c" "fregs (cpu_trap c cause tval) = fregs c"
  "halted (cpu_trap c cause tval) = halted c" "steps (cpu_trap c cause tval) = steps c"
  "csrs (cpu_trap c cause tval) CSR_SATP = csrs c CSR_SATP"
  "csrs (cpu_trap c cause tval) CSR_MIP = csrs c CSR_MIP"
  by (cases "trap_to_s c cause"; simp add: cpu_trap_s cpu_trap_m)+

lemma execute_sret_ok:
  assumes "PRIV_S \<le> privilege c"
  shows "execute_sret c = c\<lparr>
    csrs := (csrs c)(CSR_MSTATUS := sret_status (csrs c CSR_MSTATUS)),
    privilege := (if bit (csrs c CSR_MSTATUS) 8 then PRIV_S else PRIV_U), pc := csrs c CSR_SEPC\<rparr>"
proof -
  have "privilege c \<noteq> 0" using assms by auto
  then show ?thesis
    by (simp add: execute_sret_def Let_def csr_plain_read csr_plain_write set_csr_def bit_facts)
qed

lemma execute_mret_ok:
  assumes "PRIV_M \<le> privilege c"
  shows "execute_mret c = c\<lparr>
    csrs := (csrs c)(CSR_MSTATUS := mret_status (csrs c CSR_MSTATUS)),
    privilege := ucast (drop_bit MSTATUS_MPP_SHIFT (csrs c CSR_MSTATUS AND MSTATUS_MPP_MASK)),
    pc := csrs c CSR_MEPC\<rparr>"
  using assms
  by (simp add: execute_mret_def Let_def csr_plain_read csr_plain_write set_csr_def not_less)

section \<open>Interrupt lines as an interface\<close>

text \<open>
  What the devices rely on when they drive a line of the processor: raising and lowering
  affect the pending word only, by exactly the bits named.  The remaining state is observed
  through \<open>rest\<close>.
\<close>

locale irq_port =
  fixes raise :: "'s \<Rightarrow> u64 \<Rightarrow> 's" and lower :: "'s \<Rightarrow> u64 \<Rightarrow> 's"
    and pending :: "'s \<Rightarrow> u64" and rest :: "'s \<Rightarrow> 'r"
  assumes pending_raise: "pending (raise s b) = pending s OR b"
    and pending_lower: "pending (lower s b) = pending s AND NOT b"
    and rest_raise: "rest (raise s b) = rest s"
    and rest_lower: "rest (lower s b) = rest s"
begin

lemma pending_drive:
  "bit (pending (if f then raise s b else lower s b)) n \<longleftrightarrow>
     (if bit b n then f else bit (pending s) n)"
  by (auto simp: pending_raise pending_lower bit_simps dest: bit_word_bound)

lemma rest_drive: "rest (if f then raise s b else lower s b) = rest s"
  by (simp add: rest_raise rest_lower)

lemma drive_idem:
  "pending (if f then raise (if g then raise s b else lower s b) b
            else lower (if g then raise s b else lower s b) b)
   = pending (if f then raise s b else lower s b)"
  by (rule bit_word_eqI) (simp add: pending_drive del: if_split split: if_split)

end

definition beside_mip :: "cpu \<Rightarrow> cpu" where
  "beside_mip c = set_csr c CSR_MIP 0"

interpretation cpu_irq: irq_port cpu_raise_irq cpu_lower_irq "\<lambda>c. csrs c CSR_MIP" beside_mip
  by unfold_locales (simp_all add: cpu_raise_irq_def cpu_lower_irq_def beside_mip_def set_csr_def)

lemma beside_mip_frame:
  assumes "beside_mip c' = beside_mip c"
  shows "regs c' = regs c" "fregs c' = fregs c" "fcsr c' = fcsr c" "pc c' = pc c"
    "privilege c' = privilege c" "halted c' = halted c" "steps c' = steps c"
    "a \<noteq> CSR_MIP \<Longrightarrow> csrs c' a = csrs c a"
proof -
  have eq: "set_csr c' CSR_MIP 0 = set_csr c CSR_MIP 0"
    using assms by (simp add: beside_mip_def)
  show "regs c' = regs c" using arg_cong [OF eq, of regs] by simp
  show "fregs c' = fregs c" using arg_cong [OF eq, of fregs] by simp
  show "fcsr c' = fcsr c" using arg_cong [OF eq, of fcsr] by simp
  show "pc c' = pc c" using arg_cong [OF eq, of pc] by simp
  show "privilege c' = privilege c" using arg_cong [OF eq, of privilege] by simp
  show "halted c' = halted c" using arg_cong [OF eq, of halted] by simp
  show "steps c' = steps c" using arg_cong [OF eq, of steps] by simp
  show "csrs c' a = csrs c a" if "a \<noteq> CSR_MIP"
    using fun_cong [OF arg_cong [OF eq, of csrs], of a] that by simp
qed

lemma priv_le_S: "(p :: u32) \<le> 1 \<longleftrightarrow> p = 0 \<or> p = 1"
  by unat_arith

section \<open>Properties of the processor state\<close>

text \<open>C8: Trap entry. The trap goes to S-mode exactly when the processor runs at S or below and
  the delegation register (mideleg for interrupts, medeleg for exceptions) has the bit of the
  cause. Entry saves pc, cause and value, masks interrupts of the target mode after saving the
  enable bit and the old privilege, jumps to the aligned vector, and changes nothing else.\<close>

theorem cpu_trap_entry:
  assumes "privilege c \<le> PRIV_M"
  shows "let st = csrs c CSR_MSTATUS;
             deleg = csrs c (if bit cause 63 then CSR_MIDELEG else CSR_MEDELEG)
         in if privilege c \<le> PRIV_S \<and> bit deleg (unat (cause AND 0x3F))
            then \<exists>st'. cpu_trap c cause tval =
                     c\<lparr>csrs := (csrs c)(CSR_SEPC := pc c, CSR_SCAUSE := cause, CSR_STVAL := tval,
                                       CSR_MSTATUS := st'),
                       privilege := PRIV_S, pc := csrs c CSR_STVEC AND NOT 3\<rparr>
                 \<and> (\<forall>n. bit st' n = (if n = 1 then False else if n = 5 then bit st 1
                                     else if n = 8 then privilege c = PRIV_S else bit st n))
            else \<exists>st'. cpu_trap c cause tval =
                     c\<lparr>csrs := (csrs c)(CSR_MEPC := pc c, CSR_MCAUSE := cause, CSR_MTVAL := tval,
                                       CSR_MSTATUS := st'),
                       privilege := PRIV_M, pc := csrs c CSR_MTVEC AND NOT 3\<rparr>
                 \<and> (\<forall>n. bit st' n = (if n = 3 then False else if n = 7 then bit st 3
                                     else if n = 11 then bit (privilege c) 0
                                     else if n = 12 then bit (privilege c) 1 else bit st n))"
proof (cases "trap_to_s c cause")
  case True
  note bits = bit_s_trap_status [of "csrs c CSR_MSTATUS" "privilege c"]
  show ?thesis
    unfolding Let_def trap_to_s_iff [symmetric] using True
    by (simp only: cpu_trap_s if_True) (intro exI conjI allI, rule refl, rule bits)
next
  case False
  note bits = bit_m_trap_status [OF assms, of "csrs c CSR_MSTATUS"]
  show ?thesis
    unfolding Let_def trap_to_s_iff [symmetric] using False
    by (simp only: cpu_trap_m if_False not_False_eq_True) (intro exI conjI allI, rule refl, rule bits)
qed

definition cpu_zero :: cpu where
  "cpu_zero = \<lparr>regs = \<lambda>_. 0, fregs = \<lambda>_. 0, fcsr = 0, pc = 0, csrs = \<lambda>_. 0,
     privilege = 0, halted = False, steps = 0\<rparr>"

theorem cpu_trap_entry_witness:
  "privilege (cpu_trap (cpu_init cpu_zero) 0x8000000000000005 0) = PRIV_M \<and>
   csrs (cpu_trap (cpu_init cpu_zero) 0x8000000000000005 0) CSR_MEPC = 0x80000000"
proof -
  have "privilege (cpu_init cpu_zero) \<le> PRIV_M" by (simp add: cpu_init_def Let_def)
  from cpu_trap_entry [OF this, of "0x8000000000000005" 0] show ?thesis
    by (auto simp: Let_def cpu_init_def set_csr_def priv_le_S)
qed

text \<open>C3: Trap and return are inverse. Returning from the mode a trap entered (sret after a
  delegated trap, mret otherwise) restores pc, privilege, the integer and floating-point
  registers and both global interrupt-enable bits.\<close>

theorem trap_return_roundtrip:
  assumes "privilege c \<le> PRIV_M"
  shows "let t = cpu_trap c cause tval;
             r = (if trap_to_s c cause then execute_sret t else execute_mret t)
         in pc r = pc c \<and> privilege r = privilege c \<and> regs r = regs c \<and> fregs r = fregs c \<and>
            bit (csrs r CSR_MSTATUS) 1 = bit (csrs c CSR_MSTATUS) 1 \<and>
            bit (csrs r CSR_MSTATUS) 3 = bit (csrs c CSR_MSTATUS) 3"
proof (cases "trap_to_s c cause")
  case True
  then have p: "privilege c = 0 \<or> privilege c = 1"
    by (simp add: trap_to_s_iff priv_le_S)
  show ?thesis
    using True p by (auto simp: Let_def cpu_trap_s execute_sret_ok bit_sret_status bit_s_trap_status)
next
  case False
  have "ucast (drop_bit 11 (m_trap_status st p AND 0x1800)) = p" if "p \<le> 3" for st and p :: u32
  proof (rule bit_word_eqI)
    fix n
    have "bit p n \<Longrightarrow> n < 2" 
      using priv_cases [OF that] by (auto simp: bit_1_iff bit_facts)
    then show "bit (ucast (drop_bit 11 (m_trap_status st p AND 0x1800)) :: u32) n = bit p n"
      using that by (auto simp: bit_simps bit_facts bit_m_trap_status less_2_cases_iff)
  qed
  with False assms show ?thesis
    by (simp add: Let_def cpu_trap_m execute_mret_ok bit_mret_status bit_m_trap_status)
qed

theorem trap_return_roundtrip_witness:
  "pc (execute_mret (cpu_trap (cpu_init cpu_zero) 3 0)) = 0x80000000 \<and>
   privilege (execute_mret (cpu_trap (cpu_init cpu_zero) 3 0)) = PRIV_M"
proof -
  have "privilege (cpu_init cpu_zero) \<le> PRIV_M" by (simp add: cpu_init_def Let_def)
  from trap_return_roundtrip [OF this, of 3 0] show ?thesis
    by (simp add: Let_def cpu_init_def set_csr_def trap_to_s_def csr_read_def priv_le_S)
qed

text \<open>C31: The supervisor views of the machine CSRs. Reading sstatus, sie and sip gives the machine
  register masked (by the seven bits of the sstatus view, and by the delegated interrupts).
  Writing a view changes one machine register and no other state: sstatus takes the written bits
  of its view, sie those of the delegated interrupts, sip the software-interrupt bit alone.\<close>

theorem supervisor_views:
  "csr_read c CSR_SIE = csrs c CSR_MIE AND csrs c CSR_MIDELEG \<and>
   csr_read c CSR_SIP = csrs c CSR_MIP AND csrs c CSR_MIDELEG \<and>
   (\<forall>n. bit (csr_read c CSR_SSTATUS) n = (n \<in> {1, 5, 8, 13, 14, 18, 19} \<and> bit (csrs c CSR_MSTATUS) n)) \<and>
   (\<exists>st. csr_write c CSR_SSTATUS v = c\<lparr>csrs := (csrs c)(CSR_MSTATUS := st)\<rparr> \<and>
      (\<forall>n. bit st n = bit (if n \<in> {1, 5, 8, 13, 14, 18, 19} then v else csrs c CSR_MSTATUS) n)) \<and>
   (\<exists>ie. csr_write c CSR_SIE v = c\<lparr>csrs := (csrs c)(CSR_MIE := ie)\<rparr> \<and>
      (\<forall>n. bit ie n = bit (if bit (csrs c CSR_MIDELEG) n then v else csrs c CSR_MIE) n)) \<and>
   (\<exists>ip. csr_write c CSR_SIP v = c\<lparr>csrs := (csrs c)(CSR_MIP := ip)\<rparr> \<and>
      (\<forall>n. bit ip n = bit (if n = 1 then v else csrs c CSR_MIP) n))"
proof (intro conjI)
  show "csr_read c CSR_SIE = csrs c CSR_MIE AND csrs c CSR_MIDELEG"
    "csr_read c CSR_SIP = csrs c CSR_MIP AND csrs c CSR_MIDELEG"
    by (simp_all add: csr_read_def)
  show "\<forall>n. bit (csr_read c CSR_SSTATUS) n = (n \<in> {1, 5, 8, 13, 14, 18, 19} \<and> bit (csrs c CSR_MSTATUS) n)"
    by (auto simp: csr_read_def bit_simps bit_facts)
  show "\<exists>st. csr_write c CSR_SSTATUS v = c\<lparr>csrs := (csrs c)(CSR_MSTATUS := st)\<rparr> \<and>
      (\<forall>n. bit st n = bit (if n \<in> {1, 5, 8, 13, 14, 18, 19} then v else csrs c CSR_MSTATUS) n)"
    by (intro exI [of _ "(csrs c CSR_MSTATUS AND NOT SSTATUS_MASK) OR (v AND SSTATUS_MASK)"])
      (auto simp: csr_write_def set_csr_def bit_simps bit_facts dest: bit_word_bound)
  show "\<exists>ie. csr_write c CSR_SIE v = c\<lparr>csrs := (csrs c)(CSR_MIE := ie)\<rparr> \<and>
      (\<forall>n. bit ie n = bit (if bit (csrs c CSR_MIDELEG) n then v else csrs c CSR_MIE) n)"
    by (intro exI [of _ "(csrs c CSR_MIE AND NOT (csrs c CSR_MIDELEG)) OR (v AND csrs c CSR_MIDELEG)"])
      (auto simp: csr_write_def set_csr_def bit_simps dest: bit_word_bound)
  show "\<exists>ip. csr_write c CSR_SIP v = c\<lparr>csrs := (csrs c)(CSR_MIP := ip)\<rparr> \<and>
      (\<forall>n. bit ip n = bit (if n = 1 then v else csrs c CSR_MIP) n)"
    by (intro exI [of _ "(csrs c CSR_MIP AND NOT MIP_SSIP) OR (v AND MIP_SSIP)"])
      (auto simp: csr_write_def set_csr_def bit_simps bit_facts dest: bit_word_bound)
qed

text \<open>A machine-mode return to the reserved privilege. The code takes the previous privilege
  from mstatus unchecked, so mret with the encoding 2, which no mode has, leaves the processor in
  a mode from which every trap, delegated or not, goes to machine mode.\<close>

theorem mret_reserved_privilege:
  assumes "PRIV_M \<le> privilege c" and "bit (csrs c CSR_MSTATUS) 12" and "\<not> bit (csrs c CSR_MSTATUS) 11"
  shows "privilege (execute_mret c) = 2 \<and> pc (execute_mret c) = csrs c CSR_MEPC \<and>
         (\<forall>cause tval. privilege (cpu_trap (execute_mret c) cause tval) = PRIV_M)"
proof -
  have "drop_bit 11 (csrs c CSR_MSTATUS AND 0x1800) = push_bit 1 (1 :: u64)"
    by (rule bit_word_eqI) (use assms(2,3) in \<open>auto simp: bit_simps bit_facts bit_1_iff\<close>)
  then have "(ucast (drop_bit 11 (csrs c CSR_MSTATUS AND 0x1800)) :: u32) = 2" by simp
  then have mret: "privilege (execute_mret c) = 2" "pc (execute_mret c) = csrs c CSR_MEPC"
    using assms(1) by (simp_all add: execute_mret_ok)
  then have "\<not> trap_to_s (execute_mret c) cause" for cause by (simp add: trap_to_s_iff word_le_nat_alt)
  with mret show ?thesis by (simp add: cpu_trap_m)
qed

theorem mret_reserved_privilege_witness:
  "privilege (execute_mret ((cpu_init cpu_zero)\<lparr>csrs := (\<lambda>_. 0)(CSR_MSTATUS := 0x1000)\<rparr>)) = 2"
  using mret_reserved_privilege [of "(cpu_init cpu_zero)\<lparr>csrs := (\<lambda>_. 0)(CSR_MSTATUS := 0x1000)\<rparr>"]
  by (simp add: cpu_init_def Let_def bit_facts)

end
