(* ===== verification/Clint.thy ===== *)
theory Clint
  imports Cpu
begin

text \<open>
  The timer of \<^verbatim>\<open>src/clint.c\<close>: a compare register, the comparator polled before every
  instruction, and the two memory-mapped registers.  Time is the step counter of the
  processor.  The pointer to the processor is the processor argument.
\<close>

abbreviation (input) CLINT_MTIMECMP_OFF :: u64 where "CLINT_MTIMECMP_OFF \<equiv> 0x4000"
abbreviation (input) CLINT_MTIME_OFF :: u64 where "CLINT_MTIME_OFF \<equiv> 0xBFF8"

record clint =
  mtimecmp :: u64

definition g_clint :: clint where
  "g_clint = \<lparr>mtimecmp = 0xFFFFFFFFFFFFFFFF\<rparr>"

definition clint_irq_source :: "clint \<Rightarrow> cpu \<Rightarrow> cpu" where
  "clint_irq_source cl c =
     (if mtimecmp cl \<le> steps c then cpu_raise_irq c MIP_STIP else cpu_lower_irq c MIP_STIP)"

definition clint_read :: "clint \<Rightarrow> cpu \<Rightarrow> u64 \<Rightarrow> u64" where
  "clint_read cl c off =
     (if off = CLINT_MTIME_OFF then steps c
      else if off = CLINT_MTIMECMP_OFF then mtimecmp cl
      else 0)"

definition clint_write :: "clint \<Rightarrow> u64 \<Rightarrow> u64 \<Rightarrow> clint" where
  "clint_write cl off val =
     (if off = CLINT_MTIMECMP_OFF then cl\<lparr>mtimecmp := val\<rparr> else cl)"

definition clint_set_timecmp :: "clint \<Rightarrow> u64 \<Rightarrow> clint" where
  "clint_set_timecmp cl val = cl\<lparr>mtimecmp := val\<rparr>"

lemma clint_irq_source_mip:
  "bit (csrs (clint_irq_source cl c) CSR_MIP) n =
     (if n = 5 then mtimecmp cl \<le> steps c else bit (csrs c CSR_MIP) n)"
  using cpu_irq.pending_drive [of "mtimecmp cl \<le> steps c" c MIP_STIP n]
  by (auto simp: clint_irq_source_def bit_facts dest: bit_word_bound)

lemma clint_irq_source_frame [frames]: "beside_mip (clint_irq_source cl c) = beside_mip c"
  unfolding clint_irq_source_def by (rule cpu_irq.rest_drive)

lemmas clint_irq_source_simps [simp] = beside_mip_frame [OF clint_irq_source_frame]

text \<open>C32: The timer comparator. After each poll the supervisor timer interrupt is pending exactly
  when the step counter has reached the compare register, however that register was written
  (through the bus or by the SBI call), and polling touches no other pending bit, register or
  field of the processor.\<close>

theorem timer_comparator:
  "let c' = clint_irq_source (clint_write cl CLINT_MTIMECMP_OFF t) c
   in (\<forall>n. bit (csrs c' CSR_MIP) n = (if n = 5 then t \<le> steps c else bit (csrs c CSR_MIP) n)) \<and>
      c' = clint_irq_source (clint_set_timecmp cl t) c \<and>
      c'\<lparr>csrs := (csrs c')(CSR_MIP := 0)\<rparr> = c\<lparr>csrs := (csrs c)(CSR_MIP := 0)\<rparr> \<and>
      clint_read (clint_write cl CLINT_MTIMECMP_OFF t) c' CLINT_MTIMECMP_OFF = t"
  using clint_irq_source_frame [of "cl\<lparr>mtimecmp := t\<rparr>" c]
  by (simp add: Let_def clint_write_def clint_set_timecmp_def clint_read_def
      clint_irq_source_mip beside_mip_def set_csr_def)

end
