(* ===== verification/Plic.thy ===== *)
theory Plic
  imports Clint
begin

text \<open>
  The interrupt controller of \<^verbatim>\<open>src/plic.c\<close>: 32 sources with a priority each, two
  contexts with an enable mask and a threshold, pending and claimed masks, and the output
  line to the supervisor external interrupt of the processor.  The loops over the sources
  are recursions over the list \<open>[1..<32]\<close>.
\<close>

abbreviation (input) PLIC_NUM_SOURCES :: nat where "PLIC_NUM_SOURCES \<equiv> 32"
abbreviation (input) PLIC_NUM_CONTEXTS :: nat where "PLIC_NUM_CONTEXTS \<equiv> 2"
abbreviation (input) PLIC_CTX_S :: nat where "PLIC_CTX_S \<equiv> 1"
abbreviation (input) PLIC_PENDING_OFF :: u64 where "PLIC_PENDING_OFF \<equiv> 0x1000"
abbreviation (input) PLIC_ENABLE_OFF :: u64 where "PLIC_ENABLE_OFF \<equiv> 0x2000"
abbreviation (input) PLIC_ENABLE_STRIDE :: u64 where "PLIC_ENABLE_STRIDE \<equiv> 0x80"
abbreviation (input) PLIC_THRESHOLD_OFF :: u64 where "PLIC_THRESHOLD_OFF \<equiv> 0x200000"
abbreviation (input) PLIC_CONTEXT_STRIDE :: u64 where "PLIC_CONTEXT_STRIDE \<equiv> 0x1000"
abbreviation (input) PLIC_CLAIM_CTX_OFF :: u64 where "PLIC_CLAIM_CTX_OFF \<equiv> 4"
abbreviation (input) PLIC_IRQ_UART :: u32 where "PLIC_IRQ_UART \<equiv> 1"

record plic =
  priority :: "nat \<Rightarrow> u32"
  pending :: u32
  enable :: "nat \<Rightarrow> u32"
  threshold :: "nat \<Rightarrow> u32"
  claimed :: u32

definition s_plic :: plic where
  "s_plic = \<lparr>priority = \<lambda>_. 0, pending = 0, enable = \<lambda>_. 0, threshold = \<lambda>_. 0, claimed = 0\<rparr>"

definition plic_actionable :: "plic \<Rightarrow> nat \<Rightarrow> u32" where
  "plic_actionable p ctx = pending p AND enable p ctx AND NOT (claimed p)"

primrec plic_fire_loop :: "plic \<Rightarrow> u32 \<Rightarrow> nat list \<Rightarrow> bool" where
  "plic_fire_loop p actionable [] = False"
| "plic_fire_loop p actionable (irq # irqs) =
     (if actionable AND push_bit irq 1 \<noteq> 0 \<and> threshold p PLIC_CTX_S < priority p irq then True
      else plic_fire_loop p actionable irqs)"

definition plic_update_seip :: "plic \<Rightarrow> cpu \<Rightarrow> cpu" where
  "plic_update_seip p c =
     (if plic_fire_loop p (plic_actionable p PLIC_CTX_S) [1..<PLIC_NUM_SOURCES]
      then cpu_raise_irq c MIP_SEIP else cpu_lower_irq c MIP_SEIP)"

definition plic_set_pending :: "plic \<Rightarrow> cpu \<Rightarrow> u32 \<Rightarrow> plic \<times> cpu" where
  "plic_set_pending p c irq =
     (if irq = 0 \<or> 32 \<le> irq then (p, c)
      else (let p = p\<lparr>pending := pending p OR push_bit (unat irq) 1\<rparr>
            in (p, plic_update_seip p c)))"

primrec plic_claim_loop :: "plic \<Rightarrow> u32 \<Rightarrow> nat \<Rightarrow> nat list \<Rightarrow> u32 \<times> u32 \<Rightarrow> u32 \<times> u32" where
  "plic_claim_loop p actionable ctx [] best = best"
| "plic_claim_loop p actionable ctx (irq # irqs) best =
     plic_claim_loop p actionable ctx irqs
       (if actionable AND push_bit irq 1 \<noteq> 0 \<and> threshold p ctx < priority p irq
           \<and> snd best < priority p irq
        then (of_nat irq, priority p irq) else best)"

definition plic_claim :: "plic \<Rightarrow> cpu \<Rightarrow> nat \<Rightarrow> u32 \<times> plic \<times> cpu" where
  "plic_claim p c ctx =
     (let best_irq = fst (plic_claim_loop p (plic_actionable p ctx) ctx [1..<PLIC_NUM_SOURCES] (0, 0))
      in if best_irq \<noteq> 0 then
           (let p = p\<lparr>claimed := claimed p OR push_bit (unat best_irq) 1,
                      pending := pending p AND NOT (push_bit (unat best_irq) 1)\<rparr>
            in (best_irq, p, plic_update_seip p c))
         else (best_irq, p, c))"

definition plic_complete :: "plic \<Rightarrow> cpu \<Rightarrow> u32 \<Rightarrow> plic \<times> cpu" where
  "plic_complete p c irq =
     (if irq = 0 \<or> 32 \<le> irq then (p, c)
      else (let p = p\<lparr>claimed := claimed p AND NOT (push_bit (unat irq) 1)\<rparr>
            in (p, plic_update_seip p c)))"

text \<open>
  The handlers index their arrays through \<open>in_array\<close>, so an index that no guard stops is
  undefined behaviour.  \<open>plic_claim\<close> indexes \<^verbatim>\<open>enable\<close> and \<^verbatim>\<open>threshold\<close> with the context it is
  given; the check stands before its call.
\<close>

definition plic_read :: "plic \<Rightarrow> cpu \<Rightarrow> u64 \<Rightarrow> stop + u64 \<times> plic \<times> cpu" where
  "plic_read p c off =
     (if off < PLIC_PENDING_OFF then
        (let irq = ucast (off div 4) :: u32
         in if irq < of_nat PLIC_NUM_SOURCES
            then andThen (in_array PLIC_NUM_SOURCES (uint irq)) (\<lambda>i. Inr (ucast (priority p i), p, c))
            else Inr (0, p, c))
      else if off = PLIC_PENDING_OFF then Inr (ucast (pending p), p, c)
      else if PLIC_ENABLE_OFF \<le> off \<and> off < PLIC_THRESHOLD_OFF then
        (let ctx = c_int ((off - PLIC_ENABLE_OFF) div PLIC_ENABLE_STRIDE)
         in if ctx < int PLIC_NUM_CONTEXTS \<and> (off - PLIC_ENABLE_OFF) mod PLIC_ENABLE_STRIDE = 0
            then andThen (in_array PLIC_NUM_CONTEXTS ctx) (\<lambda>i. Inr (ucast (enable p i), p, c))
            else Inr (0, p, c))
      else if PLIC_THRESHOLD_OFF \<le> off then
        (let ctx = c_int ((off - PLIC_THRESHOLD_OFF) div PLIC_CONTEXT_STRIDE);
             ctx_off = (off - PLIC_THRESHOLD_OFF) mod PLIC_CONTEXT_STRIDE
         in if ctx < int PLIC_NUM_CONTEXTS then
              (if ctx_off = 0
               then andThen (in_array PLIC_NUM_CONTEXTS ctx) (\<lambda>i. Inr (ucast (threshold p i), p, c))
               else if ctx_off = PLIC_CLAIM_CTX_OFF
               then andThen (in_array PLIC_NUM_CONTEXTS ctx) (\<lambda>i.
                      let (irq, p, c) = plic_claim p c i in Inr (ucast irq, p, c))
               else Inr (0, p, c))
            else Inr (0, p, c))
      else Inr (0, p, c))"

definition plic_write :: "plic \<Rightarrow> cpu \<Rightarrow> u64 \<Rightarrow> u64 \<Rightarrow> stop + plic \<times> cpu" where
  "plic_write p c off val =
     (if off < PLIC_PENDING_OFF then
        (let irq = ucast (off div 4) :: u32
         in if irq < of_nat PLIC_NUM_SOURCES
            then andThen (in_array PLIC_NUM_SOURCES (uint irq)) (\<lambda>i.
                   let p = p\<lparr>priority := (priority p)(i := ucast val)\<rparr> in Inr (p, plic_update_seip p c))
            else Inr (p, c))
      else if off = PLIC_PENDING_OFF then Inr (p, c)
      else if PLIC_ENABLE_OFF \<le> off \<and> off < PLIC_THRESHOLD_OFF then
        (let ctx = c_int ((off - PLIC_ENABLE_OFF) div PLIC_ENABLE_STRIDE)
         in if ctx < int PLIC_NUM_CONTEXTS \<and> (off - PLIC_ENABLE_OFF) mod PLIC_ENABLE_STRIDE = 0
            then andThen (in_array PLIC_NUM_CONTEXTS ctx) (\<lambda>i.
                   let p = p\<lparr>enable := (enable p)(i := ucast val)\<rparr> in Inr (p, plic_update_seip p c))
            else Inr (p, c))
      else if PLIC_THRESHOLD_OFF \<le> off then
        (let ctx = c_int ((off - PLIC_THRESHOLD_OFF) div PLIC_CONTEXT_STRIDE);
             ctx_off = (off - PLIC_THRESHOLD_OFF) mod PLIC_CONTEXT_STRIDE
         in if ctx < int PLIC_NUM_CONTEXTS then
              (if ctx_off = 0
               then andThen (in_array PLIC_NUM_CONTEXTS ctx) (\<lambda>i.
                      let p = p\<lparr>threshold := (threshold p)(i := ucast val)\<rparr> in Inr (p, plic_update_seip p c))
               else if ctx_off = PLIC_CLAIM_CTX_OFF then Inr (plic_complete p c (ucast val))
               else Inr (p, c))
            else Inr (p, c))
      else Inr (p, c))"

section \<open>Arbitration: an order on the sources\<close>

text \<open>
  What the arbiter of the controller computes, without its loop: among the sources that are
  pending, enabled, unclaimed and above the threshold, the greatest one, where a source is
  greater when its priority is higher or, at equal priority, its number is smaller.
\<close>

datatype source = Source (source_priority: u32) (source_number: nat)

instantiation source :: linorder
begin

definition less_eq_source :: "source \<Rightarrow> source \<Rightarrow> bool" where
  "s \<le> t \<longleftrightarrow> source_priority s < source_priority t \<or>
            source_priority s = source_priority t \<and> source_number t \<le> source_number s"

definition less_source :: "source \<Rightarrow> source \<Rightarrow> bool" where
  "s < t \<longleftrightarrow> source_priority s < source_priority t \<or>
            source_priority s = source_priority t \<and> source_number t < source_number s"

instance
  by standard (auto simp: less_eq_source_def less_source_def intro: source.expand)

end

definition candidates :: "plic \<Rightarrow> nat \<Rightarrow> nat set" where
  "candidates p ctx = {irq \<in> {1..<PLIC_NUM_SOURCES}. bit (pending p) irq \<and> bit (enable p ctx) irq
                        \<and> \<not> bit (claimed p) irq \<and> threshold p ctx < priority p irq}"

definition arbitrate :: "plic \<Rightarrow> nat \<Rightarrow> nat" where
  "arbitrate p ctx =
     (if candidates p ctx = {} then 0
      else source_number (Max ((\<lambda>i. Source (priority p i) i) ` candidates p ctx)))"

lemma finite_candidates [simp]: "finite (candidates p ctx)"
  by (simp add: candidates_def)

lemma candidates_range: "i \<in> candidates p ctx \<Longrightarrow> 1 \<le> i \<and> i < 32"
  by (simp add: candidates_def)

lemma and_push_bit_32: "i < 32 \<Longrightarrow> (w :: u32) AND 2 ^ i = 0 \<longleftrightarrow> \<not> bit w i"
  by (simp add: and_exp_eq_0_iff_not_bit)

lemma bit_actionable:
  "bit (plic_actionable p ctx) i \<longleftrightarrow> bit (pending p) i \<and> bit (enable p ctx) i \<and> \<not> bit (claimed p) i"
  by (auto simp: plic_actionable_def bit_simps dest: bit_imp_le_length)

lemma candidates_iff:
  "i \<in> candidates p ctx \<longleftrightarrow> 1 \<le> i \<and> i < 32 \<and> bit (plic_actionable p ctx) i \<and> threshold p ctx < priority p i"
  by (auto simp: candidates_def bit_actionable)

lemma plic_fire_loop_iff:
  "set irqs \<subseteq> {..<32} \<Longrightarrow> plic_fire_loop p a irqs \<longleftrightarrow>
     (\<exists>i \<in> set irqs. bit a i \<and> threshold p PLIC_CTX_S < priority p i)"
  by (induction irqs) (auto simp: and_push_bit_32)

lemma plic_fires: "plic_fire_loop p (plic_actionable p 1) [1..<32] \<longleftrightarrow> candidates p 1 \<noteq> {}"
proof -
  have "set [1..<32] \<subseteq> {..<32::nat}" by auto
  from plic_fire_loop_iff [OF this] show ?thesis
    by (auto simp: candidates_iff simp del: upt_rec_numeral)
qed

lemma plic_claim_loop_append:
  "plic_claim_loop p a ctx (xs @ ys) best = plic_claim_loop p a ctx ys (plic_claim_loop p a ctx xs best)"
  by (induction xs arbitrary: best) auto

definition claims_best :: "plic \<Rightarrow> nat set \<Rightarrow> u32 \<times> u32 \<Rightarrow> bool" where
  "claims_best p C best \<longleftrightarrow> (if C = {} then best = (0, 0)
     else \<exists>i \<in> C. best = (of_nat i, priority p i) \<and>
            (\<forall>j \<in> C. Source (priority p j) j \<le> Source (priority p i) i))"

lemma plic_claim_loop_best:
  assumes "1 \<le> n" "n \<le> 32"
  shows "claims_best p (candidates p ctx \<inter> {..<n})
           (plic_claim_loop p (plic_actionable p ctx) ctx [1..<n] (0, 0))"
  using assms
proof (induction n rule: nat_induct_at_least)
  case base
  have "candidates p ctx \<inter> {..<1} = {}" by (auto simp: candidates_def)
  then show ?case by (simp add: claims_best_def)
next
  case (Suc n)
  let ?C = "candidates p ctx \<inter> {..<n}" and ?D = "candidates p ctx \<inter> {..<Suc n}"
  let ?b = "plic_claim_loop p (plic_actionable p ctx) ctx [1..<n] (0, 0)"
  have IH: "claims_best p ?C ?b" using Suc by simp
  have n: "n < 32" "1 \<le> n" using Suc by simp_all
  have step: "plic_claim_loop p (plic_actionable p ctx) ctx [1..<Suc n] (0, 0) =
      (if n \<in> candidates p ctx \<and> snd ?b < priority p n then (of_nat n, priority p n) else ?b)"
    using n by (simp add: plic_claim_loop_append candidates_iff and_push_bit_32)
  show ?case
  proof (cases "n \<in> candidates p ctx")
    case False
    then have "?D = ?C" by (auto simp: less_Suc_eq)
    with IH False step show ?thesis by simp
  next
    case True
    then have D: "?D = insert n ?C" by (auto simp: less_Suc_eq)
    have pos: "0 < priority p n"
      using True by (auto simp: candidates_iff intro: le_less_trans [OF word_zero_le])
    show ?thesis
    proof (cases "?C = {}")
      case True
      with IH \<open>n \<in> candidates p ctx\<close> step pos D show ?thesis by (simp add: claims_best_def)
    next
      case False
      with IH obtain i where i: "i \<in> ?C" "?b = (of_nat i, priority p i)"
        "\<forall>j \<in> ?C. Source (priority p j) j \<le> Source (priority p i) i"
        by (auto simp: claims_best_def)
      show ?thesis
      proof (cases "priority p i < priority p n")
        case True
        have "Source (priority p j) j \<le> Source (priority p n) n" if "j \<in> ?C" for j
        proof -
          have "Source (priority p j) j \<le> Source (priority p i) i" using i(3) that by blast
          also have "\<dots> \<le> Source (priority p n) n" using True by (simp add: less_eq_source_def)
          finally show ?thesis .
        qed
        then show ?thesis
          unfolding claims_best_def D step
          using True i(2) \<open>n \<in> candidates p ctx\<close> by simp
      next
        case False
        then have "Source (priority p n) n \<le> Source (priority p i) i"
          using i(1) by (auto simp: less_eq_source_def)
        then show ?thesis
          unfolding claims_best_def D step using False i by auto
      qed
    qed
  qed
qed

lemma plic_claim_loop_arbitrate:
  "fst (plic_claim_loop p (plic_actionable p ctx) ctx [1..<32] (0, 0)) = of_nat (arbitrate p ctx)"
proof -
  have all: "candidates p ctx \<inter> {..<32} = candidates p ctx" by (auto simp: candidates_def)
  have best: "claims_best p (candidates p ctx) (plic_claim_loop p (plic_actionable p ctx) ctx [1..<32] (0, 0))"
    using plic_claim_loop_best [of 32 p ctx] unfolding all by simp
  show ?thesis
  proof (cases "candidates p ctx = {}")
    case True
    with best show ?thesis by (simp add: claims_best_def arbitrate_def del: upt_rec_numeral)
  next
    case False
    with best obtain i where i: "i \<in> candidates p ctx"
      "plic_claim_loop p (plic_actionable p ctx) ctx [1..<32] (0, 0) = (of_nat i, priority p i)"
      "\<forall>j \<in> candidates p ctx. Source (priority p j) j \<le> Source (priority p i) i"
      by (auto simp: claims_best_def simp del: upt_rec_numeral)
    have "Max ((\<lambda>i. Source (priority p i) i) ` candidates p ctx) = Source (priority p i) i"
      using i by (intro Max_eqI) auto
    with i False show ?thesis by (simp add: arbitrate_def del: upt_rec_numeral)
  qed
qed

lemma arbitrate_candidate: "candidates p ctx \<noteq> {} \<Longrightarrow> arbitrate p ctx \<in> candidates p ctx"
proof -
  assume ne: "candidates p ctx \<noteq> {}"
  then have "Max ((\<lambda>i. Source (priority p i) i) ` candidates p ctx) \<in> (\<lambda>i. Source (priority p i) i) ` candidates p ctx"
    by (intro Max_in) auto
  then obtain i where "i \<in> candidates p ctx"
    "Max ((\<lambda>i. Source (priority p i) i) ` candidates p ctx) = Source (priority p i) i"
    by auto
  with ne show ?thesis by (simp add: arbitrate_def)
qed

lemma arbitrate_lt: "arbitrate p ctx < 32"
  using arbitrate_candidate [of p ctx] candidates_range [of "arbitrate p ctx" p ctx]
  by (cases "candidates p ctx = {}") (auto simp: arbitrate_def)

lemma arbitrate_0: "arbitrate p ctx = 0 \<longleftrightarrow> candidates p ctx = {}"
  using arbitrate_candidate [of p ctx] candidates_range [of "arbitrate p ctx" p ctx]
  by (cases "candidates p ctx = {}") (auto simp: arbitrate_def)

section \<open>The output line\<close>

text \<open>The supervisor external interrupt is asserted exactly when context S has a candidate.\<close>

definition seip_ok :: "plic \<Rightarrow> cpu \<Rightarrow> bool" where
  "seip_ok p c \<longleftrightarrow> (bit (csrs c CSR_MIP) 9 \<longleftrightarrow> candidates p PLIC_CTX_S \<noteq> {})"

lemma plic_update_seip_mip:
  "bit (csrs (plic_update_seip p c) CSR_MIP) n =
     (if n = 9 then candidates p 1 \<noteq> {} else bit (csrs c CSR_MIP) n)"
  unfolding plic_update_seip_def plic_fires cpu_irq.pending_drive
  by (auto simp: bit_simps bit_facts dest: bit_word_bound)

lemma plic_update_seip_frame [frames]: "beside_mip (plic_update_seip p c) = beside_mip c"
  unfolding plic_update_seip_def by (rule cpu_irq.rest_drive)

lemma seip_ok_update [simp]: "seip_ok p (plic_update_seip p c)"
  by (simp add: seip_ok_def plic_update_seip_mip)

lemma bit_set_clear:
  "i < 32 \<Longrightarrow> bit (w OR push_bit i 1 :: u32) j \<longleftrightarrow> j = i \<or> bit w j"
  "i < 32 \<Longrightarrow> bit (w AND NOT (push_bit i 1) :: u32) j \<longleftrightarrow> j \<noteq> i \<and> bit w j"
  by (auto simp: bit_simps dest: bit_imp_le_length)

lemma plic_claim_result: "fst (plic_claim p c ctx) = of_nat (arbitrate p ctx)"
  unfolding plic_claim_def plic_claim_loop_arbitrate Let_def by simp

lemma unat_arbitrate: "unat (of_nat (arbitrate p ctx) :: u32) = arbitrate p ctx"
  using arbitrate_lt [of p ctx] by (simp add: unat_of_nat)

lemma plic_claim_eq:
  "plic_claim p c ctx =
     (if arbitrate p ctx = 0 then (0, p, c)
      else (let p' = p\<lparr>claimed := claimed p OR push_bit (arbitrate p ctx) 1,
                       pending := pending p AND NOT (push_bit (arbitrate p ctx) 1)\<rparr>
            in (of_nat (arbitrate p ctx), p', plic_update_seip p' c)))"
proof -
  have "(of_nat (arbitrate p ctx) :: u32) = 0 \<longleftrightarrow> arbitrate p ctx = 0"
    unfolding unat_eq_0 [symmetric] unat_arbitrate ..
  then show ?thesis
    unfolding plic_claim_def plic_claim_loop_arbitrate Let_def unat_arbitrate by simp
qed

lemma candidates_claim:
  "candidates (fst (snd (plic_claim p c ctx))) ctx' = candidates p ctx' - {arbitrate p ctx}"
proof (cases "arbitrate p ctx = 0")
  case True
  then show ?thesis by (auto simp: plic_claim_eq candidates_def)
next
  case False
  then show ?thesis
    using arbitrate_lt [of p ctx]
    by (auto simp: plic_claim_eq Let_def candidates_def bit_set_clear simp del: push_bit_of_1)
qed

section \<open>Every access keeps the line consistent\<close>

lemma seip_ok_claim: "seip_ok p c \<Longrightarrow> case plic_claim p c ctx of (_, p', c') \<Rightarrow> seip_ok p' c'"
  by (simp add: plic_claim_eq Let_def)

lemma seip_ok_set_pending: "seip_ok p c \<Longrightarrow> case plic_set_pending p c irq of (p', c') \<Rightarrow> seip_ok p' c'"
  by (simp add: plic_set_pending_def Let_def)

lemma seip_ok_complete: "seip_ok p c \<Longrightarrow> case plic_complete p c irq of (p', c') \<Rightarrow> seip_ok p' c'"
  by (simp add: plic_complete_def Let_def)

lemma seip_ok_read: "seip_ok p c \<Longrightarrow> okR (\<lambda>(_, p', c'). seip_ok p' c') (plic_read p c off)"
  using seip_ok_claim [of p c]
  by (simp add: plic_read_def Let_def case_prod_unfold)

lemma seip_ok_write: "seip_ok p c \<Longrightarrow> okR (\<lambda>(p', c'). seip_ok p' c') (plic_write p c off v)"
  using seip_ok_complete by (simp add: plic_write_def Let_def case_prod_unfold)

lemma plic_claim_frame [frames]: "beside_mip (snd (snd (plic_claim p c ctx))) = beside_mip c"
  by (simp add: plic_claim_eq Let_def frames)

lemma plic_set_pending_frame [frames]: "beside_mip (snd (plic_set_pending p c irq)) = beside_mip c"
  by (simp add: plic_set_pending_def Let_def frames)

lemma plic_complete_frame [frames]: "beside_mip (snd (plic_complete p c irq)) = beside_mip c"
  by (simp add: plic_complete_def Let_def frames)

lemma plic_read_frame [frames]: "okR (\<lambda>(_, p', c'). beside_mip c' = beside_mip c) (plic_read p c off)"
  by (simp add: plic_read_def Let_def case_prod_unfold plic_claim_frame)

lemma plic_write_frame [frames]: "okR (\<lambda>(p', c'). beside_mip c' = beside_mip c) (plic_write p c off v)"
  by (simp add: plic_write_def Let_def case_prod_unfold frames)

text \<open>Inside the window of the controller no index leaves its array.\<close>

lemma window_ctx:
  fixes b s :: u64
  assumes "off \<le> 0x04000000" "b \<le> off"
  shows "c_int ((off - b) div s) = uint ((off - b) div s)"
proof (rule c_int_small)
  have "(off - b) div s \<le> off - b" by (simp add: word_le_nat_alt unat_div div_le_dividend)
  also have "off - b \<le> off" using assms(2) by (simp add: word_sub_le)
  also have "off < 0x80000000" using assms(1) by (rule le_less_trans) simp
  finally show "(off - b) div s < 0x80000000" .
qed

lemma in_array_uint [simp]: "uint (w :: 'a::len word) < int n \<Longrightarrow> in_array n (uint w) = Inr (unat w)"
  by (simp add: in_array_def)

lemma plic_defined:
  assumes "off \<le> 0x04000000"
  shows "\<exists>r. plic_read p c off = Inr r" "\<exists>d. plic_write p c off v = Inr d"
proof -
  have irq: "uint irq < int PLIC_NUM_SOURCES" if "irq < of_nat PLIC_NUM_SOURCES" for irq :: u32
    using that by (simp add: word_less_def)
  note ctx = window_ctx [OF assms, of PLIC_ENABLE_OFF] window_ctx [OF assms, of PLIC_THRESHOLD_OFF]
  show "\<exists>r. plic_read p c off = Inr r" "\<exists>d. plic_write p c off v = Inr d"
    using irq by (auto simp: plic_read_def plic_write_def Let_def ctx case_prod_unfold)
qed

definition plic_rd :: "plic \<times> cpu \<Rightarrow> u64 \<Rightarrow> stop + u64 \<times> plic \<times> cpu" where
  "plic_rd d off = plic_read (fst d) (snd d) off"

definition plic_wr :: "plic \<times> cpu \<Rightarrow> u64 \<Rightarrow> u64 \<Rightarrow> stop + plic \<times> cpu" where
  "plic_wr d off v = plic_write (fst d) (snd d) off v"

interpretation plic_dev: mmio_device plic_rd plic_wr "\<lambda>(p, c). seip_ok p c" "\<lambda>(p, c). beside_mip c"
proof unfold_locales
  fix d :: "plic \<times> cpu" and off v
  show "okR (\<lambda>(_, d'). case d' of (p, c) \<Rightarrow> seip_ok p c) (plic_rd d off)"
    if "case d of (p, c) \<Rightarrow> seip_ok p c"
    using that seip_ok_read [of "fst d" "snd d" off] by (simp add: plic_rd_def case_prod_unfold)
  show "okR (\<lambda>(p, c). seip_ok p c) (plic_wr d off v)" if "case d of (p, c) \<Rightarrow> seip_ok p c"
    using that seip_ok_write [of "fst d" "snd d" off v] by (simp add: plic_wr_def case_prod_unfold)
  show "okR (\<lambda>(_, d'). (case d' of (p, c) \<Rightarrow> beside_mip c) = (case d of (p, c) \<Rightarrow> beside_mip c)) (plic_rd d off)"
    using plic_read_frame [of "snd d" "fst d" off] by (simp add: plic_rd_def case_prod_unfold)
  show "okR (\<lambda>d'. (case d' of (p, c) \<Rightarrow> beside_mip c) = (case d of (p, c) \<Rightarrow> beside_mip c)) (plic_wr d off v)"
    using plic_write_frame [of "snd d" "fst d" off v] by (simp add: plic_wr_def case_prod_unfold)
qed

lemma plic_runs: "\<forall>a \<in> set accs. access_offset a < 0x04000000 \<Longrightarrow> \<exists>d'. run_accesses plic_rd plic_wr d accs = Inr d'"
  using plic_defined [OF order.strict_implies_order]
  by (intro run_accesses_returns [where ok = "\<lambda>off. off < 0x04000000"]) (auto simp: plic_rd_def plic_wr_def)

section \<open>Properties\<close>

text \<open>C18: Arbitration. A claim returns the greatest candidate of the context (highest priority,
  then lowest number; 0 when there is none), removes exactly that source from the candidates
  of both contexts by moving it from pending to claimed, and leaves the other sources alone.\<close>

theorem plic_claim_arbitrates:
  "case plic_claim p c ctx of (irq, p', c') \<Rightarrow>
     irq = of_nat (arbitrate p ctx) \<and>
     (\<forall>ctx'. candidates p' ctx' = candidates p ctx' - {arbitrate p ctx}) \<and>
     (arbitrate p ctx = 0 \<longleftrightarrow> candidates p ctx = {}) \<and>
     (\<forall>i. bit (claimed p') i = (bit (claimed p) i \<or> i = arbitrate p ctx \<and> i \<noteq> 0)) \<and>
     (\<forall>i. bit (pending p') i = (bit (pending p) i \<and> \<not> (i = arbitrate p ctx \<and> i \<noteq> 0)))"
proof -
  have "(\<forall>i. bit (claimed (fst (snd (plic_claim p c ctx)))) i = (bit (claimed p) i \<or> i = arbitrate p ctx \<and> i \<noteq> 0)) \<and>
     (\<forall>i. bit (pending (fst (snd (plic_claim p c ctx)))) i = (bit (pending p) i \<and> \<not> (i = arbitrate p ctx \<and> i \<noteq> 0)))"
    using arbitrate_lt [of p ctx]
    by (auto simp: plic_claim_eq Let_def bit_set_clear simp del: push_bit_of_1)
  then show ?thesis
    using plic_claim_result [of p c ctx] candidates_claim [of p c ctx] arbitrate_0 [of p ctx]
    by (auto simp: case_prod_unfold)
qed

text \<open>C19: The line to the processor follows the controller. However a driver reads and writes
  the registers of the controller, the supervisor external interrupt stays asserted exactly
  while context S has a candidate, and nothing of the processor besides the pending word changes.
  Every sequence of accesses inside the window of the controller returns.\<close>

theorem plic_line_consistent:
  assumes "seip_ok p c"
  shows "okR (\<lambda>(p', c'). (bit (csrs c' CSR_MIP) 9 \<longleftrightarrow> candidates p' PLIC_CTX_S \<noteq> {}) \<and>
                         beside_mip c' = beside_mip c)
             (run_accesses plic_rd plic_wr (p, c) accs) \<and>
         ((\<forall>a \<in> set accs. access_offset a < 0x04000000) \<longrightarrow> (\<exists>d. run_accesses plic_rd plic_wr (p, c) accs = Inr d))"
proof -
  have "okR (\<lambda>(p', c'). seip_ok p' c') (run_accesses plic_rd plic_wr (p, c) accs)"
    using assms by (intro plic_dev.inv_run) simp
  from okR_conj [OF this plic_dev.keep_run [of "(p, c)" accs]]
  have "okR (\<lambda>(p', c'). (bit (csrs c' CSR_MIP) 9 \<longleftrightarrow> candidates p' PLIC_CTX_S \<noteq> {}) \<and> beside_mip c' = beside_mip c)
      (run_accesses plic_rd plic_wr (p, c) accs)"
    by (rule okR_mono) (auto simp: seip_ok_def)
  then show ?thesis using plic_runs by blast
qed

theorem plic_line_consistent_witness:
  "seip_ok s_plic cpu_zero \<and>
   (\<exists>p' c'. run_accesses plic_rd plic_wr (s_plic, cpu_zero) [Store 4 7, Store 0x2080 2, Load 0x201004] = Inr (p', c') \<and>
      (bit (csrs c' CSR_MIP) 9 \<longleftrightarrow> candidates p' PLIC_CTX_S \<noteq> {}))"
proof -
  have ok: "seip_ok s_plic cpu_zero"
    by (simp add: seip_ok_def s_plic_def cpu_zero_def candidates_def)
  from plic_line_consistent [OF ok, of "[Store 4 7, Store 0x2080 2, Load 0x201004]"] ok
  show ?thesis by (fastforce simp: okR_iff)
qed

end
