(* ===== verification/Memory.thy ===== *)
theory Memory
  imports Prelude
begin

text \<open>
  Guest memory (\<^verbatim>\<open>src/memory.c\<close>, \<^verbatim>\<open>include/memory.h\<close>): an array of at most eight
  regions, the linear search that finds the region of an access, and the handlers of plain
  RAM.  The function pointers of a region are the constructors of \<open>handler\<close>; \<open>Bus\<close> dispatches
  on them.  A heap block is a function from the offset to the byte together with the size of
  its region; an access beyond the size is undefined behaviour of the host.  The host is
  little-endian, as every target of the emulator is.
\<close>

abbreviation (input) MAX_REGIONS :: nat where "MAX_REGIONS \<equiv> 8"

datatype handler =
    DefaultHandler
  | UartHandler
  | PlicHandler
  | ClintHandler
  | VirtioHandler nat  \<comment> \<open>the slot that \<^verbatim>\<open>opaque\<close> points to\<close>

record region =
  base :: u64
  rsize :: u64
  rdata :: "(u64 \<Rightarrow> u8) option"   \<comment> \<open>the heap block; none for a device\<close>
  rhandler :: handler

type_synonym memory = "region list"  \<comment> \<open>the first \<^verbatim>\<open>count\<close> entries of the array\<close>

section \<open>Plain RAM\<close>

fun load_le :: "(u64 \<Rightarrow> u8) \<Rightarrow> u64 \<Rightarrow> nat \<Rightarrow> u64" where
  "load_le d a 0 = 0"
| "load_le d a (Suc n) = ucast (d a) OR push_bit 8 (load_le d (a + 1) n)"

fun store_le :: "(u64 \<Rightarrow> u8) \<Rightarrow> u64 \<Rightarrow> u64 \<Rightarrow> nat \<Rightarrow> (u64 \<Rightarrow> u8)" where
  "store_le d a v 0 = d"
| "store_le d a v (Suc n) = store_le (d(a := ucast v)) (a + 1) (drop_bit 8 v) n"

fun load_bytes :: "(u64 \<Rightarrow> u8) \<Rightarrow> u64 \<Rightarrow> nat \<Rightarrow> u8 list" where
  "load_bytes d a 0 = []"
| "load_bytes d a (Suc n) = d a # load_bytes d (a + 1) n"

fun store_bytes :: "(u64 \<Rightarrow> u8) \<Rightarrow> u64 \<Rightarrow> u8 list \<Rightarrow> (u64 \<Rightarrow> u8)" where
  "store_bytes d a [] = d"
| "store_bytes d a (b # bs) = store_bytes (d(a := b)) (a + 1) bs"

definition with_block :: "region \<Rightarrow> u64 \<Rightarrow> nat \<Rightarrow> ((u64 \<Rightarrow> u8) \<Rightarrow> 'a) \<Rightarrow> stop + 'a" where
  "with_block r off n f =
     (case rdata r of
        None \<Rightarrow> Inl (Undefined NullPointer)
      | Some d \<Rightarrow> if unat off + n \<le> unat (rsize r) then Inr (f d) else Inl (Undefined OutOfBounds))"

definition default_read :: "region \<Rightarrow> u64 \<Rightarrow> nat \<Rightarrow> stop + u64" where
  "default_read r off width = with_block r off width (\<lambda>d. load_le d off width)"

definition default_write :: "region \<Rightarrow> u64 \<Rightarrow> u64 \<Rightarrow> nat \<Rightarrow> stop + region" where
  "default_write r off val width =
     with_block r off width (\<lambda>d. r\<lparr>rdata := Some (store_le d off val width)\<rparr>)"

section \<open>The region table\<close>

primrec mem_find_loop :: "u64 \<Rightarrow> u64 \<Rightarrow> nat \<Rightarrow> region list \<Rightarrow> stop + nat" where
  "mem_find_loop addr width i [] = Inl (Exit 1)"
| "mem_find_loop addr width i (r # rs) =
     (if base r \<le> addr \<and> addr + width \<le> base r + rsize r then Inr i
      else mem_find_loop addr width (Suc i) rs)"

definition mem_find_region :: "memory \<Rightarrow> u64 \<Rightarrow> u64 \<Rightarrow> stop + nat" where
  "mem_find_region mem addr width = mem_find_loop addr width 0 mem"

definition add_region :: "memory \<Rightarrow> u64 \<Rightarrow> u64 \<Rightarrow> (u64 \<Rightarrow> u8) option \<Rightarrow> handler \<Rightarrow> nat option \<times> memory" where
  "add_region mem b sz d h =
     (if MAX_REGIONS \<le> length mem then (None, mem)
      else (Some (length mem), mem @ [\<lparr>base = b, rsize = sz, rdata = d, rhandler = h\<rparr>]))"

text \<open>\<open>calloc_ok\<close> is the answer of the host allocator.\<close>

definition mem_add_region :: "bool \<Rightarrow> memory \<Rightarrow> u64 \<Rightarrow> u64 \<Rightarrow> nat option \<times> memory" where
  "mem_add_region calloc_ok mem b sz =
     (if \<not> calloc_ok then (None, mem) else add_region mem b sz (Some (\<lambda>_. 0)) DefaultHandler)"

definition mem_add_device :: "memory \<Rightarrow> u64 \<Rightarrow> u64 \<Rightarrow> handler \<Rightarrow> nat option \<times> memory" where
  "mem_add_device mem b sz h = add_region mem b sz None h"

section \<open>Block transfers\<close>

definition mem_read_buf :: "memory \<Rightarrow> u64 \<Rightarrow> nat \<Rightarrow> stop + u8 list" where
  "mem_read_buf mem addr len =
     andThen (mem_find_region mem addr (of_nat len)) (\<lambda>i.
       with_block (mem ! i) (addr - base (mem ! i)) len
         (\<lambda>d. load_bytes d (addr - base (mem ! i)) len))"

definition mem_write_buf :: "memory \<Rightarrow> u64 \<Rightarrow> u8 list \<Rightarrow> stop + memory" where
  "mem_write_buf mem addr src =
     andThen (mem_find_region mem addr (of_nat (length src))) (\<lambda>i.
       with_block (mem ! i) (addr - base (mem ! i)) (length src)
         (\<lambda>d. mem[i := (mem ! i)\<lparr>rdata := Some (store_bytes d (addr - base (mem ! i)) src)\<rparr>]))"

text \<open>The file system answers with the bytes of the file, or not at all when it cannot be opened.\<close>

definition mem_load_file :: "memory \<Rightarrow> u8 list option \<Rightarrow> u64 \<Rightarrow> stop + bool \<times> memory" where
  "mem_load_file mem file addr =
     (case file of
        None \<Rightarrow> Inr (False, mem)
      | Some bytes \<Rightarrow> andThen (mem_write_buf mem addr bytes) (\<lambda>mem. Inr (True, mem)))"

section \<open>Byte order: loads and stores\<close>

lemma unat_less_64: "unat (w :: u64) < 2 ^ 64"
  using unsigned_less [where 'a = nat, of w] by simp

lemma unat_diff_sum: "a \<noteq> (b :: u64) \<Longrightarrow> unat (a - b) + unat (b - a) = 2 ^ 64"
  using unat_less_64 [of a] unat_less_64 [of b]
  by (auto simp: unat_sub_if_size word_size word_unat_eq_iff)

lemma bit_load_le:
  "bit (load_le d a n) k \<longleftrightarrow> k < 8 * n \<and> k < 64 \<and> bit (d (a + of_nat (k div 8))) (k mod 8)"
proof (induction n arbitrary: a k)
  case 0
  then show ?case by simp
next
  case (Suc n)
  show ?case
  proof (cases "k < 8")
    case True
    then show ?thesis by (auto simp: bit_simps)
  next
    case False
    have "bit (d a) k \<Longrightarrow> k < 8" by (drule bit_imp_le_length) simp
    moreover have "(k - 8) div 8 = k div 8 - 1" "(k - 8) mod 8 = k mod 8" "1 \<le> k div 8"
      using False by (auto simp: le_div_geq le_mod_geq)
    moreover have "k - 8 < 8 * n \<longleftrightarrow> k < 8 * Suc n" "k - 8 < 64 \<longleftrightarrow> k < 72"
      using False by auto
    ultimately show ?thesis
      using False Suc.IH [of "a + 1" "k - 8"]
      by (auto simp: bit_simps of_nat_diff algebra_simps)
  qed
qed

lemma store_le_other: "n \<le> unat (b - a) \<Longrightarrow> store_le d a v n b = d b"
proof (induction n arbitrary: d a v)
  case 0
  then show ?case by simp
next
  case (Suc n)
  have "b \<noteq> a" using Suc.prems by auto
  then show ?case using Suc by (simp add: word_plus_one_diff)
qed

lemma store_le_byte:
  "i < n \<Longrightarrow> n < 2 ^ 64 \<Longrightarrow> store_le d a v n (a + of_nat i) = ucast (drop_bit (8 * i) v)"
proof (induction n arbitrary: d a v i)
  case 0
  then show ?case by simp
next
  case (Suc n)
  show ?case
  proof (cases i)
    case 0
    have "n \<le> unat (a - (a + 1))"
      using Suc.prems by (simp add: unsigned_minus_1_eq_mask mask_eq_exp_minus_1)
    then show ?thesis using 0 by (simp add: store_le_other)
  next
    case (Suc j)
    then have "store_le (d(a := ucast v)) (a + 1) (drop_bit 8 v) n (a + 1 + of_nat j)
        = ucast (drop_bit (8 * j) (drop_bit 8 v))"
      using Suc.prems by (intro Suc.IH) simp_all
    then show ?thesis using Suc by (simp add: ac_simps)
  qed
qed

lemma load_store_same:
  assumes "n \<le> 8"
  shows "load_le (store_le d a v n) a n = take_bit (8 * n) v"
proof (rule bit_word_eqI)
  fix k
  assume "k < LENGTH(64)"
  have "k < 8 * n \<Longrightarrow> k div 8 < n" by (simp add: less_mult_imp_div_less mult.commute)
  then show "bit (load_le (store_le d a v n) a n) k = bit (take_bit (8 * n) v) k"
    using assms \<open>k < LENGTH(64)\<close>
    by (auto simp: bit_load_le store_le_byte bit_simps mult.commute)
qed

definition apart :: "u64 \<Rightarrow> nat \<Rightarrow> u64 \<Rightarrow> nat \<Rightarrow> bool" where
  "apart a n b k \<longleftrightarrow> n \<le> unat (b - a) \<and> k \<le> unat (a - b)"

lemma load_le_cong:
  "(\<And>i. i < n \<Longrightarrow> d (a + of_nat i) = d' (a + of_nat i)) \<Longrightarrow> load_le d a n = load_le d' a n"
proof (induction n arbitrary: a)
  case 0
  then show ?case by simp
next
  case (Suc n)
  have "d (a + 1 + of_nat i) = d' (a + 1 + of_nat i)" if "i < n" for i
    using Suc.prems [of "Suc i"] that by (simp add: algebra_simps)
  from Suc.IH [OF this] Suc.prems [of 0] show ?case by simp
qed

lemma apart_bytes:
  assumes "apart a n b k" "i < k" 
  shows "n \<le> unat (b + of_nat i - a)"
proof -
  have i: "unat (of_nat i :: u64) = i"
    using assms unat_less_64 [of "a - b"] by (simp add: apart_def unat_of_nat)
  have "b \<noteq> a" using assms by (auto simp: apart_def)
  then have "unat (b - a) + unat (a - b) = 2 ^ 64"
    by (simp add: unat_diff_sum)
  then have "unat (b - a) + unat (of_nat i :: u64) < 2 ^ LENGTH(64)"
    using assms i by (simp add: apart_def)
  from unat_le_of_no_wrap [OF this] i show ?thesis
    using assms by (simp add: apart_def algebra_simps)
qed

lemma load_store_apart:
  "apart a n b k \<Longrightarrow> load_le (store_le d a v n) b k = load_le d b k"
  by (rule load_le_cong) (simp add: store_le_other apart_bytes)

section \<open>RAM as an interface\<close>

text \<open>
  What every client of the memory relies on (the page walker when it updates an entry, the
  atomic instructions, the rings of the block device): a read after a write of the same bytes
  gives the written value cut to the width, a read elsewhere is not affected.
\<close>

locale word_memory =
  fixes rd :: "'m \<Rightarrow> u64 \<Rightarrow> nat \<Rightarrow> u64" and wr :: "'m \<Rightarrow> u64 \<Rightarrow> u64 \<Rightarrow> nat \<Rightarrow> 'm"
  assumes rd_wr_same: "n \<le> 8 \<Longrightarrow> rd (wr m a v n) a n = take_bit (8 * n) v"
    and rd_wr_apart: "apart a n b k \<Longrightarrow> rd (wr m a v n) b k = rd m b k"
begin

lemma last_write_wins: "n \<le> 8 \<Longrightarrow> rd (wr (wr m a v n) a w n) a n = take_bit (8 * n) w"
  by (rule rd_wr_same)

lemma write_survives:
  "n \<le> 8 \<Longrightarrow> apart b k a n \<Longrightarrow> rd (wr (wr m a v n) b w k) a n = take_bit (8 * n) v"
  by (simp add: rd_wr_apart rd_wr_same)

lemma read_modify_write:
  "n \<le> 8 \<Longrightarrow> rd (wr m a (f (rd m a n)) n) a n = take_bit (8 * n) (f (rd m a n))"
  by (rule rd_wr_same)

end

interpretation ram: word_memory load_le "\<lambda>d a v n. store_le d a v n"
  by unfold_locales (simp_all add: load_store_same load_store_apart)

lemma apart_sym: "apart a n b k \<longleftrightarrow> apart b k a n"
  by (auto simp: apart_def)

lemma length_load_bytes [simp]: "length (load_bytes d a n) = n"
  by (induction d a n rule: load_bytes.induct) simp_all

lemma store_bytes_other: "length bs \<le> unat (b - a) \<Longrightarrow> store_bytes d a bs b = d b"
proof (induction bs arbitrary: d a)
  case (Cons c bs)
  then have "b \<noteq> a" by auto
  with Cons show ?case by (simp add: word_plus_one_diff)
qed simp

lemma load_bytes_cong:
  "(\<And>i. i < n \<Longrightarrow> d (a + of_nat i) = d' (a + of_nat i)) \<Longrightarrow> load_bytes d a n = load_bytes d' a n"
proof (induction n arbitrary: a)
  case (Suc n)
  have "d (a + 1 + of_nat i) = d' (a + 1 + of_nat i)" if "i < n" for i
    using Suc.prems [of "Suc i"] that by (simp add: algebra_simps)
  from Suc.IH [OF this] Suc.prems [of 0] show ?case by simp
qed simp

lemma load_store_bytes: "length bs < 2 ^ 64 \<Longrightarrow> load_bytes (store_bytes d a bs) a (length bs) = bs"
proof (induction bs arbitrary: d a)
  case (Cons c bs)
  then have "length bs \<le> unat (a - (a + 1))"
    by (simp add: unsigned_minus_1_eq_mask mask_eq_exp_minus_1)
  with Cons show ?case by (simp add: store_bytes_other)
qed simp

section \<open>The bounds check\<close>

definition matches :: "u64 \<Rightarrow> u64 \<Rightarrow> region \<Rightarrow> bool" where
  "matches addr width r \<longleftrightarrow> base r \<le> addr \<and> addr + width \<le> base r + rsize r"

lemma mem_find_loop_Inr:
  "mem_find_loop a w k rs = Inr i \<longleftrightarrow>
     k \<le> i \<and> i - k < length rs \<and> matches a w (rs ! (i - k)) \<and> (\<forall>j < i - k. \<not> matches a w (rs ! j))"
proof (induction rs arbitrary: k)
  case Nil
  then show ?case by simp
next
  case (Cons r rs)
  show ?case
  proof (cases "matches a w r")
    case True
    then have "\<exists>j < i - k. matches a w ((r # rs) ! j)" if "k < i"
      using that by (intro exI [of _ 0]) simp
    with True show ?thesis
      by (cases "k < i") (auto simp: matches_def [symmetric] mem_find_loop.simps)
  next
    case False
    then have "mem_find_loop a w k (r # rs) = mem_find_loop a w (Suc k) rs"
      by (auto simp: matches_def)
    also have "\<dots> = Inr i \<longleftrightarrow> Suc k \<le> i \<and> i - Suc k < length rs \<and> matches a w (rs ! (i - Suc k))
        \<and> (\<forall>j < i - Suc k. \<not> matches a w (rs ! j))"
      by (rule Cons.IH)
    also have "\<dots> \<longleftrightarrow> k \<le> i \<and> i - k < length (r # rs) \<and> matches a w ((r # rs) ! (i - k))
        \<and> (\<forall>j < i - k. \<not> matches a w ((r # rs) ! j))"
    proof (cases "Suc k \<le> i")
      case True
      then have "i - k = Suc (i - Suc k)" by simp
      with False True show ?thesis by (auto simp: less_Suc_eq_0_disj)
    next
      case nle: False
      with False show ?thesis by auto
    qed
    finally show ?thesis .
  qed
qed

lemma mem_find_region_Inr:
  "mem_find_region mem a w = Inr i \<longleftrightarrow>
     i < length mem \<and> matches a w (mem ! i) \<and> (\<forall>j < i. \<not> matches a w (mem ! j))"
  by (simp add: mem_find_region_def mem_find_loop_Inr)

lemma mem_find_loop_Inl: "mem_find_loop a w k rs = Inl e \<longleftrightarrow> e = Exit 1 \<and> (\<forall>r \<in> set rs. \<not> matches a w r)"
  by (induction rs arbitrary: k) (auto simp: matches_def)

lemma mem_find_region_Inl:
  "mem_find_region mem a w = Inl e \<longleftrightarrow> e = Exit 1 \<and> (\<forall>r \<in> set mem. \<not> matches a w r)"
  by (simp add: mem_find_region_def mem_find_loop_Inl)

text \<open>A region that does not reach the end of the address space.\<close>

definition region_fits :: "region \<Rightarrow> bool" where
  "region_fits r \<longleftrightarrow> unat (base r) + unat (rsize r) < 2 ^ 64"

text \<open>The access does not wrap around the end of the address space.\<close>

definition no_wrap :: "u64 \<Rightarrow> nat \<Rightarrow> bool" where
  "no_wrap a n \<longleftrightarrow> unat a + n < 2 ^ 64"

lemma matches_in_bounds:
  assumes "region_fits r" "no_wrap a n"
  shows "matches a (of_nat n) r \<longleftrightarrow> base r \<le> a \<and> unat (a - base r) + n \<le> unat (rsize r)"
proof -
  have n: "unat (of_nat n :: u64) = n"
    using assms(2) by (simp add: no_wrap_def unat_of_nat)
  have "unat (a + of_nat n) = unat a + n"
    using assms(2) n by (simp add: no_wrap_def unat_le_of_no_wrap)
  moreover have "unat (base r + rsize r) = unat (base r) + unat (rsize r)"
    using assms(1) by (simp add: region_fits_def unat_le_of_no_wrap)
  ultimately show ?thesis
    by (auto simp: matches_def word_le_nat_alt unat_sub)
qed

text \<open>C29: The bounds check protects the host from every access that does not wrap: if the
  table's regions end below the top of the address space, an access is either inside the
  region the search returns, so that its block is never left, or the emulator exits with
  status 1 because no region holds it.\<close>

theorem mem_find_region_sound:
  assumes "\<forall>r \<in> set mem. region_fits r" and "no_wrap a n"
  shows "case mem_find_region mem a (of_nat n) of
           Inr i \<Rightarrow> i < length mem \<and> base (mem ! i) \<le> a \<and> unat (a - base (mem ! i)) + n \<le> unat (rsize (mem ! i))
         | Inl e \<Rightarrow> e = Exit 1 \<and> (\<forall>r \<in> set mem. \<not> (base r \<le> a \<and> unat (a - base r) + n \<le> unat (rsize r)))"
proof (cases "mem_find_region mem a (of_nat n)")
  case (Inl e)
  then have "e = Exit 1 \<and> (\<forall>r \<in> set mem. \<not> (base r \<le> a \<and> unat (a - base r) + n \<le> unat (rsize r)))"
    using assms by (simp add: mem_find_region_Inl matches_in_bounds)
  with Inl show ?thesis by simp
next
  case (Inr i)
  then have "i < length mem" "matches a (of_nat n) (mem ! i)"
    by (simp_all add: mem_find_region_Inr)
  moreover from this assms(1) have "region_fits (mem ! i)" by simp
  ultimately show ?thesis
    using Inr assms(2) by (simp add: matches_in_bounds)
qed

definition ram_256M :: region where
  "ram_256M = \<lparr>base = 0x80000000, rsize = 0x10000000, rdata = Some (\<lambda>_. 0), rhandler = DefaultHandler\<rparr>"

theorem mem_find_region_sound_witness:
  "mem_find_region [ram_256M] 0x8FFFFFF8 8 = Inr 0 \<and> unat (0x8FFFFFF8 - base ram_256M) + 8 \<le> unat (rsize ram_256M)"
proof -
  have "\<forall>r \<in> set [ram_256M]. region_fits r" and "no_wrap 0x8FFFFFF8 8"
    by (simp_all add: region_fits_def ram_256M_def no_wrap_def)
  from mem_find_region_sound [OF this] show ?thesis
    by (simp add: mem_find_region_def ram_256M_def)
qed

text \<open>The bounds check does not protect the host from an access that wraps: an access that
  ends exactly at the top of the address space passes the check of the first region that
  starts at or below it, and the RAM handler then leaves its block.\<close>

theorem mem_find_region_wraps:
  assumes "0 < n" and "n \<le> 8" and "base r \<le> - of_nat n" and "region_fits r" and "rdata r \<noteq> None"
  shows "mem_find_region (r # mem) (- of_nat n) (of_nat n) = Inr 0 \<and>
         default_read r (- of_nat n - base r) n = Inl (Undefined OutOfBounds)"
proof -
  have n: "unat (of_nat n :: u64) = n" "(of_nat n :: u64) \<noteq> 0"
    using assms(1,2) by (auto simp: unat_of_nat word_unat_eq_iff)
  have top: "unat (- of_nat n :: u64) + n = 2 ^ 64"
    using unat_diff_sum [of 0 "of_nat n"] n by simp
  have "unat (- of_nat n - base r) + n = 2 ^ 64 - unat (base r)"
    using assms(3) top by (simp add: unat_sub word_le_nat_alt)
  then have "unat (rsize r) < unat (- of_nat n - base r) + n"
    using assms(4) by (simp add: region_fits_def)
  then show ?thesis
    using assms by (auto simp: mem_find_region_def default_read_def with_block_def)
qed

theorem mem_find_region_wraps_witness:
  "mem_find_region [ram_256M] (- 8) 8 = Inr 0 \<and>
   default_read ram_256M (- 8 - base ram_256M) 8 = Inl (Undefined OutOfBounds)"
  using mem_find_region_wraps [of 8 ram_256M "[]"]
  by (simp add: ram_256M_def region_fits_def)

end
