(* ===== verification/Machine.thy ===== *)
theory Machine
  imports Plic Memory
begin

text \<open>
  The whole state of the emulator: the processor, the memory, and the static variables of
  every device file, together with the parts of the host that the emulator reads and writes
  (the terminal, the disk image).  Every operation of the later theories is a function on
  this record.
\<close>

section \<open>Serial port and terminal (src/uart.c)\<close>

record uart =
  lcr :: u8
  ier :: u8
  mcr :: u8
  scr :: u8
  dll :: u8
  dlh :: u8
  rx_buf :: u8
  rx_ready :: bool
  thre_ip :: bool

text \<open>
  Each poll of the non-blocking standard input takes one answer from \<open>stdin_answers\<close>: a byte,
  or no data.  When the list is used up no more data arrives.  \<open>stdout_bytes\<close> is everything
  written to the standard output, oldest first.
\<close>

record console =
  stdin_answers :: "u8 option list"
  stdout_bytes :: "u8 list"

definition putchar :: "console \<Rightarrow> u8 \<Rightarrow> console" where
  "putchar con ch = con\<lparr>stdout_bytes := stdout_bytes con @ [ch]\<rparr>"

section \<open>Virtio transport (include/virtio.h)\<close>

record virtq_ring =
  ring_base :: u64
  ring_size :: u16
  cursor :: u16

record virtqueue =
  desc_base :: u64
  avail :: virtq_ring
  used :: virtq_ring
  ready :: bool

record virtq_desc =
  d_addr :: u64
  d_len :: u32
  d_flags :: u16
  d_next :: u16

text \<open>The device behind a slot: the program has one kind, the block device.\<close>

datatype virtio_device = BlockDevice

record virtio_slot =
  dev :: virtio_device
  vq :: virtqueue
  status :: u32
  device_features_sel :: u32
  driver_features_sel :: u32
  queue_sel :: u32
  interrupt_status :: u32
  slot_irq :: u32

definition empty_ring :: virtq_ring where
  "empty_ring = \<lparr>ring_base = 0, ring_size = 0, cursor = 0\<rparr>"

definition empty_queue :: virtqueue where
  "empty_queue = \<lparr>desc_base = 0, avail = empty_ring, used = empty_ring, ready = False\<rparr>"

section \<open>Disk image (src/virtio_blk.c)\<close>

text \<open>
  The disk file is its bytes and its length.  \<open>disk_answers\<close> holds what the operating system
  answers to the next transfers: all of it, a short transfer of at most so many bytes (but at
  least one), or an error; when the list is used up every transfer is complete.
\<close>

datatype io_answer = IoFull | IoShort nat | IoError

record blk =
  disk_bytes :: "nat \<Rightarrow> u8"
  disk_length :: nat
  disk_answers :: "io_answer list"
  disk_capacity :: u64

section \<open>The machine\<close>

datatype irq_source = UartSource | ClintSource

record machine =
  m_cpu :: cpu
  m_mem :: memory
  m_clint :: clint
  m_plic :: plic
  m_uart :: uart
  m_con :: console
  m_slots :: "nat \<Rightarrow> virtio_slot"
  m_slot_count :: nat
  m_blk :: blk
  m_reservation :: u64
  m_sources :: "irq_source list"

definition m_plic_set_pending :: "machine \<Rightarrow> u32 \<Rightarrow> machine" where
  "m_plic_set_pending m irq =
     (let (p, c) = plic_set_pending (m_plic m) (m_cpu m) irq in m\<lparr>m_plic := p, m_cpu := c\<rparr>)"

section \<open>What no access through the bus changes\<close>

text \<open>The shape of the region table: everything but the contents of the RAM blocks.\<close>

definition region_shape :: "region \<Rightarrow> u64 \<times> u64 \<times> bool \<times> handler" where
  "region_shape r = (base r, rsize r, rdata r \<noteq> None, rhandler r)"

definition layout :: "machine \<Rightarrow> (u64 \<times> u64 \<times> bool \<times> handler) list" where
  "layout m = map region_shape (m_mem m)"

definition bus_keep :: "machine \<Rightarrow> cpu \<times> u64 \<times> irq_source list \<times> (u64 \<times> u64 \<times> bool \<times> handler) list" where
  "bus_keep m = (beside_mip (m_cpu m), m_reservation m, m_sources m, layout m)"

text \<open>The interrupt line of the controller agrees with its registers.\<close>

definition line_ok :: "machine \<Rightarrow> bool" where
  "line_ok m \<longleftrightarrow> seip_ok (m_plic m) (m_cpu m)"

lemma m_plic_set_pending_frame [simp]:
  "m_mem (m_plic_set_pending m irq) = m_mem m" "m_clint (m_plic_set_pending m irq) = m_clint m"
  "m_uart (m_plic_set_pending m irq) = m_uart m" "m_con (m_plic_set_pending m irq) = m_con m"
  "m_slots (m_plic_set_pending m irq) = m_slots m" "m_blk (m_plic_set_pending m irq) = m_blk m"
  "m_slot_count (m_plic_set_pending m irq) = m_slot_count m"
  "m_reservation (m_plic_set_pending m irq) = m_reservation m"
  "m_sources (m_plic_set_pending m irq) = m_sources m"
  "beside_mip (m_cpu (m_plic_set_pending m irq)) = beside_mip (m_cpu m)"
  "layout (m_plic_set_pending m irq) = layout m"
  "bus_keep (m_plic_set_pending m irq) = bus_keep m"
  by (simp_all add: m_plic_set_pending_def case_prod_unfold Let_def layout_def bus_keep_def frames)

lemma line_ok_set_pending [simp]: "line_ok m \<Longrightarrow> line_ok (m_plic_set_pending m irq)"
  using seip_ok_set_pending [of "m_plic m" "m_cpu m" irq]
  by (simp add: line_ok_def m_plic_set_pending_def case_prod_unfold Let_def)

lemma line_ok_cong: "m_plic m' = m_plic m \<Longrightarrow> m_cpu m' = m_cpu m \<Longrightarrow> line_ok m' = line_ok m"
  by (simp add: line_ok_def)

lemma bus_keep_simps [simp]:
  "bus_keep (m\<lparr>m_uart := u\<rparr>) = bus_keep m" "bus_keep (m\<lparr>m_con := con\<rparr>) = bus_keep m"
  "bus_keep (m\<lparr>m_clint := cl\<rparr>) = bus_keep m" "bus_keep (m\<lparr>m_plic := p\<rparr>) = bus_keep m"
  "bus_keep (m\<lparr>m_slots := s\<rparr>) = bus_keep m" "bus_keep (m\<lparr>m_blk := b\<rparr>) = bus_keep m"
  "beside_mip c = beside_mip (m_cpu m) \<Longrightarrow> bus_keep (m\<lparr>m_cpu := c\<rparr>) = bus_keep m"
  by (simp_all add: bus_keep_def layout_def)

lemma line_ok_simps [simp]:
  "line_ok (m\<lparr>m_uart := u\<rparr>) = line_ok m" "line_ok (m\<lparr>m_con := con\<rparr>) = line_ok m"
  "line_ok (m\<lparr>m_clint := cl\<rparr>) = line_ok m" "line_ok (m\<lparr>m_slots := s\<rparr>) = line_ok m"
  "line_ok (m\<lparr>m_blk := b\<rparr>) = line_ok m" "line_ok (m\<lparr>m_mem := mem\<rparr>) = line_ok m"
  "line_ok (m\<lparr>m_reservation := r\<rparr>) = line_ok m"
  by (simp_all add: line_ok_def)

lemma bus_keep_cpu:
  assumes "bus_keep m' = bus_keep m"
  shows "regs (m_cpu m') = regs (m_cpu m)" "fregs (m_cpu m') = fregs (m_cpu m)"
    "pc (m_cpu m') = pc (m_cpu m)" "privilege (m_cpu m') = privilege (m_cpu m)"
    "halted (m_cpu m') = halted (m_cpu m)" "steps (m_cpu m') = steps (m_cpu m)"
    "csrs (m_cpu m') CSR_SATP = csrs (m_cpu m) CSR_SATP"
    "csrs (m_cpu m') CSR_MSTATUS = csrs (m_cpu m) CSR_MSTATUS"
    "csrs (m_cpu m') CSR_MEDELEG = csrs (m_cpu m) CSR_MEDELEG"
    "csrs (m_cpu m') CSR_STVEC = csrs (m_cpu m) CSR_STVEC"
    "m_reservation m' = m_reservation m" "m_sources m' = m_sources m" "layout m' = layout m"
proof -
  have b: "beside_mip (m_cpu m') = beside_mip (m_cpu m)"
    using assms by (simp add: bus_keep_def)
  note [simp] = beside_mip_frame [OF b]
  show "regs (m_cpu m') = regs (m_cpu m)" "fregs (m_cpu m') = fregs (m_cpu m)"
    "pc (m_cpu m') = pc (m_cpu m)" "privilege (m_cpu m') = privilege (m_cpu m)"
    "halted (m_cpu m') = halted (m_cpu m)" "steps (m_cpu m') = steps (m_cpu m)"
    "csrs (m_cpu m') CSR_SATP = csrs (m_cpu m) CSR_SATP"
    "csrs (m_cpu m') CSR_MSTATUS = csrs (m_cpu m) CSR_MSTATUS"
    "csrs (m_cpu m') CSR_MEDELEG = csrs (m_cpu m) CSR_MEDELEG"
    "csrs (m_cpu m') CSR_STVEC = csrs (m_cpu m) CSR_STVEC" by simp_all
  show "m_reservation m' = m_reservation m" "m_sources m' = m_sources m" "layout m' = layout m"
    using assms by (simp_all add: bus_keep_def)
qed

text \<open>
  What every access through the bus, by the processor or by a device, does to the rest of the
  machine: it keeps the processor but for the pending interrupts, the reservation, the list of
  interrupt sources and the memory map, and it keeps the interrupt line consistent.
\<close>

definition bus_step :: "machine \<Rightarrow> machine \<Rightarrow> bool" where
  "bus_step m m' \<longleftrightarrow> bus_keep m' = bus_keep m \<and> (line_ok m \<longrightarrow> line_ok m')"

interpretation bst: state_relation bus_step
  by unfold_locales (auto simp: bus_step_def)

lemma bus_step_refl [simp]: "bus_step m m"
  by (simp add: bus_step_def)

lemma gives_bus_step:
  "okR (\<lambda>(_, m'). bus_keep m' = bus_keep m) x \<Longrightarrow> (line_ok m \<Longrightarrow> okR (\<lambda>(_, m'). line_ok m') x) \<Longrightarrow>
   gives bus_step m x"
  by (cases x) (auto simp: bus_step_def gives_def)

lemma moves_bus_step:
  "okR (\<lambda>m'. bus_keep m' = bus_keep m) x \<Longrightarrow> (line_ok m \<Longrightarrow> okR line_ok x) \<Longrightarrow> moves bus_step m x"
  by (cases x) (auto simp: bus_step_def moves_def)

end
