(* ===== verification/Uart.thy ===== *)
theory Uart
  imports Machine
begin

text \<open>
  The NS16550 serial port of \<^verbatim>\<open>src/uart.c\<close>: polling the terminal, the register file with the
  divisor latch, and the two interrupt conditions.  Setting the terminal to raw mode
  (\<^verbatim>\<open>uart_init\<close>, \<^verbatim>\<open>uart_restore\<close>) is host configuration and is not modelled; the registration
  of the device is in \<open>Boot\<close>.
\<close>

abbreviation (input) UART_THR :: u64 where "UART_THR \<equiv> 0"
abbreviation (input) UART_RBR :: u64 where "UART_RBR \<equiv> 0"
abbreviation (input) UART_IER :: u64 where "UART_IER \<equiv> 1"
abbreviation (input) UART_IIR :: u64 where "UART_IIR \<equiv> 2"
abbreviation (input) UART_FCR :: u64 where "UART_FCR \<equiv> 2"
abbreviation (input) UART_LCR :: u64 where "UART_LCR \<equiv> 3"
abbreviation (input) UART_MCR :: u64 where "UART_MCR \<equiv> 4"
abbreviation (input) UART_LSR :: u64 where "UART_LSR \<equiv> 5"
abbreviation (input) UART_MSR :: u64 where "UART_MSR \<equiv> 6"
abbreviation (input) UART_SCR :: u64 where "UART_SCR \<equiv> 7"
abbreviation (input) UART_LSR_RX_READY :: u64 where "UART_LSR_RX_READY \<equiv> 0x01"
abbreviation (input) UART_LSR_TX_READY :: u64 where "UART_LSR_TX_READY \<equiv> 0x60"
abbreviation (input) UART_IIR_NO_INT :: u64 where "UART_IIR_NO_INT \<equiv> 0xC1"
abbreviation (input) UART_IIR_THRE :: u64 where "UART_IIR_THRE \<equiv> 0xC2"
abbreviation (input) UART_IIR_RDA :: u64 where "UART_IIR_RDA \<equiv> 0xC4"
abbreviation (input) IER_RDA_ENABLE :: u8 where "IER_RDA_ENABLE \<equiv> 0x01"
abbreviation (input) IER_THRE_ENABLE :: u8 where "IER_THRE_ENABLE \<equiv> 0x02"
abbreviation (input) UART_LCR_DLAB :: u8 where "UART_LCR_DLAB \<equiv> 0x80"
abbreviation (input) UART_MSR_READY :: u64 where "UART_MSR_READY \<equiv> 0xB0"

definition uart_poll_rx :: "machine \<Rightarrow> stop + machine" where
  "uart_poll_rx m =
     (if rx_ready (m_uart m) then Inr m
      else (case stdin_answers (m_con m) of
          [] \<Rightarrow> Inr m
        | answer # answers \<Rightarrow>
            (let m = m\<lparr>m_con := (m_con m)\<lparr>stdin_answers := answers\<rparr>\<rparr>
             in case answer of
                  None \<Rightarrow> Inr m
                | Some ch \<Rightarrow>
                    (if ch = 0x1C then Inl (Exit 0)
                     else (let m = m\<lparr>m_uart := (m_uart m)\<lparr>rx_buf := ch, rx_ready := True\<rparr>\<rparr>
                           in Inr (if ier (m_uart m) AND IER_RDA_ENABLE \<noteq> 0
                                   then m_plic_set_pending m PLIC_IRQ_UART else m))))))"

definition uart_irq_source :: "machine \<Rightarrow> stop + machine" where
  "uart_irq_source m = (if steps (m_cpu m) AND 0x3FF \<noteq> 0 then Inr m else uart_poll_rx m)"

definition uart_read_rbr :: "machine \<Rightarrow> u64 \<times> machine" where
  "uart_read_rbr m =
     (if lcr (m_uart m) AND UART_LCR_DLAB \<noteq> 0 then (ucast (dll (m_uart m)), m)
      else if \<not> rx_ready (m_uart m) then (0, m)
      else (ucast (rx_buf (m_uart m)), m\<lparr>m_uart := (m_uart m)\<lparr>rx_ready := False\<rparr>\<rparr>))"

definition uart_read_iir :: "machine \<Rightarrow> u64 \<times> machine" where
  "uart_read_iir m =
     (if rx_ready (m_uart m) \<and> ier (m_uart m) AND IER_RDA_ENABLE \<noteq> 0 then (UART_IIR_RDA, m)
      else if thre_ip (m_uart m) \<and> ier (m_uart m) AND IER_THRE_ENABLE \<noteq> 0
      then (UART_IIR_THRE, m\<lparr>m_uart := (m_uart m)\<lparr>thre_ip := False\<rparr>\<rparr>)
      else (UART_IIR_NO_INT, m))"

definition uart_read :: "machine \<Rightarrow> u64 \<Rightarrow> stop + u64 \<times> machine" where
  "uart_read m off =
     (let u = m_uart m in
      if off = UART_RBR then Inr (uart_read_rbr m)
      else if off = UART_IER then Inr (ucast (if lcr u AND UART_LCR_DLAB \<noteq> 0 then dlh u else ier u), m)
      else if off = UART_IIR then andThen (uart_poll_rx m) (\<lambda>m. Inr (uart_read_iir m))
      else if off = UART_LCR then Inr (ucast (lcr u), m)
      else if off = UART_MCR then Inr (ucast (mcr u), m)
      else if off = UART_LSR then
        andThen (uart_poll_rx m)
          (\<lambda>m. Inr (UART_LSR_TX_READY OR (if rx_ready (m_uart m) then UART_LSR_RX_READY else 0), m))
      else if off = UART_MSR then Inr (UART_MSR_READY, m)
      else if off = UART_SCR then Inr (ucast (scr u), m)
      else Inr (0, m))"

definition uart_write_thr :: "machine \<Rightarrow> u8 \<Rightarrow> machine" where
  "uart_write_thr m v =
     (if lcr (m_uart m) AND UART_LCR_DLAB \<noteq> 0 then m\<lparr>m_uart := (m_uart m)\<lparr>dll := v\<rparr>\<rparr>
      else
        (let m = m\<lparr>m_con := putchar (m_con m) v\<rparr>;
             m = m\<lparr>m_uart := (m_uart m)\<lparr>thre_ip := True\<rparr>\<rparr>
         in if ier (m_uart m) AND IER_THRE_ENABLE \<noteq> 0 then m_plic_set_pending m PLIC_IRQ_UART else m))"

definition uart_write_ier :: "machine \<Rightarrow> u8 \<Rightarrow> machine" where
  "uart_write_ier m v =
     (if lcr (m_uart m) AND UART_LCR_DLAB \<noteq> 0 then m\<lparr>m_uart := (m_uart m)\<lparr>dlh := v\<rparr>\<rparr>
      else
        (let m = m\<lparr>m_uart := (m_uart m)\<lparr>ier := v\<rparr>\<rparr>
         in if v AND IER_THRE_ENABLE \<noteq> 0 then
              m_plic_set_pending (m\<lparr>m_uart := (m_uart m)\<lparr>thre_ip := True\<rparr>\<rparr>) PLIC_IRQ_UART
            else if v AND IER_RDA_ENABLE \<noteq> 0 \<and> rx_ready (m_uart m) then
              m_plic_set_pending m PLIC_IRQ_UART
            else m))"

definition uart_write :: "machine \<Rightarrow> u64 \<Rightarrow> u64 \<Rightarrow> machine" where
  "uart_write m off val =
     (let v = ucast (val AND 0xFF) in
      if off = UART_THR then uart_write_thr m v
      else if off = UART_IER then uart_write_ier m v
      else if off = UART_FCR then m
      else if off = UART_LCR then m\<lparr>m_uart := (m_uart m)\<lparr>lcr := v\<rparr>\<rparr>
      else if off = UART_MCR then m\<lparr>m_uart := (m_uart m)\<lparr>mcr := v\<rparr>\<rparr>
      else if off = UART_SCR then m\<lparr>m_uart := (m_uart m)\<lparr>scr := v\<rparr>\<rparr>
      else m)"

section \<open>Frames\<close>

lemma uart_poll_rx_keep [frames]: "okR (\<lambda>m'. bus_keep m' = bus_keep m) (uart_poll_rx m)"
  by (simp add: uart_poll_rx_def Let_def split: list.split option.split)

lemma uart_poll_rx_line: "line_ok m \<Longrightarrow> okR line_ok (uart_poll_rx m)"
  by (simp add: uart_poll_rx_def Let_def split: list.split option.split)

lemma uart_read_iir_frame [simp]:
  "bus_keep (snd (uart_read_iir m)) = bus_keep m" "line_ok (snd (uart_read_iir m)) = line_ok m"
  by (simp_all add: uart_read_iir_def)

lemma uart_read_rbr_frame [simp]:
  "bus_keep (snd (uart_read_rbr m)) = bus_keep m" "line_ok (snd (uart_read_rbr m)) = line_ok m"
  by (simp_all add: uart_read_rbr_def)

lemma uart_read_keep [frames]: "okR (\<lambda>(_, m'). bus_keep m' = bus_keep m) (uart_read m off)"
  using uart_poll_rx_keep [of m] by (simp add: uart_read_def Let_def case_prod_unfold)

lemma uart_read_line: "line_ok m \<Longrightarrow> okR (\<lambda>(_, m'). line_ok m') (uart_read m off)"
  using uart_poll_rx_line [of m] by (simp add: uart_read_def Let_def case_prod_unfold)

lemma uart_write_keep [frames]: "bus_keep (uart_write m off v) = bus_keep m"
  by (simp add: uart_write_def uart_write_thr_def uart_write_ier_def Let_def)

lemma uart_write_line: "line_ok m \<Longrightarrow> line_ok (uart_write m off v)"
  by (simp add: uart_write_def uart_write_thr_def uart_write_ier_def Let_def)

lemma uart_irq_source_keep [frames]: "okR (\<lambda>m'. bus_keep m' = bus_keep m) (uart_irq_source m)"
  by (simp add: uart_irq_source_def frames)

lemma uart_irq_source_line: "line_ok m \<Longrightarrow> okR line_ok (uart_irq_source m)"
  by (simp add: uart_irq_source_def uart_poll_rx_line)

interpretation uart_dev: mmio_device uart_read "\<lambda>m off v. Inr (uart_write m off v)" line_ok bus_keep
  by unfold_locales (simp_all add: uart_read_line uart_write_line frames)

lemma uart_flag_tests:
  fixes v :: u8
  shows "v AND 0x80 = 0 \<longleftrightarrow> \<not> bit v 7" "v AND 2 = 0 \<longleftrightarrow> \<not> bit v 1" "v AND 1 = 0 \<longleftrightarrow> \<not> bit v 0"
  using and_exp_eq_0_iff_not_bit [of v 7] and_exp_eq_0_iff_not_bit [of v 1] and_exp_eq_0_iff_not_bit [of v 0]
  by simp_all

lemma bit_255_int [bit_facts]: "bit (255 :: int) n \<longleftrightarrow> n < 8"
proof -
  have "(255 :: int) = mask 8" by (simp add: mask_eq_exp_minus_1)
  then show ?thesis by (simp only: bit_mask_iff) simp
qed

lemma ucast_low_byte: "(ucast (v AND 0xFF :: u64) :: u8) = ucast v"
  by (rule bit_word_eqI) (auto simp: bit_simps bit_facts)

section \<open>The byte streams\<close>

text \<open>Input the guest has not consumed yet: the receive buffer, then what the terminal still holds.\<close>

definition pending_input :: "machine \<Rightarrow> u8 list" where
  "pending_input m = (if rx_ready (m_uart m) then [rx_buf (m_uart m)] else [])
     @ List.map_filter id (stdin_answers (m_con m))"

definition uart_streams :: "machine \<Rightarrow> u8 list \<times> u8 list" where
  "uart_streams m = (pending_input m, stdout_bytes (m_con m))"

lemma uart_streams_frame [simp]:
  "uart_streams (m_plic_set_pending m irq) = uart_streams m"
  "uart_streams (m\<lparr>m_uart := (m_uart m)\<lparr>thre_ip := b\<rparr>\<rparr>) = uart_streams m"
  "uart_streams (m\<lparr>m_uart := (m_uart m)\<lparr>dll := v\<rparr>\<rparr>) = uart_streams m"
  "uart_streams (m\<lparr>m_uart := (m_uart m)\<lparr>dlh := v\<rparr>\<rparr>) = uart_streams m"
  "uart_streams (m\<lparr>m_uart := (m_uart m)\<lparr>ier := v\<rparr>\<rparr>) = uart_streams m"
  "uart_streams (m\<lparr>m_uart := (m_uart m)\<lparr>lcr := v\<rparr>\<rparr>) = uart_streams m"
  "uart_streams (m\<lparr>m_uart := (m_uart m)\<lparr>mcr := v\<rparr>\<rparr>) = uart_streams m"
  "uart_streams (m\<lparr>m_uart := (m_uart m)\<lparr>scr := v\<rparr>\<rparr>) = uart_streams m"
  by (simp_all add: uart_streams_def pending_input_def)

lemma uart_poll_rx_streams: "okR (\<lambda>m'. uart_streams m' = uart_streams m \<and> lcr (m_uart m') = lcr (m_uart m)) (uart_poll_rx m)"
  by (auto simp: uart_poll_rx_def Let_def uart_streams_def pending_input_def List.map_filter_simps
      split: list.split option.split)

lemma uart_read_iir_streams:
  "pending_input (snd (uart_read_iir m)) = pending_input m"
  "stdout_bytes (m_con (snd (uart_read_iir m))) = stdout_bytes (m_con m)"
  by (simp_all add: uart_read_iir_def pending_input_def)

text \<open>C33: The serial port is a pair of byte queues. No read of any register loses, duplicates or
  reorders input: only a read of the receive buffer while data is ready (and the divisor latch
  is closed) consumes, and it returns exactly the oldest pending byte. A write puts exactly the
  bytes written to the transmit register on the terminal, in order, and consumes no input;
  neither does the periodic poll.\<close>

theorem uart_byte_queues:
  "okR (\<lambda>(v, m'). stdout_bytes (m_con m') = stdout_bytes (m_con m) \<and>
          pending_input m = (if off = UART_RBR \<and> \<not> bit (lcr (m_uart m)) 7 \<and> rx_ready (m_uart m)
                             then [ucast v] else []) @ pending_input m')
       (uart_read m off) \<and>
   pending_input (uart_write m off val) = pending_input m \<and>
   stdout_bytes (m_con (uart_write m off val)) = stdout_bytes (m_con m)
       @ (if off = UART_THR \<and> \<not> bit (lcr (m_uart m)) 7 then [ucast val] else []) \<and>
   okR (\<lambda>m'. pending_input m' = pending_input m \<and> stdout_bytes (m_con m') = stdout_bytes (m_con m))
       (uart_irq_source m)"
proof (intro conjI)
  have poll: "okR (\<lambda>m'. pending_input m' = pending_input m \<and> stdout_bytes (m_con m') = stdout_bytes (m_con m)) (uart_poll_rx m)"
    using uart_poll_rx_streams by (rule okR_mono) (simp add: uart_streams_def)
  show "okR (\<lambda>(v, m'). stdout_bytes (m_con m') = stdout_bytes (m_con m) \<and>
          pending_input m = (if off = UART_RBR \<and> \<not> bit (lcr (m_uart m)) 7 \<and> rx_ready (m_uart m)
                             then [ucast v] else []) @ pending_input m') (uart_read m off)"
  proof (cases "off = UART_RBR")
    case True
    then show ?thesis
      by (simp add: uart_read_def Let_def uart_read_rbr_def uart_flag_tests pending_input_def)
  next
    case False
    with poll show ?thesis
      by (cases "uart_poll_rx m") (auto simp: uart_read_def Let_def uart_read_iir_streams case_prod_unfold)
  qed
  show "pending_input (uart_write m off val) = pending_input m"
    using uart_streams_frame by (simp add: uart_write_def uart_write_thr_def uart_write_ier_def Let_def pending_input_def putchar_def)
  show "stdout_bytes (m_con (uart_write m off val)) = stdout_bytes (m_con m)
       @ (if off = UART_THR \<and> \<not> bit (lcr (m_uart m)) 7 then [ucast val] else [])"
    by (simp add: uart_write_def uart_write_thr_def uart_write_ier_def Let_def putchar_def uart_flag_tests ucast_low_byte)
  show "okR (\<lambda>m'. pending_input m' = pending_input m \<and> stdout_bytes (m_con m') = stdout_bytes (m_con m)) (uart_irq_source m)"
    using poll by (simp add: uart_irq_source_def)
qed

text \<open>C34: Interrupt identification. A read of the identification register reports received data
  first, then an empty transmitter, each only when enabled; an empty-transmitter report clears
  the condition, so the next read does not report it again.\<close>

theorem uart_iir_reports:
  "okR (\<lambda>(v, m'). v = (if rx_ready (m_uart m') \<and> bit (ier (m_uart m')) 0 then UART_IIR_RDA
                       else if thre_ip (m_uart m) \<and> bit (ier (m_uart m)) 1 then UART_IIR_THRE
                       else UART_IIR_NO_INT)
        \<and> (thre_ip (m_uart m') \<longleftrightarrow> thre_ip (m_uart m) \<and> v \<noteq> UART_IIR_THRE))
     (uart_read m UART_IIR)"
proof -
  have "okR (\<lambda>m'. thre_ip (m_uart m') = thre_ip (m_uart m) \<and> ier (m_uart m') = ier (m_uart m)) (uart_poll_rx m)"
    by (simp add: uart_poll_rx_def Let_def split: list.split option.split)
  then show ?thesis
    by (cases "uart_poll_rx m") (auto simp: uart_read_def Let_def uart_read_iir_def uart_flag_tests)
qed

end
