(* ===== verification/Virtio.thy ===== *)
theory Virtio
  imports Uart
begin

text \<open>
  The virtio-mmio transport of \<^verbatim>\<open>src/virtio.c\<close>: the register window of one slot.  The
  device callbacks of \<^verbatim>\<open>VirtioDevice\<close> are the configuration read, which needs the disk
  capacity alone, and the notification, which is an argument of the write handler:
  \<^verbatim>\<open>s->dev->notify\<close> is a function pointer that reaches back into the bus, and \<open>Virtio_Blk\<close>
  ties the knot.
\<close>

abbreviation (input) VIRTIO_MAGIC :: u64 where "VIRTIO_MAGIC \<equiv> 0x74726976"
abbreviation (input) VIRTIO_VENDOR_ID :: u64 where "VIRTIO_VENDOR_ID \<equiv> 0x554D4551"
abbreviation (input) VIRTIO_VER :: u64 where "VIRTIO_VER \<equiv> 2"
abbreviation (input) VIRTQUEUE_MAX_SIZE :: u64 where "VIRTQUEUE_MAX_SIZE \<equiv> 128"
abbreviation (input) VIRTIO_IRQ :: u32 where "VIRTIO_IRQ \<equiv> 2"
abbreviation (input) MAX_VIRTIO_DEVICES :: nat where "MAX_VIRTIO_DEVICES \<equiv> 8"
abbreviation (input) VIRTIO_MMIO_BASE :: u64 where "VIRTIO_MMIO_BASE \<equiv> 0x10001000"
abbreviation (input) VIRTIO_MMIO_SIZE :: u64 where "VIRTIO_MMIO_SIZE \<equiv> 0x1000"

abbreviation (input) VIRTIO_MMIO_MAGIC_OFF :: u64 where "VIRTIO_MMIO_MAGIC_OFF \<equiv> 0x000"
abbreviation (input) VIRTIO_MMIO_VERSION_OFF :: u64 where "VIRTIO_MMIO_VERSION_OFF \<equiv> 0x004"
abbreviation (input) VIRTIO_MMIO_DEVICE_ID_OFF :: u64 where "VIRTIO_MMIO_DEVICE_ID_OFF \<equiv> 0x008"
abbreviation (input) VIRTIO_MMIO_VENDOR_ID_OFF :: u64 where "VIRTIO_MMIO_VENDOR_ID_OFF \<equiv> 0x00C"
abbreviation (input) VIRTIO_MMIO_DEVICE_FEATURES_OFF :: u64 where "VIRTIO_MMIO_DEVICE_FEATURES_OFF \<equiv> 0x010"
abbreviation (input) VIRTIO_MMIO_DEVICE_FEATURES_SEL_OFF :: u64 where "VIRTIO_MMIO_DEVICE_FEATURES_SEL_OFF \<equiv> 0x014"
abbreviation (input) VIRTIO_MMIO_DRIVER_FEATURES_OFF :: u64 where "VIRTIO_MMIO_DRIVER_FEATURES_OFF \<equiv> 0x020"
abbreviation (input) VIRTIO_MMIO_DRIVER_FEATURES_SEL_OFF :: u64 where "VIRTIO_MMIO_DRIVER_FEATURES_SEL_OFF \<equiv> 0x024"
abbreviation (input) VIRTIO_MMIO_QUEUE_SEL_OFF :: u64 where "VIRTIO_MMIO_QUEUE_SEL_OFF \<equiv> 0x030"
abbreviation (input) VIRTIO_MMIO_QUEUE_NUM_MAX_OFF :: u64 where "VIRTIO_MMIO_QUEUE_NUM_MAX_OFF \<equiv> 0x034"
abbreviation (input) VIRTIO_MMIO_QUEUE_NUM_OFF :: u64 where "VIRTIO_MMIO_QUEUE_NUM_OFF \<equiv> 0x038"
abbreviation (input) VIRTIO_MMIO_QUEUE_READY_OFF :: u64 where "VIRTIO_MMIO_QUEUE_READY_OFF \<equiv> 0x044"
abbreviation (input) VIRTIO_MMIO_QUEUE_NOTIFY_OFF :: u64 where "VIRTIO_MMIO_QUEUE_NOTIFY_OFF \<equiv> 0x050"
abbreviation (input) VIRTIO_MMIO_INTERRUPT_STATUS_OFF :: u64 where "VIRTIO_MMIO_INTERRUPT_STATUS_OFF \<equiv> 0x060"
abbreviation (input) VIRTIO_MMIO_INTERRUPT_ACK_OFF :: u64 where "VIRTIO_MMIO_INTERRUPT_ACK_OFF \<equiv> 0x064"
abbreviation (input) VIRTIO_MMIO_STATUS_OFF :: u64 where "VIRTIO_MMIO_STATUS_OFF \<equiv> 0x070"
abbreviation (input) VIRTIO_MMIO_QUEUE_DESC_LOW_OFF :: u64 where "VIRTIO_MMIO_QUEUE_DESC_LOW_OFF \<equiv> 0x080"
abbreviation (input) VIRTIO_MMIO_QUEUE_DESC_HIGH_OFF :: u64 where "VIRTIO_MMIO_QUEUE_DESC_HIGH_OFF \<equiv> 0x084"
abbreviation (input) VIRTIO_MMIO_QUEUE_DRIVER_LOW_OFF :: u64 where "VIRTIO_MMIO_QUEUE_DRIVER_LOW_OFF \<equiv> 0x090"
abbreviation (input) VIRTIO_MMIO_QUEUE_DRIVER_HIGH_OFF :: u64 where "VIRTIO_MMIO_QUEUE_DRIVER_HIGH_OFF \<equiv> 0x094"
abbreviation (input) VIRTIO_MMIO_QUEUE_DEVICE_LOW_OFF :: u64 where "VIRTIO_MMIO_QUEUE_DEVICE_LOW_OFF \<equiv> 0x0A0"
abbreviation (input) VIRTIO_MMIO_QUEUE_DEVICE_HIGH_OFF :: u64 where "VIRTIO_MMIO_QUEUE_DEVICE_HIGH_OFF \<equiv> 0x0A4"
abbreviation (input) VIRTIO_MMIO_CONFIG_OFF :: u64 where "VIRTIO_MMIO_CONFIG_OFF \<equiv> 0x100"

type_synonym notify_fn = "nat \<Rightarrow> machine \<Rightarrow> stop + machine"

definition device_id :: "virtio_device \<Rightarrow> u32" where
  "device_id d = (case d of BlockDevice \<Rightarrow> 2)"

definition blk_read_config :: "blk \<Rightarrow> u32 \<Rightarrow> u64" where
  "blk_read_config b off =
     (if off = 0 then ucast (ucast (disk_capacity b) :: u32)
      else if off = 4 then ucast (ucast (drop_bit 32 (disk_capacity b)) :: u32)
      else 0)"

definition virtio_read :: "machine \<Rightarrow> nat \<Rightarrow> u64 \<Rightarrow> u64" where
  "virtio_read m i off =
     (let s = m_slots m i in
      if off = VIRTIO_MMIO_MAGIC_OFF then VIRTIO_MAGIC
      else if off = VIRTIO_MMIO_VERSION_OFF then VIRTIO_VER
      else if off = VIRTIO_MMIO_DEVICE_ID_OFF then ucast (device_id (dev s))
      else if off = VIRTIO_MMIO_VENDOR_ID_OFF then VIRTIO_VENDOR_ID
      else if off = VIRTIO_MMIO_DEVICE_FEATURES_OFF then (if device_features_sel s = 1 then 1 else 0)
      else if off = VIRTIO_MMIO_QUEUE_NUM_MAX_OFF then VIRTQUEUE_MAX_SIZE
      else if off = VIRTIO_MMIO_QUEUE_READY_OFF then (if ready (vq s) then 1 else 0)
      else if off = VIRTIO_MMIO_INTERRUPT_STATUS_OFF then ucast (interrupt_status s)
      else if off = VIRTIO_MMIO_STATUS_OFF then ucast (status s)
      else if VIRTIO_MMIO_CONFIG_OFF \<le> off then blk_read_config (m_blk m) (ucast (off - VIRTIO_MMIO_CONFIG_OFF))
      else 0)"

definition set_addr_low :: "u64 \<Rightarrow> u64 \<Rightarrow> u64" where
  "set_addr_low addr val = (addr AND 0xFFFFFFFF00000000) OR ucast (ucast val :: u32)"

definition set_addr_high :: "u64 \<Rightarrow> u64 \<Rightarrow> u64" where
  "set_addr_high addr val = (addr AND 0xFFFFFFFF) OR push_bit 32 val"

definition virtio_set_queue_size :: "virtqueue \<Rightarrow> u32 \<Rightarrow> virtqueue" where
  "virtio_set_queue_size q val =
     q\<lparr>avail := (avail q)\<lparr>ring_size := ucast val\<rparr>, used := (used q)\<lparr>ring_size := ucast val\<rparr>\<rparr>"

definition upd_slot :: "machine \<Rightarrow> nat \<Rightarrow> virtio_slot \<Rightarrow> machine" where
  "upd_slot m i s = m\<lparr>m_slots := (m_slots m)(i := s)\<rparr>"

definition virtio_notify_guest :: "nat \<Rightarrow> machine \<Rightarrow> machine" where
  "virtio_notify_guest i m =
     (let s = m_slots m i;
          m = upd_slot m i (s\<lparr>interrupt_status := interrupt_status s OR 1\<rparr>)
      in m_plic_set_pending m (slot_irq s))"

definition virtio_write :: "notify_fn \<Rightarrow> machine \<Rightarrow> nat \<Rightarrow> u64 \<Rightarrow> u64 \<Rightarrow> stop + machine" where
  "virtio_write notify m i off val =
     (let s = m_slots m i; q = vq s in
      if off = VIRTIO_MMIO_DEVICE_FEATURES_SEL_OFF then Inr (upd_slot m i (s\<lparr>device_features_sel := ucast val\<rparr>))
      else if off = VIRTIO_MMIO_DRIVER_FEATURES_OFF then Inr m
      else if off = VIRTIO_MMIO_DRIVER_FEATURES_SEL_OFF then Inr (upd_slot m i (s\<lparr>driver_features_sel := ucast val\<rparr>))
      else if off = VIRTIO_MMIO_QUEUE_SEL_OFF then Inr (upd_slot m i (s\<lparr>queue_sel := ucast val\<rparr>))
      else if off = VIRTIO_MMIO_QUEUE_NUM_OFF then
        Inr (if queue_sel s = 0 then upd_slot m i (s\<lparr>vq := virtio_set_queue_size q (ucast val)\<rparr>) else m)
      else if off = VIRTIO_MMIO_QUEUE_READY_OFF then
        Inr (if queue_sel s = 0 then upd_slot m i (s\<lparr>vq := q\<lparr>ready := (val \<noteq> 0)\<rparr>\<rparr>) else m)
      else if off = VIRTIO_MMIO_QUEUE_NOTIFY_OFF then (if val = 0 then notify i m else Inr m)
      else if off = VIRTIO_MMIO_INTERRUPT_ACK_OFF then
        Inr (upd_slot m i (s\<lparr>interrupt_status := interrupt_status s AND NOT (ucast val)\<rparr>))
      else if off = VIRTIO_MMIO_STATUS_OFF then
        Inr (upd_slot m i (if val = 0 then s\<lparr>status := ucast val, vq := empty_queue, interrupt_status := 0\<rparr>
                           else s\<lparr>status := ucast val\<rparr>))
      else if off = VIRTIO_MMIO_QUEUE_DESC_LOW_OFF then Inr (upd_slot m i (s\<lparr>vq := q\<lparr>desc_base := set_addr_low (desc_base q) val\<rparr>\<rparr>))
      else if off = VIRTIO_MMIO_QUEUE_DESC_HIGH_OFF then Inr (upd_slot m i (s\<lparr>vq := q\<lparr>desc_base := set_addr_high (desc_base q) val\<rparr>\<rparr>))
      else if off = VIRTIO_MMIO_QUEUE_DRIVER_LOW_OFF then
        Inr (upd_slot m i (s\<lparr>vq := q\<lparr>avail := (avail q)\<lparr>ring_base := set_addr_low (ring_base (avail q)) val\<rparr>\<rparr>\<rparr>))
      else if off = VIRTIO_MMIO_QUEUE_DRIVER_HIGH_OFF then
        Inr (upd_slot m i (s\<lparr>vq := q\<lparr>avail := (avail q)\<lparr>ring_base := set_addr_high (ring_base (avail q)) val\<rparr>\<rparr>\<rparr>))
      else if off = VIRTIO_MMIO_QUEUE_DEVICE_LOW_OFF then
        Inr (upd_slot m i (s\<lparr>vq := q\<lparr>used := (used q)\<lparr>ring_base := set_addr_low (ring_base (used q)) val\<rparr>\<rparr>\<rparr>))
      else if off = VIRTIO_MMIO_QUEUE_DEVICE_HIGH_OFF then
        Inr (upd_slot m i (s\<lparr>vq := q\<lparr>used := (used q)\<lparr>ring_base := set_addr_high (ring_base (used q)) val\<rparr>\<rparr>\<rparr>))
      else Inr m)"

text \<open>Registering a device takes the next slot and maps its window; with all slots taken
  nothing happens.\<close>

definition virtio_init :: "machine \<Rightarrow> virtio_device \<Rightarrow> machine" where
  "virtio_init m d =
     (if MAX_VIRTIO_DEVICES \<le> m_slot_count m then m
      else
        (let idx = m_slot_count m;
             m = m\<lparr>m_slot_count := Suc idx\<rparr>;
             m = upd_slot m idx ((m_slots m idx)\<lparr>dev := d, slot_irq := VIRTIO_IRQ + of_nat idx\<rparr>)
         in m\<lparr>m_mem := snd (mem_add_device (m_mem m) (VIRTIO_MMIO_BASE + of_nat idx * VIRTIO_MMIO_SIZE)
                              VIRTIO_MMIO_SIZE (VirtioHandler idx))\<rparr>))"

section \<open>Frames\<close>

lemma upd_slot_frame [simp]:
  "bus_keep (upd_slot m i s) = bus_keep m" "line_ok (upd_slot m i s) = line_ok m"
  "m_mem (upd_slot m i s) = m_mem m" "m_slots (upd_slot m i s) = (m_slots m)(i := s)"
  "m_blk (upd_slot m i s) = m_blk m" "m_cpu (upd_slot m i s) = m_cpu m"
  "m_plic (upd_slot m i s) = m_plic m"
  by (simp_all add: upd_slot_def)

lemma virtio_notify_guest_frame [simp]:
  "bus_keep (virtio_notify_guest i m) = bus_keep m"
  "line_ok m \<Longrightarrow> line_ok (virtio_notify_guest i m)"
  by (simp_all add: virtio_notify_guest_def Let_def)

lemma virtio_write_keep:
  assumes "okR (\<lambda>m'. bus_keep m' = bus_keep m) (notify i m)"
  shows "okR (\<lambda>m'. bus_keep m' = bus_keep m) (virtio_write notify m i off v)"
  using assms by (simp add: virtio_write_def Let_def)

lemma virtio_write_line:
  assumes "line_ok m" "okR line_ok (notify i m)"
  shows "okR line_ok (virtio_write notify m i off v)"
  using assms by (simp add: virtio_write_def Let_def)

lemma bit_halves_int [bit_facts]:
  "bit (0xFFFFFFFF :: int) n \<longleftrightarrow> n < 32" "bit (0xFFFFFFFF00000000 :: int) n \<longleftrightarrow> 32 \<le> n \<and> n < 64"
proof -
  have "(0xFFFFFFFF :: int) = mask 32" "(0xFFFFFFFF00000000 :: int) = push_bit 32 (mask 32)"
    by (simp_all add: mask_eq_exp_minus_1 push_bit_eq_mult)
  then show "bit (0xFFFFFFFF :: int) n \<longleftrightarrow> n < 32" "bit (0xFFFFFFFF00000000 :: int) n \<longleftrightarrow> 32 \<le> n \<and> n < 64"
    by (simp_all only: bit_mask_iff bit_push_bit_iff) auto
qed

text \<open>
  The two halves of a queue address are independent: in either order, writing both registers
  sets the address to the two 32-bit values, whatever it was before.
\<close>

lemma set_addr_halves:
  "set_addr_high (set_addr_low a lo) hi = push_bit 32 hi OR ucast (ucast lo :: u32)"
  "set_addr_low (set_addr_high a hi) lo = push_bit 32 hi OR ucast (ucast lo :: u32)"
  unfolding set_addr_low_def set_addr_high_def
  by (rule bit_word_eqI; auto simp: bit_simps bit_facts)+

end
