(* ===== verification/Bus.thy ===== *)
theory Bus
  imports Virtio
begin

text \<open>
  The memory accesses of \<^verbatim>\<open>src/memory.c\<close> on the whole machine: find the region of the
  address and call its handler.  Reading can change the state (a claim, the receive buffer),
  so a read returns the new machine with the value.  Every write takes the notification
  callback of the block device, which only the virtio handler calls.
\<close>

definition region_read :: "machine \<Rightarrow> nat \<Rightarrow> u64 \<Rightarrow> nat \<Rightarrow> stop + u64 \<times> machine" where
  "region_read m i off width =
     (case rhandler (m_mem m ! i) of
        DefaultHandler \<Rightarrow> andThen (default_read (m_mem m ! i) off width) (\<lambda>v. Inr (v, m))
      | UartHandler \<Rightarrow> uart_read m off
      | PlicHandler \<Rightarrow>
          andThen (plic_read (m_plic m) (m_cpu m) off) (\<lambda>(v, p, c). Inr (v, m\<lparr>m_plic := p, m_cpu := c\<rparr>))
      | ClintHandler \<Rightarrow> Inr (clint_read (m_clint m) (m_cpu m) off, m)
      | VirtioHandler s \<Rightarrow> Inr (virtio_read m s off, m))"

definition region_write :: "notify_fn \<Rightarrow> machine \<Rightarrow> nat \<Rightarrow> u64 \<Rightarrow> u64 \<Rightarrow> nat \<Rightarrow> stop + machine" where
  "region_write notify m i off val width =
     (case rhandler (m_mem m ! i) of
        DefaultHandler \<Rightarrow>
          andThen (default_write (m_mem m ! i) off val width) (\<lambda>r. Inr (m\<lparr>m_mem := (m_mem m)[i := r]\<rparr>))
      | UartHandler \<Rightarrow> Inr (uart_write m off val)
      | PlicHandler \<Rightarrow>
          andThen (plic_write (m_plic m) (m_cpu m) off val) (\<lambda>(p, c). Inr (m\<lparr>m_plic := p, m_cpu := c\<rparr>))
      | ClintHandler \<Rightarrow> Inr (m\<lparr>m_clint := clint_write (m_clint m) off val\<rparr>)
      | VirtioHandler s \<Rightarrow> virtio_write notify m s off val)"

definition mem_read :: "machine \<Rightarrow> u64 \<Rightarrow> nat \<Rightarrow> stop + u64 \<times> machine" where
  "mem_read m addr width =
     andThen (mem_find_region (m_mem m) addr (of_nat width))
       (\<lambda>i. region_read m i (addr - base (m_mem m ! i)) width)"

definition mem_write :: "notify_fn \<Rightarrow> machine \<Rightarrow> u64 \<Rightarrow> u64 \<Rightarrow> nat \<Rightarrow> stop + machine" where
  "mem_write notify m addr val width =
     andThen (mem_find_region (m_mem m) addr (of_nat width))
       (\<lambda>i. region_write notify m i (addr - base (m_mem m ! i)) val width)"

definition mem_read8 :: "machine \<Rightarrow> u64 \<Rightarrow> stop + u8 \<times> machine" where
  "mem_read8 m addr = andThen (mem_read m addr 1) (\<lambda>(v, m). Inr (ucast v, m))"

definition mem_read16 :: "machine \<Rightarrow> u64 \<Rightarrow> stop + u16 \<times> machine" where
  "mem_read16 m addr = andThen (mem_read m addr 2) (\<lambda>(v, m). Inr (ucast v, m))"

definition mem_read32 :: "machine \<Rightarrow> u64 \<Rightarrow> stop + u32 \<times> machine" where
  "mem_read32 m addr = andThen (mem_read m addr 4) (\<lambda>(v, m). Inr (ucast v, m))"

definition mem_read64 :: "machine \<Rightarrow> u64 \<Rightarrow> stop + u64 \<times> machine" where
  "mem_read64 m addr = mem_read m addr 8"

definition mem_write8 :: "notify_fn \<Rightarrow> machine \<Rightarrow> u64 \<Rightarrow> u8 \<Rightarrow> stop + machine" where
  "mem_write8 notify m addr val = mem_write notify m addr (ucast val) 1"

definition mem_write16 :: "notify_fn \<Rightarrow> machine \<Rightarrow> u64 \<Rightarrow> u16 \<Rightarrow> stop + machine" where
  "mem_write16 notify m addr val = mem_write notify m addr (ucast val) 2"

definition mem_write32 :: "notify_fn \<Rightarrow> machine \<Rightarrow> u64 \<Rightarrow> u32 \<Rightarrow> stop + machine" where
  "mem_write32 notify m addr val = mem_write notify m addr (ucast val) 4"

definition mem_write64 :: "notify_fn \<Rightarrow> machine \<Rightarrow> u64 \<Rightarrow> u64 \<Rightarrow> stop + machine" where
  "mem_write64 notify m addr val = mem_write notify m addr val 8"

section \<open>Frames of reads\<close>

lemma default_read_frame: "okR (\<lambda>_. True) (default_read r off n)"
  by simp

lemma region_read_keep [frames]: "okR (\<lambda>(_, m'). bus_keep m' = bus_keep m) (region_read m i off n)"
  using uart_read_keep [of m off] plic_read_frame [of "m_cpu m" "m_plic m" off]
  by (auto simp: region_read_def Let_def case_prod_unfold bus_keep_def layout_def split: handler.split)

lemma region_read_line: "line_ok m \<Longrightarrow> okR (\<lambda>(_, m'). line_ok m') (region_read m i off n)"
  using uart_read_line [of m off] seip_ok_read [of "m_plic m" "m_cpu m" off]
  by (auto simp: region_read_def Let_def case_prod_unfold line_ok_def split: handler.split)

lemma mem_read_keep [frames]: "okR (\<lambda>(_, m'). bus_keep m' = bus_keep m) (mem_read m a n)"
  using region_read_keep by (simp add: mem_read_def)

lemma mem_read_line: "line_ok m \<Longrightarrow> okR (\<lambda>(_, m'). line_ok m') (mem_read m a n)"
  using region_read_line by (simp add: mem_read_def)

lemma mem_reads_keep [frames]:
  "okR (\<lambda>(_, m'). bus_keep m' = bus_keep m) (mem_read8 m a)"
  "okR (\<lambda>(_, m'). bus_keep m' = bus_keep m) (mem_read16 m a)"
  "okR (\<lambda>(_, m'). bus_keep m' = bus_keep m) (mem_read32 m a)"
  "okR (\<lambda>(_, m'). bus_keep m' = bus_keep m) (mem_read64 m a)"
  using mem_read_keep [of m a]
  by (simp_all add: mem_read8_def mem_read16_def mem_read32_def mem_read64_def case_prod_unfold)

lemma mem_reads_line:
  assumes "line_ok m"
  shows "okR (\<lambda>(_, m'). line_ok m') (mem_read8 m a)" "okR (\<lambda>(_, m'). line_ok m') (mem_read16 m a)"
    "okR (\<lambda>(_, m'). line_ok m') (mem_read32 m a)" "okR (\<lambda>(_, m'). line_ok m') (mem_read64 m a)"
  using mem_read_line [OF assms, of a]
  by (simp_all add: mem_read8_def mem_read16_def mem_read32_def mem_read64_def case_prod_unfold)

lemma mem_reads_steps [intro, simp]:
  "gives bus_step m (mem_read8 m a)" "gives bus_step m (mem_read16 m a)"
  "gives bus_step m (mem_read32 m a)" "gives bus_step m (mem_read64 m a)"
  by (rule gives_bus_step; simp add: mem_reads_keep mem_reads_line)+

section \<open>Frames of writes: the contract of the notification callback\<close>

text \<open>
  A write may run the callback of the block device.  What the rest of the machine needs from
  it: it keeps the processor (but for pending interrupts), the reservation and the shape of
  the memory, and the interrupt line stays consistent.
\<close>

locale notifier =
  fixes notify :: notify_fn
  assumes notify_steps: "moves bus_step m (notify i m)"
begin

lemma notify_keep: "okR (\<lambda>m'. bus_keep m' = bus_keep m) (notify i m)"
  and notify_line: "line_ok m \<Longrightarrow> okR line_ok (notify i m)"
  using notify_steps [of m i] by (auto simp: moves_def bus_step_def okR_iff)

lemma region_write_keep: "okR (\<lambda>m'. bus_keep m' = bus_keep m) (region_write notify m i off v n)"
proof -
  have "layout (m\<lparr>m_mem := (m_mem m)[i := r]\<rparr>) = layout m"
    if "region_shape r = region_shape (m_mem m ! i)" for r
    using that by (cases "i < length (m_mem m)") (auto simp: layout_def map_update list_update_same_conv list_update_beyond)
  then have "okR (\<lambda>r. layout (m\<lparr>m_mem := (m_mem m)[i := r]\<rparr>) = layout m) (default_write (m_mem m ! i) off v n)"
    by (simp add: default_write_def with_block_def region_shape_def split: option.split)
  then show ?thesis
    using plic_write_frame [of "m_cpu m" "m_plic m" off v] uart_write_keep [of m off v]
      virtio_write_keep [where m = m and notify = notify and off = off and v = v] notify_keep [where m = m]
    by (auto simp: region_write_def Let_def case_prod_unfold bus_keep_def layout_def split: handler.split)
qed

lemma region_write_line: "line_ok m \<Longrightarrow> okR line_ok (region_write notify m i off v n)"
  using uart_write_line [of m off v] seip_ok_write [of "m_plic m" "m_cpu m" off v]
    virtio_write_line [where m = m and notify = notify and off = off and v = v] notify_line [where m = m]
  by (auto simp: region_write_def Let_def case_prod_unfold line_ok_def split: handler.split)

lemma mem_write_keep: "okR (\<lambda>m'. bus_keep m' = bus_keep m) (mem_write notify m a v n)"
  using region_write_keep by (simp add: mem_write_def)

lemma mem_write_line: "line_ok m \<Longrightarrow> okR line_ok (mem_write notify m a v n)"
  using region_write_line by (simp add: mem_write_def)

lemma mem_writes_keep:
  "okR (\<lambda>m'. bus_keep m' = bus_keep m) (mem_write8 notify m a v8)"
  "okR (\<lambda>m'. bus_keep m' = bus_keep m) (mem_write16 notify m a v16)"
  "okR (\<lambda>m'. bus_keep m' = bus_keep m) (mem_write32 notify m a v32)"
  "okR (\<lambda>m'. bus_keep m' = bus_keep m) (mem_write64 notify m a v64)"
  by (simp_all add: mem_write8_def mem_write16_def mem_write32_def mem_write64_def mem_write_keep)

lemma mem_writes_line:
  assumes "line_ok m"
  shows "okR line_ok (mem_write8 notify m a v8)" "okR line_ok (mem_write16 notify m a v16)"
    "okR line_ok (mem_write32 notify m a v32)" "okR line_ok (mem_write64 notify m a v64)"
  using assms
  by (simp_all add: mem_write8_def mem_write16_def mem_write32_def mem_write64_def mem_write_line)

lemma mem_writes_steps [intro, simp]:
  "moves bus_step m (mem_write8 notify m a v8)" "moves bus_step m (mem_write16 notify m a v16)"
  "moves bus_step m (mem_write32 notify m a v32)" "moves bus_step m (mem_write64 notify m a v64)"
  by (rule moves_bus_step; simp add: mem_writes_keep mem_writes_line)+

end

section \<open>The search depends on the shape alone\<close>

lemma mem_find_loop_shape:
  "map region_shape rs = map region_shape rs' \<Longrightarrow> mem_find_loop a w i rs = mem_find_loop a w i rs'"
proof (induction rs arbitrary: rs' i)
  case Nil
  then show ?case by simp
next
  case (Cons r rs)
  then obtain r' rs'' where "rs' = r' # rs''" "region_shape r = region_shape r'"
    "map region_shape rs = map region_shape rs''"
    by (cases rs') auto
  moreover from this have "base r = base r'" "rsize r = rsize r'"
    by (simp_all add: region_shape_def)
  ultimately show ?case using Cons.IH [of rs''] by simp
qed

lemma mem_find_region_layout:
  "layout m' = layout m \<Longrightarrow> mem_find_region (m_mem m') a w = mem_find_region (m_mem m) a w"
  unfolding mem_find_region_def layout_def by (rule mem_find_loop_shape)

lemma layout_nth:
  assumes "layout m' = layout m" "i < length (m_mem m)"
  shows "region_shape (m_mem m' ! i) = region_shape (m_mem m ! i)"
proof -
  have "length (m_mem m') = length (m_mem m)"
    using arg_cong [OF assms(1), of length] by (simp add: layout_def)
  then show ?thesis
    using arg_cong [OF assms(1), of "\<lambda>l. l ! i"] assms(2) by (simp add: layout_def)
qed

section \<open>Accesses to RAM\<close>

text \<open>\<open>ram_at m a n i\<close>: the \<open>n\<close> bytes at \<open>a\<close> lie in the RAM block of region \<open>i\<close>.\<close>

definition ram_at :: "machine \<Rightarrow> u64 \<Rightarrow> nat \<Rightarrow> nat \<Rightarrow> bool" where
  "ram_at m a n i \<longleftrightarrow> mem_find_region (m_mem m) a (of_nat n) = Inr i \<and>
     rhandler (m_mem m ! i) = DefaultHandler \<and> rdata (m_mem m ! i) \<noteq> None \<and>
     unat (a - base (m_mem m ! i)) + n \<le> unat (rsize (m_mem m ! i))"

definition in_ram :: "machine \<Rightarrow> u64 \<Rightarrow> nat \<Rightarrow> bool" where
  "in_ram m a n \<longleftrightarrow> (case mem_find_region (m_mem m) a (of_nat n) of Inl _ \<Rightarrow> False | Inr i \<Rightarrow> ram_at m a n i)"

definition ram_value :: "machine \<Rightarrow> u64 \<Rightarrow> nat \<Rightarrow> u64" where
  "ram_value m a n = (case mem_find_region (m_mem m) a (of_nat n) of Inl _ \<Rightarrow> 0
     | Inr i \<Rightarrow> load_le (the (rdata (m_mem m ! i))) (a - base (m_mem m ! i)) n)"

definition ram_store :: "machine \<Rightarrow> u64 \<Rightarrow> u64 \<Rightarrow> nat \<Rightarrow> machine" where
  "ram_store m a v n = (case mem_find_region (m_mem m) a (of_nat n) of Inl _ \<Rightarrow> m
     | Inr i \<Rightarrow> m\<lparr>m_mem := (m_mem m)[i := (m_mem m ! i)\<lparr>rdata :=
                   Some (store_le (the (rdata (m_mem m ! i))) (a - base (m_mem m ! i)) v n)\<rparr>]\<rparr>)"

lemma in_ram_at: "in_ram m a n \<longleftrightarrow> (\<exists>i. ram_at m a n i)"
  by (auto simp: in_ram_def ram_at_def split: sum.split)

lemma mem_read_ram: "in_ram m a n \<Longrightarrow> mem_read m a n = Inr (ram_value m a n, m)"
  by (auto simp: in_ram_at ram_at_def mem_read_def region_read_def default_read_def with_block_def ram_value_def)

lemma mem_write_ram: "in_ram m a n \<Longrightarrow> mem_write notify m a v n = Inr (ram_store m a v n)"
  by (auto simp: in_ram_at ram_at_def mem_write_def region_write_def default_write_def with_block_def ram_store_def)

lemma layout_ram_store:
  assumes "in_ram m a n"
  shows "layout (ram_store m a v n) = layout m"
proof -
  from assms obtain i where i: "mem_find_region (m_mem m) a (of_nat n) = Inr i" "rdata (m_mem m ! i) \<noteq> None"
    by (auto simp: in_ram_at ram_at_def)
  then have "i < length (m_mem m)" by (simp add: mem_find_region_Inr)
  with i show ?thesis
    by (simp add: ram_store_def layout_def map_update region_shape_def list_update_same_conv)
qed

lemma ram_store_keep: "in_ram m a n \<Longrightarrow> bus_keep (ram_store m a v n) = bus_keep m"
  using layout_ram_store [of m a n v]
  by (auto simp: bus_keep_def) (auto simp: ram_store_def split: sum.split)

lemma in_ram_layout: "layout m' = layout m \<Longrightarrow> in_ram m' a n = in_ram m a n"
proof -
  assume l: "layout m' = layout m"
  have "ram_at m' a n i = ram_at m a n i" for i
  proof (cases "mem_find_region (m_mem m) a (of_nat n) = Inr i")
    case True
    then have "i < length (m_mem m)" by (simp add: mem_find_region_Inr)
    from layout_nth [OF l this] show ?thesis
      by (simp add: ram_at_def mem_find_region_layout [OF l] region_shape_def)
  qed (simp add: ram_at_def mem_find_region_layout [OF l])
  then show ?thesis by (simp add: in_ram_at)
qed

lemma ram_store_in_ram: "in_ram m a n \<Longrightarrow> in_ram (ram_store m a v n) b k = in_ram m b k"
  by (rule in_ram_layout) (rule layout_ram_store)

lemma ram_value_store_same:
  assumes "in_ram m a n" "n \<le> 8"
  shows "ram_value (ram_store m a v n) a n = take_bit (8 * n) v"
proof -
  from assms(1) obtain i where i: "mem_find_region (m_mem m) a (of_nat n) = Inr i"
    by (auto simp: in_ram_at ram_at_def)
  then have "i < length (m_mem m)" by (simp add: mem_find_region_Inr)
  moreover have "mem_find_region (m_mem (ram_store m a v n)) a (of_nat n) = Inr i"
    using i by (simp add: mem_find_region_layout [OF layout_ram_store [OF assms(1)]])
  ultimately show ?thesis
    using i assms(2) ram.rd_wr_same [of n]
    by (simp add: ram_value_def) (simp add: ram_store_def)
qed

lemma ram_value_store_apart:
  assumes "in_ram m a n" "apart a n b k"
  shows "ram_value (ram_store m a v n) b k = ram_value m b k"
proof (cases "mem_find_region (m_mem m) b (of_nat k)")
  case (Inl e)
  then show ?thesis
    by (simp add: ram_value_def mem_find_region_layout [OF layout_ram_store [OF assms(1)]])
next
  case (Inr j)
  from assms(1) obtain i where i: "mem_find_region (m_mem m) a (of_nat n) = Inr i"
    by (auto simp: in_ram_at ram_at_def)
  then have len: "i < length (m_mem m)" by (simp add: mem_find_region_Inr)
  have j: "mem_find_region (m_mem (ram_store m a v n)) b (of_nat k) = Inr j"
    using Inr by (simp add: mem_find_region_layout [OF layout_ram_store [OF assms(1)]])
  have "apart (a - base (m_mem m ! i)) n (b - base (m_mem m ! i)) k"
    using assms(2) by (simp add: apart_def)
  then show ?thesis
    using i len Inr j ram.rd_wr_apart
    by (cases "i = j") (simp_all add: ram_value_def, simp_all add: ram_store_def)
qed

text \<open>C5: Memory is coherent through the bus. A write to RAM of one, two, four or eight bytes
  returns; reading the same bytes gives the written value cut to the width; every RAM access
  that shares no byte with it, in the same region or another, reads what it read before; and
  the processor, the reservation and the memory map stay as they were.\<close>

theorem bus_ram_coherent:
  assumes "in_ram m a n" and "n \<le> 8" and "in_ram m b k" and "apart a n b k"
  shows "\<exists>m' v. mem_write notify m a w n = Inr m' \<and>
           mem_read m' a n = Inr (take_bit (8 * n) w, m') \<and>
           mem_read m b k = Inr (v, m) \<and> mem_read m' b k = Inr (v, m') \<and>
           bus_keep m' = bus_keep m"
  using assms
  by (simp add: mem_write_ram mem_read_ram ram_store_in_ram ram_value_store_same
      ram_value_store_apart ram_store_keep)

definition example_machine :: machine where
  "example_machine =
     \<lparr>m_cpu = cpu_zero, m_mem = [ram_256M], m_clint = \<lparr>mtimecmp = 0\<rparr>,
      m_plic = s_plic,
      m_uart = \<lparr>lcr = 0, ier = 0, mcr = 0, scr = 0, dll = 0, dlh = 0, rx_buf = 0, rx_ready = False, thre_ip = False\<rparr>,
      m_con = \<lparr>stdin_answers = [], stdout_bytes = []\<rparr>,
      m_slots = (\<lambda>_. \<lparr>dev = BlockDevice, vq = empty_queue, status = 0, device_features_sel = 0,
         driver_features_sel = 0, queue_sel = 0, interrupt_status = 0, slot_irq = 0\<rparr>),
      m_slot_count = 0, m_blk = \<lparr>disk_bytes = (\<lambda>_. 0), disk_length = 0, disk_answers = [], disk_capacity = 0\<rparr>,
      m_reservation = 0, m_sources = []\<rparr>"

theorem bus_ram_coherent_witness:
  "\<exists>m' v. mem_write (\<lambda>i m. Inr m) example_machine 0x80000000 7 4 = Inr m' \<and>
     mem_read m' 0x80000000 4 = Inr (take_bit 32 7, m') \<and>
     mem_read example_machine 0x80000004 8 = Inr (v, example_machine) \<and> mem_read m' 0x80000004 8 = Inr (v, m') \<and>
     bus_keep m' = bus_keep example_machine"
  using bus_ram_coherent [where m = example_machine and a = "0x80000000" and n = 4 and b = "0x80000004" and k = 8 and
    notify = "\<lambda>i m. Inr m" and w = 7]
  by (simp add: in_ram_def ram_at_def example_machine_def ram_256M_def mem_find_region_def apart_def)

section \<open>Safety of reads\<close>

definition layout_ok :: "machine \<Rightarrow> bool" where
  "layout_ok m \<longleftrightarrow> (\<forall>r \<in> set (m_mem m). region_fits r \<and> (rhandler r = DefaultHandler \<longrightarrow> rdata r \<noteq> None) \<and>
     (rhandler r = PlicHandler \<longrightarrow> rsize r \<le> 0x04000000))"

lemma uart_read_stops: "stops (\<lambda>e. e = Exit 0) (uart_read m off)"
proof -
  have "stops (\<lambda>e. e = Exit 0) (uart_poll_rx m)"
    by (simp add: uart_poll_rx_def Let_def split: list.split option.split)
  then show ?thesis
    by (auto simp: uart_read_def Let_def intro!: stops_bind)
qed

lemma mem_read_stops:
  assumes "layout_ok m" and "no_wrap a n"
  shows "stops (\<lambda>e. e = Exit 1 \<or> e = Exit 0) (mem_read m a n)"
proof (cases "mem_find_region (m_mem m) a (of_nat n)")
  case (Inl e)
  then have "e = Exit 1" by (simp add: mem_find_region_Inl)
  with Inl show ?thesis by (simp add: mem_read_def)
next
  case (Inr i)
  then have i: "i < length (m_mem m)" "matches a (of_nat n) (m_mem m ! i)"
    by (simp_all add: mem_find_region_Inr)
  then have r: "m_mem m ! i \<in> set (m_mem m)" by simp
  then have bounds: "unat (a - base (m_mem m ! i)) + n \<le> unat (rsize (m_mem m ! i))"
    using assms i by (simp add: layout_ok_def matches_in_bounds)
  moreover have "rhandler (m_mem m ! i) = DefaultHandler \<Longrightarrow> \<exists>d. rdata (m_mem m ! i) = Some d"
    using assms(1) r by (auto simp: layout_ok_def)
  moreover have "\<exists>v p c. plic_read (m_plic m) (m_cpu m) (a - base (m_mem m ! i)) = Inr (v, p, c)"
    if "rhandler (m_mem m ! i) = PlicHandler"
  proof -
    have "unat (rsize (m_mem m ! i)) \<le> 0x04000000" using assms(1) r that by (auto simp: layout_ok_def word_le_nat_alt)
    then have "a - base (m_mem m ! i) \<le> 0x04000000"
      using bounds by (simp add: word_le_nat_alt)
    from plic_defined(1) [OF this, of "m_plic m" "m_cpu m"] show ?thesis by (metis prod_cases3)
  qed
  ultimately show ?thesis
    using Inr stops_mono [OF uart_read_stops]
    by (auto simp: mem_read_def region_read_def default_read_def with_block_def Let_def case_prod_unfold
        split: handler.split)
qed

text \<open>C30: No read harms the host. On a memory map whose regions end below the top of the
  address space and whose RAM regions are backed, a read that does not wrap either returns or
  exits (status 1 for an unmapped address, status 0 for the exit key at the terminal); it
  never reaches undefined behaviour of the host.\<close>

theorem bus_read_safe:
  assumes "layout_ok m" and "no_wrap a n"
  shows "stops (\<lambda>e. e = Exit 1 \<or> e = Exit 0) (mem_read m a n)"
  using assms by (rule mem_read_stops)

theorem bus_read_safe_witness:
  "stops (\<lambda>e. e = Exit 1 \<or> e = Exit 0) (mem_read example_machine 0x8FFFFFFF 4)"
  using bus_read_safe [where m = example_machine and a = "0x8FFFFFFF" and n = 4]
  by (simp add: layout_ok_def example_machine_def ram_256M_def region_fits_def no_wrap_def)

end
