(* ===== verification/Virtio_Blk.thy ===== *)
theory Virtio_Blk
  imports Bus
begin

text \<open>
  The block device: the virtqueue operations of \<^verbatim>\<open>src/virtio.c\<close> (descriptors and rings in
  guest memory) and \<^verbatim>\<open>src/virtio_blk.c\<close>.  The rings are named by the slot and a selector, as
  the code passes pointers into the slot and reads them again after every access: a ring laid
  over a device window can change them.  The notification calls the bus, whose virtio handler
  calls the notification; \<open>blk_notify\<close> ties this knot with a bound on the nesting, and its
  loops take the same bound.
\<close>

abbreviation (input) VIRTQ_DESC_SIZE :: u64 where "VIRTQ_DESC_SIZE \<equiv> 16"
abbreviation (input) RING_IDX_OFF :: u64 where "RING_IDX_OFF \<equiv> 2"
abbreviation (input) RING_ENTRIES_OFF :: u64 where "RING_ENTRIES_OFF \<equiv> 4"
abbreviation (input) AVAIL_ENTRY_SIZE :: u64 where "AVAIL_ENTRY_SIZE \<equiv> 2"
abbreviation (input) USED_ENTRY_SIZE :: u64 where "USED_ENTRY_SIZE \<equiv> 8"
abbreviation (input) SECTOR_SIZE :: nat where "SECTOR_SIZE \<equiv> 512"
abbreviation (input) DEFAULT_DISK_SIZE :: nat where "DEFAULT_DISK_SIZE \<equiv> 64 * 1024 * 1024"
abbreviation (input) VIRTIO_BLK_T_IN :: u32 where "VIRTIO_BLK_T_IN \<equiv> 0"
abbreviation (input) VIRTIO_BLK_T_OUT :: u32 where "VIRTIO_BLK_T_OUT \<equiv> 1"
abbreviation (input) VIRTIO_BLK_T_GET_ID :: u32 where "VIRTIO_BLK_T_GET_ID \<equiv> 8"
abbreviation (input) VIRTIO_BLK_S_OK :: u8 where "VIRTIO_BLK_S_OK \<equiv> 0"
abbreviation (input) VIRTIO_BLK_S_IOERR :: u8 where "VIRTIO_BLK_S_IOERR \<equiv> 1"

section \<open>Descriptors and rings\<close>

text \<open>C leaves the order of the four reads open; the model takes the order of the source.\<close>

definition vq_desc_read :: "machine \<Rightarrow> u64 \<Rightarrow> u16 \<Rightarrow> stop + virtq_desc \<times> machine" where
  "vq_desc_read m dbase index =
     (let b = dbase + ucast index * VIRTQ_DESC_SIZE in
      andThen (mem_read64 m b) (\<lambda>(addr, m).
      andThen (mem_read32 m (b + 8)) (\<lambda>(len, m).
      andThen (mem_read16 m (b + 12)) (\<lambda>(flags, m).
      andThen (mem_read16 m (b + 14)) (\<lambda>(nxt, m).
        Inr (\<lparr>d_addr = addr, d_len = len, d_flags = flags, d_next = nxt\<rparr>, m))))))"

text \<open>\<open>u16\<close> arithmetic: a division by zero stops the host.\<close>

definition mod16 :: "u16 \<Rightarrow> u16 \<Rightarrow> stop + u16" where
  "mod16 a b = (if b = 0 then Inl (Undefined DivisionByZero) else Inr (a mod b))"

definition vq_ring_has_next :: "machine \<Rightarrow> nat \<Rightarrow> stop + bool \<times> machine" where
  "vq_ring_has_next m i =
     andThen (mem_read16 m (ring_base (avail (vq (m_slots m i))) + RING_IDX_OFF)) (\<lambda>(guest_idx, m).
       Inr (cursor (avail (vq (m_slots m i))) \<noteq> guest_idx, m))"

definition vq_ring_next :: "machine \<Rightarrow> nat \<Rightarrow> stop + u16 \<times> machine" where
  "vq_ring_next m i =
     (let s = m_slots m i; q = vq s; ring = avail q in
      andThen (mod16 (cursor ring) (ring_size ring)) (\<lambda>slot.
      (let addr = ring_base ring + RING_ENTRIES_OFF + ucast slot * AVAIL_ENTRY_SIZE;
           m = upd_slot m i (s\<lparr>vq := q\<lparr>avail := ring\<lparr>cursor := cursor ring + 1\<rparr>\<rparr>\<rparr>)
       in mem_read16 m addr)))"

definition vq_ring_post :: "notify_fn \<Rightarrow> machine \<Rightarrow> nat \<Rightarrow> u16 \<Rightarrow> u32 \<Rightarrow> stop + machine" where
  "vq_ring_post notify m i ident len =
     andThen (mem_read16 m (ring_base (used (vq (m_slots m i))) + RING_IDX_OFF)) (\<lambda>(idx, m).
     andThen (mod16 idx (ring_size (used (vq (m_slots m i))))) (\<lambda>slot.
     (let entry = ring_base (used (vq (m_slots m i))) + RING_ENTRIES_OFF + ucast slot * USED_ENTRY_SIZE in
      andThen (mem_write32 notify m entry (ucast ident)) (\<lambda>m.
      andThen (mem_write32 notify m (entry + 4) len) (\<lambda>m.
        mem_write16 notify m (ring_base (used (vq (m_slots m i))) + RING_IDX_OFF) (idx + 1))))))"

section \<open>The disk file\<close>

text \<open>
  \<^verbatim>\<open>pread\<close> and \<^verbatim>\<open>pwrite\<close> on the image: a negative offset, or a range past the largest offset,
  is an error; a read stops at the end of the file; a write extends it.
\<close>

definition io_count :: "io_answer \<Rightarrow> nat \<Rightarrow> nat" where
  "io_count ans n = (case ans of IoFull \<Rightarrow> n | IoShort k \<Rightarrow> min (max 1 k) n | IoError \<Rightarrow> 0)"

definition next_answer :: "blk \<Rightarrow> io_answer \<times> blk" where
  "next_answer b = (case disk_answers b of [] \<Rightarrow> (IoFull, b) | a # as \<Rightarrow> (a, b\<lparr>disk_answers := as\<rparr>))"

definition offset_bad :: "u64 \<Rightarrow> nat \<Rightarrow> bool" where
  "offset_bad off n \<longleftrightarrow> 2 ^ 63 \<le> unat off + n"

definition disk_slice :: "blk \<Rightarrow> nat \<Rightarrow> nat \<Rightarrow> u8 list" where
  "disk_slice b off n = map (\<lambda>k. disk_bytes b (off + k)) [0..<n]"

definition disk_store :: "blk \<Rightarrow> nat \<Rightarrow> u8 list \<Rightarrow> blk" where
  "disk_store b off bs =
     b\<lparr>disk_bytes := (\<lambda>k. if off \<le> k \<and> k < off + length bs then bs ! (k - off)
                          else if disk_length b \<le> k then 0 else disk_bytes b k),
       disk_length := max (disk_length b) (off + length bs)\<rparr>"

definition disk_pread :: "blk \<Rightarrow> u64 \<Rightarrow> nat \<Rightarrow> u8 list option \<times> blk" where
  "disk_pread b off n =
     (let (ans, b) = next_answer b in
      if offset_bad off n \<or> ans = IoError then (None, b)
      else (Some (disk_slice b (unat off) (io_count ans (min n (disk_length b - unat off)))), b))"

definition disk_pwrite :: "blk \<Rightarrow> u64 \<Rightarrow> u8 list \<Rightarrow> nat option \<times> blk" where
  "disk_pwrite b off bs =
     (let (ans, b) = next_answer b; k = io_count ans (length bs) in
      if offset_bad off (length bs) \<or> ans = IoError then (None, b)
      else (Some k, disk_store b (unat off) (take k bs)))"

section \<open>Transfers\<close>

fun blk_do_read :: "nat \<Rightarrow> machine \<Rightarrow> u64 \<Rightarrow> u64 \<Rightarrow> u32 \<Rightarrow> stop + u8 \<times> machine" where
  "blk_do_read fuel m offset dst len =
     (if len = 0 then Inr (VIRTIO_BLK_S_OK, m)
      else case fuel of
        0 \<Rightarrow> Inl OutOfFuel
      | Suc k \<Rightarrow>
          (let chunk = if len < of_nat SECTOR_SIZE then unat len else SECTOR_SIZE;
               (answer, b) = disk_pread (m_blk m) offset chunk;
               m = m\<lparr>m_blk := b\<rparr>
           in case answer of
                None \<Rightarrow> Inr (VIRTIO_BLK_S_IOERR, m)
              | Some buf \<Rightarrow>
                  andThen (mem_write_buf (m_mem m) dst buf) (\<lambda>mem.
                    blk_do_read k (m\<lparr>m_mem := mem\<rparr>) (offset + of_nat (length buf))
                      (dst + of_nat (length buf)) (len - of_nat (length buf)))))"

fun blk_do_write :: "nat \<Rightarrow> machine \<Rightarrow> u64 \<Rightarrow> u64 \<Rightarrow> u32 \<Rightarrow> stop + u8 \<times> machine" where
  "blk_do_write fuel m offset src len =
     (if len = 0 then Inr (VIRTIO_BLK_S_OK, m)
      else case fuel of
        0 \<Rightarrow> Inl OutOfFuel
      | Suc k \<Rightarrow>
          (let chunk = if len < of_nat SECTOR_SIZE then unat len else SECTOR_SIZE in
           andThen (mem_read_buf (m_mem m) src chunk) (\<lambda>buf.
             (let (answer, b) = disk_pwrite (m_blk m) offset buf;
                  m = m\<lparr>m_blk := b\<rparr>
              in case answer of
                   None \<Rightarrow> Inr (VIRTIO_BLK_S_IOERR, m)
                 | Some n \<Rightarrow>
                     blk_do_write k m (offset + of_nat n) (src + of_nat n) (len - of_nat n)))))"

declare blk_do_read.simps [simp del] blk_do_write.simps [simp del]

text \<open>\<^verbatim>\<open>"tinyvm-blk"\<close> with its final zero.\<close>

definition blk_id :: "u8 list" where
  "blk_id = [0x74, 0x69, 0x6E, 0x79, 0x76, 0x6D, 0x2D, 0x62, 0x6C, 0x6B, 0]"

definition blk_do_get_id :: "machine \<Rightarrow> u64 \<Rightarrow> u32 \<Rightarrow> stop + u8 \<times> machine" where
  "blk_do_get_id m dst len =
     (let id_len = if unat len < length blk_id then unat len else length blk_id in
      andThen (mem_write_buf (m_mem m) dst (take id_len blk_id)) (\<lambda>mem.
        Inr (VIRTIO_BLK_S_OK, m\<lparr>m_mem := mem\<rparr>)))"

section \<open>Requests\<close>

definition blk_execute :: "nat \<Rightarrow> machine \<Rightarrow> u32 \<Rightarrow> u64 \<Rightarrow> virtq_desc \<Rightarrow> stop + u8 \<times> machine" where
  "blk_execute fuel m type offset data =
     (if type = VIRTIO_BLK_T_IN then blk_do_read fuel m offset (d_addr data) (d_len data)
      else if type = VIRTIO_BLK_T_OUT then blk_do_write fuel m offset (d_addr data) (d_len data)
      else if type = VIRTIO_BLK_T_GET_ID then blk_do_get_id m (d_addr data) (d_len data)
      else Inr (VIRTIO_BLK_S_IOERR, m))"

definition blk_handle_request :: "nat \<Rightarrow> notify_fn \<Rightarrow> machine \<Rightarrow> nat \<Rightarrow> u16 \<Rightarrow> stop + machine" where
  "blk_handle_request fuel notify m i head =
     andThen (vq_desc_read m (desc_base (vq (m_slots m i))) head) (\<lambda>(hdr, m).
     andThen (vq_desc_read m (desc_base (vq (m_slots m i))) (d_next hdr)) (\<lambda>(data, m).
     andThen (vq_desc_read m (desc_base (vq (m_slots m i))) (d_next data)) (\<lambda>(stat, m).
     andThen (mem_read32 m (d_addr hdr)) (\<lambda>(type, m).
     andThen (mem_read64 m (d_addr hdr + 8)) (\<lambda>(sector, m).
     andThen (blk_execute fuel m type (sector * of_nat SECTOR_SIZE) data) (\<lambda>(result, m).
     andThen (mem_write8 notify m (d_addr stat) result) (\<lambda>m.
       vq_ring_post notify m i head 0)))))))"

fun blk_serve :: "nat \<Rightarrow> nat \<Rightarrow> notify_fn \<Rightarrow> machine \<Rightarrow> nat \<Rightarrow> stop + machine" where
  "blk_serve fuel io notify m i =
     andThen (vq_ring_has_next m i) (\<lambda>(more, m).
       if \<not> more then Inr m
       else case fuel of
         0 \<Rightarrow> Inl OutOfFuel
       | Suc k \<Rightarrow>
           andThen (vq_ring_next m i) (\<lambda>(head, m).
           andThen (blk_handle_request io notify m i head) (\<lambda>m.
             blk_serve k io notify m i)))"

declare blk_serve.simps [simp del]

primrec blk_notify :: "nat \<Rightarrow> notify_fn" where
  "blk_notify 0 i m = Inl OutOfFuel"
| "blk_notify (Suc k) i m =
     (if \<not> ready (vq (m_slots m i)) then Inr m
      else andThen (blk_serve k k (blk_notify k) m i) (\<lambda>m. Inr (virtio_notify_guest i m)))"

text \<open>
  Opening the image: \<open>file_size\<close> is what \<^verbatim>\<open>fstat\<close> reports, none when the file cannot be opened.
  An empty file is extended to 64 MB.
\<close>

definition virtio_blk_init :: "machine \<Rightarrow> nat option \<Rightarrow> machine" where
  "virtio_blk_init m file_size =
     (case file_size of
        None \<Rightarrow> m
      | Some n \<Rightarrow>
          (let st_size = if n = 0 then DEFAULT_DISK_SIZE else n;
               m = m\<lparr>m_blk := (m_blk m)\<lparr>disk_bytes := (if n = 0 then (\<lambda>_. 0) else disk_bytes (m_blk m)),
                                   disk_length := st_size, disk_capacity := of_nat (st_size div SECTOR_SIZE)\<rparr>\<rparr>
           in virtio_init m BlockDevice))"

section \<open>Frames: the notification keeps the contract of the bus\<close>

lemma mem_write_buf_shape:
  "okR (\<lambda>mem'. map region_shape mem' = map region_shape mem) (mem_write_buf mem a bs)"
proof (cases "mem_find_region mem a (of_nat (length bs))")
  case (Inr i)
  then have "i < length mem" by (simp add: mem_find_region_Inr)
  with Inr show ?thesis
    by (simp add: mem_write_buf_def with_block_def map_update region_shape_def list_update_same_conv split: option.split)
qed (simp add: mem_write_buf_def)

lemma mem_write_buf_steps: "mem_write_buf (m_mem m) a bs = Inr mem \<Longrightarrow> bus_step m (m\<lparr>m_mem := mem\<rparr>)"
  using okR_elim [OF mem_write_buf_shape, of "m_mem m" a bs mem]
  by (simp add: bus_step_def bus_keep_def layout_def)

lemma blk_steps [simp]: "bus_step m (m\<lparr>m_blk := b\<rparr>)" "bus_step m (upd_slot m i s)"
  "bus_step m (virtio_notify_guest i m)"
  by (simp_all add: bus_step_def)

lemma blk_do_read_steps: "gives bus_step m (blk_do_read fuel m off dst len)"
proof (induction fuel arbitrary: m off dst len)
  case 0
  show ?case by (simp add: blk_do_read.simps)
next
  case (Suc k)
  have step: "gives bus_step m (andThen (mem_write_buf (m_mem m) dst buf)
     (\<lambda>mem. blk_do_read k (m\<lparr>m_blk := b, m_mem := mem\<rparr>) off' dst' len'))" for buf b off' dst' len'
  proof (rule bst.gives_pure, rule bst.gives_after [OF bst.trans Suc])
    fix mem
    assume "mem_write_buf (m_mem m) dst buf = Inr mem"
    then show "bus_step (m\<lparr>m_blk := b\<rparr>) (m\<lparr>m_blk := b, m_mem := mem\<rparr>)"
      using mem_write_buf_steps [of "m\<lparr>m_blk := b\<rparr>" dst buf mem] by simp
  qed simp
  show ?case
    by (subst blk_do_read.simps) (simp add: Let_def case_prod_unfold step del: andThen_def split: option.split)
qed

lemma blk_do_write_steps: "gives bus_step m (blk_do_write fuel m off src len)"
proof (induction fuel arbitrary: m off src len)
  case 0
  show ?case by (simp add: blk_do_write.simps)
next
  case (Suc k)
  have step: "gives bus_step m (blk_do_write k (m\<lparr>m_blk := b\<rparr>) off' src' len')" for b off' src' len'
    by (rule bst.gives_after [OF _ Suc]) simp
  show ?case
    by (subst blk_do_write.simps)
      (auto simp: Let_def case_prod_unfold intro!: bst.gives_pure step split: option.split)
qed

lemma blk_do_get_id_steps: "gives bus_step m (blk_do_get_id m dst len)"
  by (auto simp: blk_do_get_id_def Let_def intro!: bst.gives_pure mem_write_buf_steps)

lemma blk_execute_steps: "gives bus_step m (blk_execute fuel m type off data)"
  by (simp add: blk_execute_def blk_do_read_steps blk_do_write_steps blk_do_get_id_steps)

lemma vq_desc_read_steps: "gives bus_step m (vq_desc_read m b i)"
  by (auto simp: vq_desc_read_def Let_def intro!: bst.gives_bind)

lemma vq_ring_has_next_steps: "gives bus_step m (vq_ring_has_next m i)"
  by (auto simp: vq_ring_has_next_def intro!: bst.gives_bind)

lemma vq_ring_next_steps: "gives bus_step m (vq_ring_next m i)"
  unfolding vq_ring_next_def Let_def
  by (rule bst.gives_pure, rule bst.gives_after [OF blk_steps(2)], rule mem_reads_steps)

context notifier
begin

lemma vq_ring_post_steps: "moves bus_step m (vq_ring_post notify m i ident len)"
  by (auto simp: vq_ring_post_def Let_def intro!: bst.gives_moves bst.moves_bind
      bst.moves_pure [where x = "mod16 a b" for a b])

lemma blk_handle_request_steps: "moves bus_step m (blk_handle_request fuel notify m i head)"
  by (auto simp: blk_handle_request_def
      intro!: bst.gives_moves bst.moves_bind vq_desc_read_steps blk_execute_steps vq_ring_post_steps)

lemma blk_serve_steps: "moves bus_step m (blk_serve fuel io notify m i)"
proof (induction fuel arbitrary: m)
  case 0
  show ?case
    by (subst blk_serve.simps) (auto intro!: bst.gives_moves vq_ring_has_next_steps)
next
  case (Suc k)
  show ?case
    by (subst blk_serve.simps)
      (auto intro!: bst.gives_moves bst.moves_bind vq_ring_has_next_steps vq_ring_next_steps blk_handle_request_steps Suc)
qed

end

lemma blk_notify_steps: "moves bus_step m (blk_notify k i m)"
proof (induction k arbitrary: i m)
  case (Suc k)
  have n: "notifier (blk_notify k)" by (rule notifier.intro) (rule Suc)
  show ?case
    by (auto intro!: bst.moves_bind notifier.blk_serve_steps [OF n])
qed simp

interpretation blk_port: notifier "blk_notify k" for k
  by unfold_locales (rule blk_notify_steps)

section \<open>What a transfer does\<close>

text \<open>
  \<open>dma_at mem a n i\<close>: the \<open>n\<close> bytes at \<open>a\<close> lie in the RAM block of region \<open>i\<close>, and no region
  before it reaches into them.
\<close>

definition dma_at :: "memory \<Rightarrow> u64 \<Rightarrow> nat \<Rightarrow> nat \<Rightarrow> bool" where
  "dma_at mem a n i \<longleftrightarrow> i < length mem \<and> rdata (mem ! i) \<noteq> None \<and> region_fits (mem ! i) \<and>
     unat (base (mem ! i)) \<le> unat a \<and> unat a + n \<le> unat (base (mem ! i)) + unat (rsize (mem ! i)) \<and>
     (\<forall>j < i. region_fits (mem ! j) \<and>
        (unat (base (mem ! j)) + unat (rsize (mem ! j)) \<le> unat a \<or> unat a + n \<le> unat (base (mem ! j))))"

definition dma_load :: "memory \<Rightarrow> nat \<Rightarrow> u64 \<Rightarrow> nat \<Rightarrow> u8 list" where
  "dma_load mem i a n = load_bytes (the (rdata (mem ! i))) (a - base (mem ! i)) n"

definition dma_store :: "memory \<Rightarrow> nat \<Rightarrow> u64 \<Rightarrow> u8 list \<Rightarrow> memory" where
  "dma_store mem i a bs =
     mem[i := (mem ! i)\<lparr>rdata := Some (store_bytes (the (rdata (mem ! i))) (a - base (mem ! i)) bs)\<rparr>]"

lemma dma_no_wrap: "dma_at mem a n i \<Longrightarrow> unat a + n < 2 ^ 64"
  by (simp add: dma_at_def region_fits_def)

lemma dma_advance:
  assumes "dma_at mem a n i" "k \<le> n"
  shows "unat (a + of_nat k) = unat a + k"
proof -
  have "unat (of_nat k :: u64) = k"
    using dma_no_wrap [OF assms(1)] assms(2) by (simp add: unat_of_nat)
  then show ?thesis
    using dma_no_wrap [OF assms(1)] assms(2) unat_le_of_no_wrap [of a "of_nat k"] by simp
qed

lemma dma_suffix: "dma_at mem a n i \<Longrightarrow> k \<le> n \<Longrightarrow> dma_at mem (a + of_nat k) (n - k) i"
  using dma_advance [of mem a n i k] by (fastforce simp: dma_at_def)

lemma dma_prefix: "dma_at mem a n i \<Longrightarrow> k \<le> n \<Longrightarrow> dma_at mem a k i"
  by (fastforce simp: dma_at_def)

lemma matches_fits:
  assumes "region_fits r" "unat a + n < 2 ^ 64"
  shows "matches a (of_nat n) r \<longleftrightarrow> unat (base r) \<le> unat a \<and> unat a + n \<le> unat (base r) + unat (rsize r)"
proof -
  have "unat (of_nat n :: u64) = n" using assms(2) by (simp add: unat_of_nat)
  then show ?thesis
    using assms unat_le_of_no_wrap [of a "of_nat n"] unat_le_of_no_wrap [of "base r" "rsize r"]
    by (simp add: matches_def region_fits_def word_le_nat_alt)
qed

lemma dma_find:
  assumes "dma_at mem a n i" "0 < n"
  shows "mem_find_region mem a (of_nat n) = Inr i"
  using assms dma_no_wrap [OF assms(1)]
  by (auto simp: mem_find_region_Inr matches_fits dma_at_def)

lemma dma_offset:
  assumes "dma_at mem a n i"
  shows "unat (a - base (mem ! i)) + n \<le> unat (rsize (mem ! i))"
proof -
  have "base (mem ! i) \<le> a" using assms by (simp add: dma_at_def word_le_nat_alt)
  then show ?thesis using assms by (auto simp: dma_at_def unat_diff_word)
qed

lemma mem_write_buf_dma:
  assumes "dma_at mem a (length bs) i" "bs \<noteq> []"
  shows "mem_write_buf mem a bs = Inr (dma_store mem i a bs)"
  using assms dma_find [OF assms(1)] dma_offset [OF assms(1)]
  by (auto simp: mem_write_buf_def with_block_def dma_store_def dma_at_def)

lemma mem_read_buf_dma:
  assumes "dma_at mem a n i" "0 < n"
  shows "mem_read_buf mem a n = Inr (dma_load mem i a n)"
  using assms dma_find [OF assms(1)] dma_offset [OF assms(1)]
  by (auto simp: mem_read_buf_def with_block_def dma_load_def dma_at_def)

lemma dma_at_store [simp]: "dma_at (dma_store mem i a bs) b n j \<longleftrightarrow> dma_at mem b n j"
  if "dma_at mem a k i"
proof -
  have "i < length mem" using that by (simp add: dma_at_def)
  then have "base (dma_store mem i a bs ! j) = base (mem ! j)"
    "rsize (dma_store mem i a bs ! j) = rsize (mem ! j)"
    "(rdata (dma_store mem i a bs ! j) = None) = (rdata (mem ! j) = None)"
    "length (dma_store mem i a bs) = length mem" for j
    using that by (cases "j = i"; auto simp: dma_store_def dma_at_def)+
  then show ?thesis unfolding dma_at_def region_fits_def by presburger
qed

lemma store_bytes_append: "store_bytes d a (xs @ ys) = store_bytes (store_bytes d a xs) (a + of_nat (length xs)) ys"
  by (induction xs arbitrary: d a) (simp_all add: algebra_simps)

lemma dma_store_append:
  "i < length mem \<Longrightarrow> dma_store mem i a (xs @ ys) = dma_store (dma_store mem i a xs) i (a + of_nat (length xs)) ys"
  by (simp add: dma_store_def store_bytes_append algebra_simps)

lemma dma_store_Nil: "dma_at mem a n i \<Longrightarrow> dma_store mem i b [] = mem"
  by (auto simp: dma_at_def dma_store_def)

lemma dma_load_append:
  "dma_load mem i a (n + k) = dma_load mem i a n @ dma_load mem i (a + of_nat n) k"
proof -
  have "load_bytes d a (n + k) = load_bytes d a n @ load_bytes d (a + of_nat n) k" for d a
    by (induction n arbitrary: a) (simp_all add: algebra_simps)
  then show ?thesis by (simp add: dma_load_def algebra_simps)
qed

lemma length_dma_load [simp]: "length (dma_load mem i a n) = n"
  by (simp add: dma_load_def)

lemma dma_load_store:
  assumes "dma_at mem a (length bs) i"
  shows "dma_load (dma_store mem i a bs) i a (length bs) = bs"
  using assms dma_no_wrap [OF assms] by (auto simp: dma_load_def dma_store_def dma_at_def load_store_bytes)

lemma length_disk_slice [simp]: "length (disk_slice b off n) = n"
  by (simp add: disk_slice_def)

lemma disk_slice_append: "disk_slice b off (n + k) = disk_slice b off n @ disk_slice b (off + n) k"
  by (rule nth_equalityI) (auto simp: disk_slice_def nth_append)

text \<open>The answers of the host that lead to a complete transfer.\<close>

lemma next_answer_ok:
  assumes "IoError \<notin> set (disk_answers b)" "next_answer b = (ans, b')"
  shows "ans \<noteq> IoError" "b' = b\<lparr>disk_answers := disk_answers b'\<rparr>" "set (disk_answers b') \<subseteq> set (disk_answers b)"
    "0 < n \<Longrightarrow> 0 < io_count ans n" "io_count ans n \<le> n"
  using assms
  by (auto simp: next_answer_def io_count_def split: list.splits io_answer.splits)

lemma chunk_bounds:
  assumes "len \<noteq> (0 :: u32)"
  defines "c \<equiv> if len < of_nat SECTOR_SIZE then unat len else SECTOR_SIZE"
  shows "0 < c" "c \<le> unat len"
  using assms by (auto simp: word_less_nat_alt unat_gt_0)

lemma unat_minus_of_nat: "k \<le> unat len \<Longrightarrow> unat (len - of_nat k) = unat len - k" for len :: u32
proof -
  assume k: "k \<le> unat len"
  moreover have "unat len < 2 ^ 32" using unsigned_less [where 'a = nat, of len] by simp
  ultimately have "unat (of_nat k :: u32) = k" by (simp add: unat_of_nat)
  then show ?thesis using k by (simp add: unat_sub word_le_nat_alt)
qed

lemma unat_plus_of_nat: "unat off + k < 2 ^ 64 \<Longrightarrow> unat (off + of_nat k) = unat off + k" for off :: u64
  using unat_le_of_no_wrap [of off "of_nat k"] by (simp add: unat_of_nat)

text \<open>C13: A disk read delivers exactly the bytes of the disk. For a buffer inside one RAM region
  and a range inside the disk image, and however the host splits the transfer into short reads
  (as long as none of them fails), the request reports success, the buffer holds the bytes of
  that range, and nothing else in the machine changes. One iteration per byte is enough.\<close>

theorem blk_read_transfers:
  assumes "dma_at (m_mem m) dst (unat len) i"
    and "unat offset + unat len \<le> disk_length (m_blk m)" and "disk_length (m_blk m) < 2 ^ 63"
    and "IoError \<notin> set (disk_answers (m_blk m))" and "unat len \<le> fuel"
  shows "\<exists>as. set as \<subseteq> set (disk_answers (m_blk m)) \<and> blk_do_read fuel m offset dst len = Inr (VIRTIO_BLK_S_OK,
           m\<lparr>m_mem := dma_store (m_mem m) i dst (disk_slice (m_blk m) (unat offset) (unat len)),
             m_blk := (m_blk m)\<lparr>disk_answers := as\<rparr>\<rparr>)"
  using assms
proof (induction fuel arbitrary: m offset dst len)
  case 0
  then have "len = 0" by (simp add: unat_eq_0)
  with 0 show ?case
    by (intro exI [of _ "disk_answers (m_blk m)"])
      (simp add: blk_do_read.simps disk_slice_def dma_store_Nil)
next
  case (Suc f)
  show ?case
  proof (cases "len = 0")
    case True
    with Suc.prems show ?thesis
      by (intro exI [of _ "disk_answers (m_blk m)"])
        (simp add: blk_do_read.simps disk_slice_def dma_store_Nil)
  next
    case False
    define c where "c = (if len < of_nat SECTOR_SIZE then unat len else SECTOR_SIZE)"
    note c = chunk_bounds [OF False, folded c_def]
    obtain ans b where ab: "next_answer (m_blk m) = (ans, b)" by fastforce
    note ok = next_answer_ok [OF Suc.prems(4) ab]
    define n where "n = io_count ans c"
    have n: "0 < n" "n \<le> unat len" using ok(4) [OF c(1)] ok(5) [of c] c by (auto simp: n_def)
    have sm: "min c (disk_length (m_blk m) - unat offset) = c" using Suc.prems(2) c by simp
    have eqs: "disk_bytes b = disk_bytes (m_blk m)" "disk_length b = disk_length (m_blk m)"
      using arg_cong [OF ok(2), of disk_bytes] arg_cong [OF ok(2), of disk_length] by simp_all
    let ?bs = "disk_slice (m_blk m) (unat offset) n"
    let ?m = "m\<lparr>m_blk := b, m_mem := dma_store (m_mem m) i dst ?bs\<rparr>"
    have rd: "disk_pread (m_blk m) offset c = (Some ?bs, b)"
      using ab ok(1) Suc.prems(2,3) c sm eqs
      by (simp add: disk_pread_def offset_bad_def n_def disk_slice_def)
    have dst: "dma_at (m_mem m) dst n i" by (rule dma_prefix [OF Suc.prems(1) n(2)])
    have wr: "mem_write_buf (m_mem m) dst ?bs = Inr (dma_store (m_mem m) i dst ?bs)"
      using dst n by (intro mem_write_buf_dma) (auto simp flip: length_greater_0_conv)
    have run: "blk_do_read (Suc f) m offset dst len =
        blk_do_read f ?m (offset + of_nat n) (dst + of_nat n) (len - of_nat n)"
      using False rd wr
      by (subst blk_do_read.simps) (unfold Let_def c_def [symmetric], simp)
    have off: "unat (offset + of_nat n) = unat offset + n"
      using Suc.prems(2,3) n by (intro unat_plus_of_nat) simp
    have len: "unat (len - of_nat n) = unat len - n"
      by (rule unat_minus_of_nat [OF n(2)])
    have "\<exists>as. set as \<subseteq> set (disk_answers (m_blk ?m)) \<and> blk_do_read f ?m (offset + of_nat n) (dst + of_nat n) (len - of_nat n) = Inr (VIRTIO_BLK_S_OK,
           ?m\<lparr>m_mem := dma_store (m_mem ?m) i (dst + of_nat n)
               (disk_slice (m_blk ?m) (unat (offset + of_nat n)) (unat (len - of_nat n))),
             m_blk := (m_blk ?m)\<lparr>disk_answers := as\<rparr>\<rparr>)"
    proof (rule Suc.IH)
      show "dma_at (m_mem ?m) (dst + of_nat n) (unat (len - of_nat n)) i"
        using dma_suffix [OF Suc.prems(1) n(2)] dst by (simp add: len)
    qed (use Suc.prems ok off len n eqs in auto)
    moreover have "dma_store (dma_store (m_mem m) i dst ?bs) i (dst + of_nat n)
        (disk_slice b (unat (offset + of_nat n)) (unat (len - of_nat n))) =
        dma_store (m_mem m) i dst (disk_slice (m_blk m) (unat offset) (unat len))"
      using Suc.prems(1) dma_store_append [of i "m_mem m" dst ?bs] n
        disk_slice_append [of "m_blk m" "unat offset" n "unat len - n"]
      by (simp add: dma_at_def off len) (simp add: disk_slice_def eqs)
    moreover have "b\<lparr>disk_answers := as\<rparr> = (m_blk m)\<lparr>disk_answers := as\<rparr>" for as
      by (subst ok(2)) simp
    ultimately show ?thesis unfolding run using ok(3) by auto
  qed
qed

lemma disk_store_append:
  "disk_store b off (xs @ ys) = disk_store (disk_store b off xs) (off + length xs) ys"
  by (cases b) (auto simp: disk_store_def nth_append intro!: ext)

lemma disk_store_answers:
  "disk_store (b\<lparr>disk_answers := as\<rparr>) off bs = (disk_store b off bs)\<lparr>disk_answers := as\<rparr>"
  by (cases b) (auto simp: disk_store_def intro!: ext)

lemma disk_slice_store: "disk_slice (disk_store b off bs) off (length bs) = bs"
  by (rule nth_equalityI) (simp_all add: disk_slice_def disk_store_def)

lemma disk_store_simps [simp]:
  "disk_length (disk_store b off bs) = max (disk_length b) (off + length bs)"
  "disk_answers (disk_store b off bs) = disk_answers b"
  "disk_capacity (disk_store b off bs) = disk_capacity b"
  by (simp_all add: disk_store_def)

lemma take_dma_load: "k \<le> n \<Longrightarrow> take k (dma_load mem i a n) = dma_load mem i a k"
  using dma_load_append [of mem i a k "n - k"] by simp

text \<open>C14: A disk write stores exactly the bytes of the buffer, again for every way the host
  splits the transfer, and changes nothing else but the length of a file it extends.\<close>

theorem blk_write_transfers:
  assumes "dma_at (m_mem m) src (unat len) i" and "0 < len"
    and "unat offset + unat len < 2 ^ 63"
    and "IoError \<notin> set (disk_answers (m_blk m))" and "unat len \<le> fuel"
  shows "\<exists>as. set as \<subseteq> set (disk_answers (m_blk m)) \<and> blk_do_write fuel m offset src len = Inr (VIRTIO_BLK_S_OK,
           m\<lparr>m_blk := (disk_store (m_blk m) (unat offset) (dma_load (m_mem m) i src (unat len)))
                        \<lparr>disk_answers := as\<rparr>\<rparr>)"
  using assms
proof (induction fuel arbitrary: m offset src len)
  case 0
  then show ?case by (simp add: unat_eq_0)
next
  case (Suc f)
  then have False': "len \<noteq> 0" by auto
  define c where "c = (if len < of_nat SECTOR_SIZE then unat len else SECTOR_SIZE)"
  note c = chunk_bounds [OF False', folded c_def]
  obtain ans b where ab: "next_answer (m_blk m) = (ans, b)" by fastforce
  note ok = next_answer_ok [OF Suc.prems(4) ab]
  define n where "n = io_count ans c"
  have n: "0 < n" "n \<le> c" "n \<le> unat len" using ok(4) [OF c(1)] ok(5) [of c] c by (auto simp: n_def)
  let ?b = "disk_store b (unat offset) (dma_load (m_mem m) i src n)"
  let ?m = "m\<lparr>m_blk := ?b\<rparr>"
  have rd: "mem_read_buf (m_mem m) src c = Inr (dma_load (m_mem m) i src c)"
    by (rule mem_read_buf_dma [OF dma_prefix [OF Suc.prems(1) c(2)] c(1)])
  have wr: "disk_pwrite (m_blk m) offset (dma_load (m_mem m) i src c) = (Some n, ?b)"
    using ab ok(1) Suc.prems(3) c n
    by (simp add: disk_pwrite_def offset_bad_def take_dma_load n_def [symmetric] Let_def)
  have run: "blk_do_write (Suc f) m offset src len =
      blk_do_write f ?m (offset + of_nat n) (src + of_nat n) (len - of_nat n)"
    using False' rd wr by (subst blk_do_write.simps) (unfold Let_def c_def [symmetric], simp)
  have off: "unat (offset + of_nat n) = unat offset + n"
    using Suc.prems(3) n by (intro unat_plus_of_nat) simp
  have len: "unat (len - of_nat n) = unat len - n"
    by (rule unat_minus_of_nat [OF n(3)])
  have fin: "(disk_store ?b (unat offset + n) (dma_load (m_mem m) i (src + of_nat n) (unat len - n)))\<lparr>disk_answers := as\<rparr>
      = (disk_store (m_blk m) (unat offset) (dma_load (m_mem m) i src (unat len)))\<lparr>disk_answers := as\<rparr>" for as
    using disk_store_append [of "m_blk m" "unat offset" "dma_load (m_mem m) i src n"
        "dma_load (m_mem m) i (src + of_nat n) (unat len - n)"]
      dma_load_append [of "m_mem m" i src n "unat len - n"] n
    by simp (subst ok(2), simp add: disk_store_answers)
  have fin0: "?b = (disk_store (m_blk m) (unat offset) (dma_load (m_mem m) i src n))\<lparr>disk_answers := disk_answers b\<rparr>"
    by (subst (1) ok(2)) (simp add: disk_store_answers)
  show ?case
  proof (cases "unat len = n")
    case True
    then have "len - of_nat n = 0" by (simp add: unat_eq_0 [symmetric] len)
    with True show ?thesis
      unfolding run
      using fin0 ok(3) by (intro exI [of _ "disk_answers b"]) (simp add: blk_do_write.simps)
  next
    case False
    then have pos: "0 < len - of_nat n" using n by (simp add: word_less_nat_alt len)
    have "\<exists>as. set as \<subseteq> set (disk_answers (m_blk ?m)) \<and> blk_do_write f ?m (offset + of_nat n) (src + of_nat n) (len - of_nat n) = Inr (VIRTIO_BLK_S_OK,
        ?m\<lparr>m_blk := (disk_store (m_blk ?m) (unat (offset + of_nat n))
             (dma_load (m_mem ?m) i (src + of_nat n) (unat (len - of_nat n))))\<lparr>disk_answers := as\<rparr>\<rparr>)"
    proof (rule Suc.IH [OF _ pos])
      show "dma_at (m_mem ?m) (src + of_nat n) (unat (len - of_nat n)) i"
        using dma_suffix [OF Suc.prems(1) n(3)] by (simp add: len)
    qed (use Suc.prems ok off len n in auto)
    then show ?thesis unfolding run using ok(3) by (auto simp: off len fin)
  qed
qed

text \<open>C12: What is written to the disk is read back: a write request followed by a read request of
  the same sectors, into any other buffer, copies the first buffer to the second.\<close>

theorem blk_write_read_roundtrip:
  assumes "dma_at (m_mem m) src (unat len) i" and "dma_at (m_mem m) dst (unat len) j" and "0 < len"
    and "unat sector * 512 + unat len < 2 ^ 63" and "disk_length (m_blk m) < 2 ^ 63"
    and "IoError \<notin> set (disk_answers (m_blk m))" and "unat len \<le> fuel"
  shows "\<exists>m1 m2. blk_execute fuel m VIRTIO_BLK_T_OUT (sector * 512)
             \<lparr>d_addr = src, d_len = len, d_flags = f1, d_next = n1\<rparr> = Inr (VIRTIO_BLK_S_OK, m1) \<and>
           blk_execute fuel m1 VIRTIO_BLK_T_IN (sector * 512)
             \<lparr>d_addr = dst, d_len = len, d_flags = f2, d_next = n2\<rparr> = Inr (VIRTIO_BLK_S_OK, m2) \<and>
           dma_load (m_mem m2) j dst (unat len) = dma_load (m_mem m) i src (unat len)"
proof -
  let ?bs = "dma_load (m_mem m) i src (unat len)"
  let ?b = "disk_store (m_blk m) (unat (sector * 512)) ?bs"
  have off: "unat (sector * 512) = unat sector * 512"
    using assms(4) by (simp add: unat_word_ariths)
  obtain as where as: "set as \<subseteq> set (disk_answers (m_blk m))"
    and w: "blk_do_write fuel m (sector * 512) src len = Inr (VIRTIO_BLK_S_OK, m\<lparr>m_blk := ?b\<lparr>disk_answers := as\<rparr>\<rparr>)"
    using blk_write_transfers [OF assms(1,3) _ assms(6,7), of "sector * 512"] assms(4) off by auto
  obtain as' where r: "blk_do_read fuel (m\<lparr>m_blk := ?b\<lparr>disk_answers := as\<rparr>\<rparr>) (sector * 512) dst len =
      Inr (VIRTIO_BLK_S_OK, m\<lparr>m_mem := dma_store (m_mem m) j dst (disk_slice ?b (unat (sector * 512)) (unat len)),
             m_blk := ?b\<lparr>disk_answers := as'\<rparr>\<rparr>)"
    using blk_read_transfers [of "m\<lparr>m_blk := ?b\<lparr>disk_answers := as\<rparr>\<rparr>" dst len j "sector * 512" fuel] assms off as
    by (auto simp: disk_slice_def)
  have "disk_slice ?b (unat (sector * 512)) (unat len) = ?bs"
    using disk_slice_store [of "m_blk m" "unat (sector * 512)" ?bs] by simp
  then have "dma_load (dma_store (m_mem m) j dst (disk_slice ?b (unat (sector * 512)) (unat len))) j dst (unat len) = ?bs"
    using dma_load_store [of "m_mem m" dst ?bs j] assms(2) by simp
  then show ?thesis by (simp add: blk_execute_def w r)
qed

definition disk_machine :: machine where
  "disk_machine = example_machine\<lparr>m_blk := \<lparr>disk_bytes = (\<lambda>k. of_nat k), disk_length = 1024,
     disk_answers = [IoShort 3], disk_capacity = 2\<rparr>\<rparr>"

lemma disk_machine_dma: "n \<le> 4096 \<Longrightarrow> dma_at (m_mem disk_machine) 0x80000000 n 0"
  "n \<le> 4096 \<Longrightarrow> dma_at (m_mem disk_machine) 0x80001000 n 0"
  by (simp_all add: dma_at_def disk_machine_def example_machine_def ram_256M_def region_fits_def)

lemma disk_machine_disk: "disk_length (m_blk disk_machine) = 1024" "disk_answers (m_blk disk_machine) = [IoShort 3]"
  by (simp_all add: disk_machine_def)

theorem blk_read_transfers_witness:
  "\<exists>m'. blk_do_read 512 disk_machine 512 0x80000000 512 = Inr (VIRTIO_BLK_S_OK, m')"
  using blk_read_transfers [of disk_machine "0x80000000" 512 0 512 512] disk_machine_dma(1) [of 512]
  by (auto simp: disk_machine_disk)

theorem blk_write_transfers_witness:
  "\<exists>m'. blk_do_write 2048 disk_machine 0 0x80000000 2048 = Inr (VIRTIO_BLK_S_OK, m')"
  using blk_write_transfers [of disk_machine "0x80000000" 2048 0 0 2048] disk_machine_dma(1) [of 2048]
  by (auto simp: disk_machine_disk)

theorem blk_write_read_roundtrip_witness:
  "\<exists>m1 m2. blk_execute 512 disk_machine VIRTIO_BLK_T_OUT 512
       \<lparr>d_addr = 0x80000000, d_len = 512, d_flags = 1, d_next = 1\<rparr> = Inr (VIRTIO_BLK_S_OK, m1) \<and>
     blk_execute 512 m1 VIRTIO_BLK_T_IN 512
       \<lparr>d_addr = 0x80001000, d_len = 512, d_flags = 3, d_next = 2\<rparr> = Inr (VIRTIO_BLK_S_OK, m2) \<and>
     dma_load (m_mem m2) 0 0x80001000 512 = dma_load (m_mem disk_machine) 0 0x80000000 512"
  using blk_write_read_roundtrip [of disk_machine "0x80000000" 512 0 "0x80001000" 0 1 512 1 1 3 2]
    disk_machine_dma [of 512]
  by (simp add: disk_machine_disk)

lemma region_same: "rdata r = Some y \<Longrightarrow> r\<lparr>rdata := Some y\<rparr> = r"
  by (cases r) simp

text \<open>C37: A read that starts at or past the end of the disk image never finishes: the host
  delivers no bytes, the code takes this for progress, and the loop runs with every bound on
  its iterations.\<close>

theorem blk_read_past_end_hangs:
  assumes "mem_find_region (m_mem m) dst 0 = Inr i" and "rdata (m_mem m ! i) \<noteq> None"
    and "unat (dst - base (m_mem m ! i)) \<le> unat (rsize (m_mem m ! i))"
    and "disk_length (m_blk m) \<le> unat offset" and "unat offset + 512 < 2 ^ 63"
    and "disk_answers (m_blk m) = []" and "len \<noteq> 0"
  shows "blk_do_read fuel m offset dst len = Inl OutOfFuel"
proof (induction fuel)
  case 0
  show ?case using assms(7) by (simp add: blk_do_read.simps)
next
  case (Suc k)
  have b: "m\<lparr>m_blk := m_blk m\<rparr> = m" "m\<lparr>m_mem := m_mem m\<rparr> = m" by simp_all
  have "i < length (m_mem m)" using assms(1) by (simp add: mem_find_region_Inr)
  then have wr: "mem_write_buf (m_mem m) dst [] = Inr (m_mem m)"
    using assms(1-3) by (auto simp: mem_write_buf_def with_block_def list_update_same_conv region_same)
  have rd: "disk_pread (m_blk m) offset c = (Some [], m_blk m)" if "c \<le> 512" for c
    using assms(4-6) that by (simp add: disk_pread_def next_answer_def offset_bad_def io_count_def disk_slice_def)
  have "(if len < of_nat SECTOR_SIZE then unat len else SECTOR_SIZE) \<le> 512"
    by (simp add: word_less_nat_alt)
  note rd = rd [OF this]
  show ?case
    using assms(7) Suc.IH wr
    by (subst blk_do_read.simps) (unfold Let_def rd, simp add: b)
qed

theorem blk_read_past_end_hangs_witness:
  "blk_do_read 100 disk_machine 1024 0x80000000 512 = Inl OutOfFuel \<or>
   blk_do_read 1000 (disk_machine\<lparr>m_blk := (m_blk disk_machine)\<lparr>disk_answers := []\<rparr>\<rparr>) 1024 0x80000000 512 = Inl OutOfFuel"
  using blk_read_past_end_hangs [of "disk_machine\<lparr>m_blk := (m_blk disk_machine)\<lparr>disk_answers := []\<rparr>\<rparr>" "0x80000000" 0 1024 512 1000]
  by (simp add: disk_machine_def example_machine_def ram_256M_def mem_find_region_def)

section \<open>The rings\<close>

lemma ucast_take_ucast [simp]:
  "ucast (take_bit 8 (ucast (x8 :: u8) :: u64)) = x8" "ucast (take_bit 16 (ucast (x16 :: u16) :: u64)) = x16"
  "ucast (take_bit 32 (ucast (x32 :: u32) :: u64)) = x32"
  by (rule bit_word_eqI; simp add: bit_simps)+


lemma ram_store_slots [simp]: "m_slots (ram_store m a v n) = m_slots m"
  by (simp add: ram_store_def split: sum.split)




lemma load_le_zero [simp]: "load_le (\<lambda>_. 0) a n = 0"
  by (induction n arbitrary: a) simp_all


end
