(* ===== verification/Mmu.thy ===== *)
theory Mmu
  imports Virtio_Blk
begin

text \<open>
  Address translation (\<^verbatim>\<open>src/mmu.c\<close>, \<^verbatim>\<open>include/mmu.h\<close>): the Sv39 page walk, which reads and
  updates page table entries through the bus, and the virtual loads and stores.  A result of
  \<open>mmu_translate\<close> is a physical address, or \<open>MMU_FAULT\<close> after the trap was taken.  \<open>Sv39\<close> states
  the translation the architecture defines and proves that the walk implements it.
\<close>

abbreviation (input) PAGE_OFFSET_BITS :: nat where "PAGE_OFFSET_BITS \<equiv> 12"
abbreviation (input) PT_INDEX_BITS :: nat where "PT_INDEX_BITS \<equiv> 9"
abbreviation (input) PT_LEVELS :: nat where "PT_LEVELS \<equiv> 3"
abbreviation (input) PTE_SIZE :: u64 where "PTE_SIZE \<equiv> 8"
abbreviation (input) SATP_PPN_MASK :: u64 where "SATP_PPN_MASK \<equiv> 0x00000FFFFFFFFFFF"
abbreviation (input) PTE_V :: u64 where "PTE_V \<equiv> 1"
abbreviation (input) PTE_R :: u64 where "PTE_R \<equiv> 2"
abbreviation (input) PTE_W :: u64 where "PTE_W \<equiv> 4"
abbreviation (input) PTE_X :: u64 where "PTE_X \<equiv> 8"
abbreviation (input) PTE_U :: u64 where "PTE_U \<equiv> 16"
abbreviation (input) PTE_A :: u64 where "PTE_A \<equiv> 64"
abbreviation (input) PTE_D :: u64 where "PTE_D \<equiv> 128"
abbreviation (input) PTE_PPN_SHIFT :: nat where "PTE_PPN_SHIFT \<equiv> 10"
abbreviation (input) MMU_FAULT :: u64 where "MMU_FAULT \<equiv> 0xFFFFFFFFFFFFFFFF"

datatype mmu_access = MMU_FETCH | MMU_LOAD | MMU_STORE

definition fault_cause :: "mmu_access \<Rightarrow> u64" where
  "fault_cause acc =
     (case acc of
        MMU_FETCH \<Rightarrow> EXC_CAUSE_FETCH_PAGE_FAULT
      | MMU_STORE \<Rightarrow> EXC_CAUSE_STORE_PAGE_FAULT
      | MMU_LOAD \<Rightarrow> EXC_CAUSE_LOAD_PAGE_FAULT)"

definition vpn_of :: "u64 \<Rightarrow> nat \<Rightarrow> u64" where
  "vpn_of va level = drop_bit (PAGE_OFFSET_BITS + level * PT_INDEX_BITS) va AND (push_bit PT_INDEX_BITS 1 - 1)"

definition pte_addr_of :: "u64 \<Rightarrow> u64 \<Rightarrow> u64" where
  "pte_addr_of ppn vpn = push_bit PAGE_OFFSET_BITS ppn + vpn * PTE_SIZE"

definition pte_ppn :: "u64 \<Rightarrow> u64" where
  "pte_ppn pte = drop_bit PTE_PPN_SHIFT pte AND SATP_PPN_MASK"

definition pte_check :: "u64 \<Rightarrow> cpu \<Rightarrow> mmu_access \<Rightarrow> bool" where
  "pte_check pte c acc =
     (if (case acc of MMU_FETCH \<Rightarrow> pte AND PTE_X = 0 | MMU_LOAD \<Rightarrow> pte AND PTE_R = 0
          | MMU_STORE \<Rightarrow> pte AND PTE_W = 0) then False
      else if privilege c = PRIV_U \<and> pte AND PTE_U = 0 then False
      else if privilege c = PRIV_S \<and> pte AND PTE_U \<noteq> 0 \<and> csrs c CSR_MSTATUS AND SSTATUS_SUM = 0 then False
      else True)"

definition pte_to_pa :: "u64 \<Rightarrow> u64 \<Rightarrow> nat \<Rightarrow> u64" where
  "pte_to_pa pte va level =
     (let offset_bits = PAGE_OFFSET_BITS + level * PT_INDEX_BITS;
          offset_mask = push_bit offset_bits 1 - 1
      in push_bit PAGE_OFFSET_BITS (pte_ppn pte) OR (va AND offset_mask))"

definition mmu_active :: "cpu \<Rightarrow> bool" where
  "mmu_active c \<longleftrightarrow> privilege c \<noteq> PRIV_M \<and> drop_bit SATP_MODE_SHIFT (csrs c CSR_SATP) = SATP_MODE_SV39"

section \<open>The walk\<close>

text \<open>
  The loop from level 2 down to 0.  It ends with a leaf (the entry, its address and its level),
  or with none when an entry is invalid or the last level holds a pointer.
\<close>

primrec mmu_walk :: "nat \<Rightarrow> machine \<Rightarrow> u64 \<Rightarrow> u64 \<Rightarrow> stop + (u64 \<times> u64 \<times> nat) option \<times> machine" where
  "mmu_walk 0 m va ppn = Inr (None, m)"
| "mmu_walk (Suc level) m va ppn =
     (let pte_addr = pte_addr_of ppn (vpn_of va level) in
      andThen (mem_read64 m pte_addr) (\<lambda>(pte, m).
        if pte AND PTE_V = 0 \<or> (pte AND PTE_R = 0 \<and> pte AND PTE_W \<noteq> 0) then Inr (None, m)
        else if pte AND PTE_R \<noteq> 0 \<or> pte AND PTE_X \<noteq> 0 then Inr (Some (pte, pte_addr, level), m)
        else mmu_walk level m va (pte_ppn pte)))"

definition trap_machine :: "machine \<Rightarrow> u64 \<Rightarrow> u64 \<Rightarrow> machine" where
  "trap_machine m cause tval = m\<lparr>m_cpu := cpu_trap (m_cpu m) cause tval\<rparr>"

definition mmu_translate :: "notify_fn \<Rightarrow> machine \<Rightarrow> u64 \<Rightarrow> mmu_access \<Rightarrow> stop + u64 \<times> machine" where
  "mmu_translate notify m va acc =
     (if \<not> mmu_active (m_cpu m) then Inr (va, m)
      else
        andThen (mmu_walk PT_LEVELS m va (csrs (m_cpu m) CSR_SATP AND SATP_PPN_MASK)) (\<lambda>(leaf, m).
          case leaf of
            None \<Rightarrow> Inr (MMU_FAULT, trap_machine m (fault_cause acc) va)
          | Some (pte, pte_addr, level) \<Rightarrow>
              if \<not> pte_check pte (m_cpu m) acc then Inr (MMU_FAULT, trap_machine m (fault_cause acc) va)
              else
                (let pte = pte OR PTE_A;
                     pte = (if acc = MMU_STORE then pte OR PTE_D else pte)
                 in andThen (mem_write64 notify m pte_addr pte) (\<lambda>m.
                      Inr (pte_to_pa pte va level, m)))))"

section \<open>Virtual loads and stores\<close>

definition vm_read :: "notify_fn \<Rightarrow> (machine \<Rightarrow> u64 \<Rightarrow> stop + 'w \<times> machine) \<Rightarrow> machine \<Rightarrow> u64 \<Rightarrow>
    stop + 'w option \<times> machine" where
  "vm_read notify rd m va =
     andThen (mmu_translate notify m va MMU_LOAD) (\<lambda>(pa, m).
       if pa = MMU_FAULT then Inr (None, m)
       else andThen (rd m pa) (\<lambda>(v, m). Inr (Some v, m)))"

definition vm_read8 :: "notify_fn \<Rightarrow> machine \<Rightarrow> u64 \<Rightarrow> stop + u8 option \<times> machine" where
  "vm_read8 notify m va = vm_read notify mem_read8 m va"

definition vm_read16 :: "notify_fn \<Rightarrow> machine \<Rightarrow> u64 \<Rightarrow> stop + u16 option \<times> machine" where
  "vm_read16 notify m va = vm_read notify mem_read16 m va"

definition vm_read32 :: "notify_fn \<Rightarrow> machine \<Rightarrow> u64 \<Rightarrow> stop + u32 option \<times> machine" where
  "vm_read32 notify m va = vm_read notify mem_read32 m va"

definition vm_read64 :: "notify_fn \<Rightarrow> machine \<Rightarrow> u64 \<Rightarrow> stop + u64 option \<times> machine" where
  "vm_read64 notify m va = vm_read notify mem_read64 m va"

text \<open>A store answers whether it was made.\<close>

definition vm_write :: "notify_fn \<Rightarrow> (machine \<Rightarrow> u64 \<Rightarrow> 'w \<Rightarrow> stop + machine) \<Rightarrow> machine \<Rightarrow> u64 \<Rightarrow> 'w \<Rightarrow>
    stop + bool \<times> machine" where
  "vm_write notify wr m va val =
     andThen (mmu_translate notify m va MMU_STORE) (\<lambda>(pa, m).
       if pa = MMU_FAULT then Inr (False, m)
       else andThen (wr m pa val) (\<lambda>m. Inr (True, m)))"

definition vm_write8 :: "notify_fn \<Rightarrow> machine \<Rightarrow> u64 \<Rightarrow> u8 \<Rightarrow> stop + bool \<times> machine" where
  "vm_write8 notify m va val = vm_write notify (mem_write8 notify) m va val"

definition vm_write16 :: "notify_fn \<Rightarrow> machine \<Rightarrow> u64 \<Rightarrow> u16 \<Rightarrow> stop + bool \<times> machine" where
  "vm_write16 notify m va val = vm_write notify (mem_write16 notify) m va val"

definition vm_write32 :: "notify_fn \<Rightarrow> machine \<Rightarrow> u64 \<Rightarrow> u32 \<Rightarrow> stop + bool \<times> machine" where
  "vm_write32 notify m va val = vm_write notify (mem_write32 notify) m va val"

definition vm_write64 :: "notify_fn \<Rightarrow> machine \<Rightarrow> u64 \<Rightarrow> u64 \<Rightarrow> stop + bool \<times> machine" where
  "vm_write64 notify m va val = vm_write notify (mem_write64 notify) m va val"

section \<open>The machine invariant\<close>

text \<open>
  The invariant of the processor: register x0 is zero, the privilege is one of the two-bit
  encodings, the mode of satp is legal.  \<open>keeps m m'\<close>: a step from \<open>m\<close> to \<open>m'\<close> maintains it,
  and leaves the memory map, the interrupt sources and the step counter as they are.
\<close>

definition cpu_ok :: "cpu \<Rightarrow> bool" where
  "cpu_ok c \<longleftrightarrow> regs c 0 = 0 \<and> privilege c \<le> 3 \<and> satp_legal c"

definition keeps :: "machine \<Rightarrow> machine \<Rightarrow> bool" where
  "keeps m m' \<longleftrightarrow> (cpu_ok (m_cpu m) \<longrightarrow> cpu_ok (m_cpu m')) \<and> layout m' = layout m \<and>
     m_sources m' = m_sources m \<and> steps (m_cpu m') = steps (m_cpu m)"

interpretation kp: state_relation keeps
  by unfold_locales (auto simp: keeps_def)

lemma keeps_refl [simp]: "keeps m m"
  by (rule kp.refl)

lemma cpu_ok_cong:
  "regs c' 0 = regs c 0 \<Longrightarrow> privilege c' = privilege c \<Longrightarrow> csrs c' CSR_SATP = csrs c CSR_SATP \<Longrightarrow> cpu_ok c' = cpu_ok c"
  by (simp add: cpu_ok_def satp_legal_def)

lemma keeps_bus_step: "bus_step m m' \<Longrightarrow> keeps m m'"
  using cpu_ok_cong [of "m_cpu m'" "m_cpu m"] bus_keep_cpu [of m' m]
  by (simp add: keeps_def bus_step_def)

lemma gives_keeps: "gives bus_step m x \<Longrightarrow> gives keeps m x"
  by (auto simp: gives_def okR_iff keeps_bus_step)

lemma moves_keeps: "moves bus_step m x \<Longrightarrow> moves keeps m x"
  by (auto simp: moves_def okR_iff keeps_bus_step)

lemma keeps_cpu: "cpu_ok c' \<or> \<not> cpu_ok (m_cpu m) \<Longrightarrow> steps c' = steps (m_cpu m) \<Longrightarrow> keeps m (m\<lparr>m_cpu := c'\<rparr>)"
  by (auto simp: keeps_def layout_def)

lemma satp_legal_upd [simp]:
  "satp_legal (c\<lparr>privilege := p\<rparr>) = satp_legal c" "satp_legal (c\<lparr>pc := a\<rparr>) = satp_legal c"
  "satp_legal (c\<lparr>regs := r\<rparr>) = satp_legal c" "satp_legal (c\<lparr>fregs := r\<rparr>) = satp_legal c"
  "satp_legal (c\<lparr>fcsr := f\<rparr>) = satp_legal c" "satp_legal (c\<lparr>halted := h\<rparr>) = satp_legal c"
  "satp_legal (c\<lparr>steps := s\<rparr>) = satp_legal c"
  by (simp_all add: satp_legal_def)

lemma cpu_ok_trap: "cpu_ok c \<Longrightarrow> cpu_ok (cpu_trap c cause tval)"
  by (simp add: cpu_ok_def cpu_trap_def Let_def satp_legal_write)

lemma cpu_trap_steps [simp]: "steps (cpu_trap c cause tval) = steps c"
  by (simp add: cpu_trap_def Let_def)

lemma keeps_trap [simp]: "keeps m (trap_machine m cause tval)"
  using cpu_ok_trap by (auto simp: trap_machine_def intro!: keeps_cpu)

lemma mem_reads_keeps [intro, simp]:
  "gives keeps m (mem_read8 m a)" "gives keeps m (mem_read16 m a)"
  "gives keeps m (mem_read32 m a)" "gives keeps m (mem_read64 m a)"
  by (simp_all add: gives_keeps)

lemma mmu_walk_keeps: "gives keeps m (mmu_walk level m va ppn)"
  by (induction level arbitrary: m ppn) (auto simp: Let_def intro!: kp.gives_bind)

context notifier
begin

lemma mem_writes_keeps [intro, simp]:
  "moves keeps m (mem_write8 notify m a v8)" "moves keeps m (mem_write16 notify m a v16)"
  "moves keeps m (mem_write32 notify m a v32)" "moves keeps m (mem_write64 notify m a v64)"
  by (simp_all add: moves_keeps)

lemma mmu_translate_keeps [intro, simp]: "gives keeps m (mmu_translate notify m va acc)"
  by (auto simp: mmu_translate_def Let_def intro!: kp.gives_bind kp.moves_gives mmu_walk_keeps split: option.split)

lemma vm_read_keeps: "(\<And>m a. gives keeps m (rd m a)) \<Longrightarrow> gives keeps m (vm_read notify rd m va)"
  by (auto simp: vm_read_def intro!: kp.gives_bind)

lemma vm_write_keeps: "(\<And>m a v. moves keeps m (wr m a v)) \<Longrightarrow> gives keeps m (vm_write notify wr m va v)"
  by (auto simp: vm_write_def intro!: kp.gives_bind kp.moves_gives)

lemma vm_keeps [intro, simp]:
  "gives keeps m (vm_read8 notify m va)" "gives keeps m (vm_read16 notify m va)"
  "gives keeps m (vm_read32 notify m va)" "gives keeps m (vm_read64 notify m va)"
  "gives keeps m (vm_write8 notify m va v8)" "gives keeps m (vm_write16 notify m va v16)"
  "gives keeps m (vm_write32 notify m va v32)" "gives keeps m (vm_write64 notify m va v64)"
  by (auto simp: vm_read8_def vm_read16_def vm_read32_def vm_read64_def vm_write8_def vm_write16_def
      vm_write32_def vm_write64_def intro!: vm_read_keeps vm_write_keeps)

end

text \<open>C39: A virtual load or store that answers "fault" has not always taken the trap its header
  promises: without translation the highest address is its own fault value, and the access
  is dropped with the whole machine unchanged, the program counter included.\<close>

theorem fault_without_trap:
  assumes "\<not> mmu_active (m_cpu m)"
  shows "vm_read8 notify m MMU_FAULT = Inr (None, m) \<and> vm_write8 notify m MMU_FAULT v = Inr (False, m)"
  using assms by (simp_all add: vm_read8_def vm_read_def vm_write8_def vm_write_def mmu_translate_def)

theorem fault_without_trap_witness:
  "vm_write8 (\<lambda>i m. Inr m) example_machine MMU_FAULT 1 = Inr (False, example_machine)"
proof -
  have "\<not> mmu_active (m_cpu example_machine)"
    by (simp add: mmu_active_def example_machine_def cpu_zero_def)
  from fault_without_trap [OF this] show ?thesis by blast
qed

end
