(* ===== verification/Decode.thy ===== *)
theory Decode
  imports Prelude
begin

text \<open>
  Instructions: the opcode tables of \<^verbatim>\<open>include/opcodes.h\<close>, the decoded instruction of
  \<^verbatim>\<open>include/exec.h\<close> and the decoder of the 32-bit formats in \<^verbatim>\<open>src/cpu.c\<close>.  The signed
  immediate is kept as its 64 bits.  The encoders at the end are the formats of the
  architecture; decoding is proved to invert them.
\<close>

section \<open>Opcodes (include/opcodes.h)\<close>

abbreviation (input) OP_LUI :: u32 where "OP_LUI \<equiv> 0x37"
abbreviation (input) OP_AUIPC :: u32 where "OP_AUIPC \<equiv> 0x17"
abbreviation (input) OP_JAL :: u32 where "OP_JAL \<equiv> 0x6F"
abbreviation (input) OP_JALR :: u32 where "OP_JALR \<equiv> 0x67"
abbreviation (input) OP_BRANCH :: u32 where "OP_BRANCH \<equiv> 0x63"
abbreviation (input) OP_LOAD :: u32 where "OP_LOAD \<equiv> 0x03"
abbreviation (input) OP_STORE :: u32 where "OP_STORE \<equiv> 0x23"
abbreviation (input) OP_I_ARITH :: u32 where "OP_I_ARITH \<equiv> 0x13"
abbreviation (input) OP_R_ARITH :: u32 where "OP_R_ARITH \<equiv> 0x33"
abbreviation (input) OP_I_ARITH_W :: u32 where "OP_I_ARITH_W \<equiv> 0x1B"
abbreviation (input) OP_R_ARITH_W :: u32 where "OP_R_ARITH_W \<equiv> 0x3B"
abbreviation (input) OP_SYSTEM :: u32 where "OP_SYSTEM \<equiv> 0x73"
abbreviation (input) OP_FENCE :: u32 where "OP_FENCE \<equiv> 0x0F"
abbreviation (input) OP_AMO :: u32 where "OP_AMO \<equiv> 0x2F"
abbreviation (input) OP_FLW_FLD :: u32 where "OP_FLW_FLD \<equiv> 0x07"
abbreviation (input) OP_FSW_FSD :: u32 where "OP_FSW_FSD \<equiv> 0x27"
abbreviation (input) OP_FMADD :: u32 where "OP_FMADD \<equiv> 0x43"
abbreviation (input) OP_FMSUB :: u32 where "OP_FMSUB \<equiv> 0x47"
abbreviation (input) OP_FNMSUB :: u32 where "OP_FNMSUB \<equiv> 0x4B"
abbreviation (input) OP_FNMADD :: u32 where "OP_FNMADD \<equiv> 0x4F"
abbreviation (input) OP_FP :: u32 where "OP_FP \<equiv> 0x53"

abbreviation (input) SYSTEM_ECALL :: u64 where "SYSTEM_ECALL \<equiv> 0x000"
abbreviation (input) SYSTEM_EBREAK :: u64 where "SYSTEM_EBREAK \<equiv> 0x001"
abbreviation (input) SYSTEM_WFI :: u64 where "SYSTEM_WFI \<equiv> 0x105"
abbreviation (input) SYSTEM_SRET :: u64 where "SYSTEM_SRET \<equiv> 0x102"
abbreviation (input) SYSTEM_MRET :: u64 where "SYSTEM_MRET \<equiv> 0x302"
abbreviation (input) SYSTEM_FUNCT7_SFENCE_VMA :: u32 where "SYSTEM_FUNCT7_SFENCE_VMA \<equiv> 0x09"

abbreviation (input) F3_BEQ :: u32 where "F3_BEQ \<equiv> 0"
abbreviation (input) F3_BNE :: u32 where "F3_BNE \<equiv> 1"
abbreviation (input) F3_BLT :: u32 where "F3_BLT \<equiv> 4"
abbreviation (input) F3_BGE :: u32 where "F3_BGE \<equiv> 5"
abbreviation (input) F3_BLTU :: u32 where "F3_BLTU \<equiv> 6"
abbreviation (input) F3_BGEU :: u32 where "F3_BGEU \<equiv> 7"
abbreviation (input) F3_LB :: u32 where "F3_LB \<equiv> 0"
abbreviation (input) F3_LH :: u32 where "F3_LH \<equiv> 1"
abbreviation (input) F3_LW :: u32 where "F3_LW \<equiv> 2"
abbreviation (input) F3_LD :: u32 where "F3_LD \<equiv> 3"
abbreviation (input) F3_LBU :: u32 where "F3_LBU \<equiv> 4"
abbreviation (input) F3_LHU :: u32 where "F3_LHU \<equiv> 5"
abbreviation (input) F3_LWU :: u32 where "F3_LWU \<equiv> 6"
abbreviation (input) F3_SB :: u32 where "F3_SB \<equiv> 0"
abbreviation (input) F3_SH :: u32 where "F3_SH \<equiv> 1"
abbreviation (input) F3_SW :: u32 where "F3_SW \<equiv> 2"
abbreviation (input) F3_SD :: u32 where "F3_SD \<equiv> 3"
abbreviation (input) F3_ADD_SUB :: u32 where "F3_ADD_SUB \<equiv> 0"
abbreviation (input) F3_SLL :: u32 where "F3_SLL \<equiv> 1"
abbreviation (input) F3_SLT :: u32 where "F3_SLT \<equiv> 2"
abbreviation (input) F3_SLTU :: u32 where "F3_SLTU \<equiv> 3"
abbreviation (input) F3_XOR :: u32 where "F3_XOR \<equiv> 4"
abbreviation (input) F3_SRL_SRA :: u32 where "F3_SRL_SRA \<equiv> 5"
abbreviation (input) F3_OR :: u32 where "F3_OR \<equiv> 6"
abbreviation (input) F3_AND :: u32 where "F3_AND \<equiv> 7"
abbreviation (input) F7_ALT :: u32 where "F7_ALT \<equiv> 0x20"
abbreviation (input) F7_MEXT :: u32 where "F7_MEXT \<equiv> 0x01"
abbreviation (input) F3_MUL :: u32 where "F3_MUL \<equiv> 0"
abbreviation (input) F3_MULH :: u32 where "F3_MULH \<equiv> 1"
abbreviation (input) F3_MULHSU :: u32 where "F3_MULHSU \<equiv> 2"
abbreviation (input) F3_MULHU :: u32 where "F3_MULHU \<equiv> 3"
abbreviation (input) F3_DIV :: u32 where "F3_DIV \<equiv> 4"
abbreviation (input) F3_DIVU :: u32 where "F3_DIVU \<equiv> 5"
abbreviation (input) F3_REM :: u32 where "F3_REM \<equiv> 6"
abbreviation (input) F3_REMU :: u32 where "F3_REMU \<equiv> 7"
abbreviation (input) F3_FLW_FSW :: u32 where "F3_FLW_FSW \<equiv> 2"
abbreviation (input) F3_FLD_FSD :: u32 where "F3_FLD_FSD \<equiv> 3"
abbreviation (input) F5_FADD :: u32 where "F5_FADD \<equiv> 0x00"
abbreviation (input) F5_FSUB :: u32 where "F5_FSUB \<equiv> 0x01"
abbreviation (input) F5_FMUL :: u32 where "F5_FMUL \<equiv> 0x02"
abbreviation (input) F5_FDIV :: u32 where "F5_FDIV \<equiv> 0x03"
abbreviation (input) F5_FSQRT :: u32 where "F5_FSQRT \<equiv> 0x0B"
abbreviation (input) F5_FSGNJ :: u32 where "F5_FSGNJ \<equiv> 0x04"
abbreviation (input) F5_FMINMAX :: u32 where "F5_FMINMAX \<equiv> 0x05"
abbreviation (input) F5_FCVT_FF :: u32 where "F5_FCVT_FF \<equiv> 0x08"
abbreviation (input) F5_FCVT_FI :: u32 where "F5_FCVT_FI \<equiv> 0x18"
abbreviation (input) F5_FCVT_IF :: u32 where "F5_FCVT_IF \<equiv> 0x1A"
abbreviation (input) F5_FMV_XI :: u32 where "F5_FMV_XI \<equiv> 0x1C"
abbreviation (input) F5_FCMP :: u32 where "F5_FCMP \<equiv> 0x14"
abbreviation (input) F5_FMV_IX :: u32 where "F5_FMV_IX \<equiv> 0x1E"
abbreviation (input) F3_FEQ :: u32 where "F3_FEQ \<equiv> 2"
abbreviation (input) F3_FLT :: u32 where "F3_FLT \<equiv> 1"
abbreviation (input) F3_FLE :: u32 where "F3_FLE \<equiv> 0"
abbreviation (input) F3_FSGNJ :: u32 where "F3_FSGNJ \<equiv> 0"
abbreviation (input) F3_FSGNJN :: u32 where "F3_FSGNJN \<equiv> 1"
abbreviation (input) F3_FSGNJX :: u32 where "F3_FSGNJX \<equiv> 2"
abbreviation (input) F3_FMIN :: u32 where "F3_FMIN \<equiv> 0"
abbreviation (input) FMT_SINGLE :: u32 where "FMT_SINGLE \<equiv> 0"
abbreviation (input) F5_LR :: u32 where "F5_LR \<equiv> 0x02"
abbreviation (input) F5_SC :: u32 where "F5_SC \<equiv> 0x03"
abbreviation (input) F5_AMOSWAP :: u32 where "F5_AMOSWAP \<equiv> 0x01"
abbreviation (input) F5_AMOADD :: u32 where "F5_AMOADD \<equiv> 0x00"
abbreviation (input) F5_AMOXOR :: u32 where "F5_AMOXOR \<equiv> 0x04"
abbreviation (input) F5_AMOAND :: u32 where "F5_AMOAND \<equiv> 0x0C"
abbreviation (input) F5_AMOOR :: u32 where "F5_AMOOR \<equiv> 0x08"
abbreviation (input) F5_AMOMIN :: u32 where "F5_AMOMIN \<equiv> 0x10"
abbreviation (input) F5_AMOMAX :: u32 where "F5_AMOMAX \<equiv> 0x14"
abbreviation (input) F5_AMOMINU :: u32 where "F5_AMOMINU \<equiv> 0x18"
abbreviation (input) F5_AMOMAXU :: u32 where "F5_AMOMAXU \<equiv> 0x1C"
abbreviation (input) F3_AMO_W :: u32 where "F3_AMO_W \<equiv> 2"

section \<open>Decoded instructions\<close>

record instruction =
  opcode :: u32
  i_rd :: u32
  i_rs1 :: u32
  i_rs2 :: u32
  funct3 :: u32
  funct7 :: u32
  imm :: u64
  isize :: u32

definition sign_extend :: "u64 \<Rightarrow> nat \<Rightarrow> u64" where
  "sign_extend val n = sext64 val n"

definition decode_imm :: "u32 \<Rightarrow> u32 \<Rightarrow> u64" where
  "decode_imm op raw =
     (if op \<in> {OP_JALR, OP_LOAD, OP_FLW_FLD, OP_I_ARITH, OP_I_ARITH_W, OP_SYSTEM} then
        sign_extend (ucast (drop_bit 20 raw)) 12
      else if op \<in> {OP_STORE, OP_FSW_FSD} then
        sign_extend (ucast (push_bit 5 (drop_bit 25 raw) OR (drop_bit 7 raw AND 0x1F))) 12
      else if op = OP_BRANCH then
        sign_extend (ucast (push_bit 12 (drop_bit 31 raw) OR push_bit 11 (drop_bit 7 raw AND 1) OR
                            push_bit 5 (drop_bit 25 raw AND 0x3F) OR push_bit 1 (drop_bit 8 raw AND 0xF))) 13
      else if op \<in> {OP_LUI, OP_AUIPC} then sign_extend (ucast (raw AND 0xFFFFF000)) 32
      else if op = OP_JAL then
        sign_extend (ucast (push_bit 20 (drop_bit 31 raw) OR push_bit 12 (drop_bit 12 raw AND 0xFF) OR
                            push_bit 11 (drop_bit 20 raw AND 1) OR push_bit 1 (drop_bit 21 raw AND 0x3FF))) 21
      else 0)"

definition decode :: "u32 \<Rightarrow> instruction" where
  "decode raw =
     \<lparr>opcode = raw AND 0x7F,
      i_rd = drop_bit 7 raw AND 0x1F,
      i_rs1 = drop_bit 15 raw AND 0x1F,
      i_rs2 = drop_bit 20 raw AND 0x1F,
      funct3 = drop_bit 12 raw AND 0x07,
      funct7 = drop_bit 25 raw AND 0x7F,
      imm = decode_imm (raw AND 0x7F) raw,
      isize = 4\<rparr>"

section \<open>Indices stay inside the register files\<close>

text \<open>The decoded register numbers index arrays of 32 entries.\<close>

definition instruction_ok :: "instruction \<Rightarrow> bool" where
  "instruction_ok i \<longleftrightarrow> i_rd i < 32 \<and> i_rs1 i < 32 \<and> i_rs2 i < 32 \<and> funct3 i < 8 \<and> funct7 i < 128 \<and>
     (isize i = 2 \<or> isize i = 4)"

lemma and_mask_less: "(w :: u32) AND 0x1F < 32" "w AND 0x07 < 8" "w AND 0x7F < 128"
  using and_mask_less' [of 5 w] and_mask_less' [of 3 w] and_mask_less' [of 7 w] by (simp_all add: mask_eq_exp_minus_1)

lemma decode_ok: "instruction_ok (decode raw)"
  by (simp add: instruction_ok_def decode_def and_mask_less)

section \<open>The formats of the architecture\<close>

text \<open>\<open>field x lo n at\<close>: bits \<open>lo .. lo+n-1\<close> of \<open>x\<close>, placed at bit \<open>at\<close> of the instruction.\<close>

definition field :: "'a::len word \<Rightarrow> nat \<Rightarrow> nat \<Rightarrow> nat \<Rightarrow> u32" where
  "field x lo n at = push_bit at (take_bit n (ucast (drop_bit lo x)))"

definition encode_I :: "u32 \<Rightarrow> u32 \<Rightarrow> u32 \<Rightarrow> u32 \<Rightarrow> u64 \<Rightarrow> u32" where
  "encode_I op rd f3 rs1 v = field op 0 7 0 OR field rd 0 5 7 OR field f3 0 3 12 OR field rs1 0 5 15 OR field v 0 12 20"

definition encode_S :: "u32 \<Rightarrow> u32 \<Rightarrow> u32 \<Rightarrow> u32 \<Rightarrow> u64 \<Rightarrow> u32" where
  "encode_S op f3 rs1 rs2 v = field op 0 7 0 OR field v 0 5 7 OR field f3 0 3 12 OR field rs1 0 5 15 OR
     field rs2 0 5 20 OR field v 5 7 25"

definition encode_B :: "u32 \<Rightarrow> u32 \<Rightarrow> u32 \<Rightarrow> u32 \<Rightarrow> u64 \<Rightarrow> u32" where
  "encode_B op f3 rs1 rs2 v = field op 0 7 0 OR field v 11 1 7 OR field v 1 4 8 OR field f3 0 3 12 OR
     field rs1 0 5 15 OR field rs2 0 5 20 OR field v 5 6 25 OR field v 12 1 31"

definition encode_U :: "u32 \<Rightarrow> u32 \<Rightarrow> u64 \<Rightarrow> u32" where
  "encode_U op rd v = field op 0 7 0 OR field rd 0 5 7 OR field v 12 20 12"

definition encode_J :: "u32 \<Rightarrow> u32 \<Rightarrow> u64 \<Rightarrow> u32" where
  "encode_J op rd v = field op 0 7 0 OR field rd 0 5 7 OR field v 12 8 12 OR field v 11 1 20 OR
     field v 1 10 21 OR field v 20 1 31"

definition encode_R :: "u32 \<Rightarrow> u32 \<Rightarrow> u32 \<Rightarrow> u32 \<Rightarrow> u32 \<Rightarrow> u32 \<Rightarrow> u32" where
  "encode_R op rd f3 rs1 rs2 f7 = field op 0 7 0 OR field rd 0 5 7 OR field f3 0 3 12 OR field rs1 0 5 15 OR
     field rs2 0 5 20 OR field f7 0 7 25"

lemma bit_field: "bit (field (x :: 'a::len word) lo n at) k \<longleftrightarrow> at \<le> k \<and> k < at + n \<and> k < 32 \<and> bit x (lo + (k - at))"
  by (auto simp: field_def bit_simps dest: bit_imp_le_length)

lemmas encode_defs = encode_I_def encode_S_def encode_B_def encode_U_def encode_J_def encode_R_def

lemma low_mask: "w AND 0x7F = take_bit 7 (w :: u32)" "w AND 0x1F = take_bit 5 w" "w AND 0x07 = take_bit 3 w"
  "w AND 1 = take_bit 1 w" "w AND 0x3F = take_bit 6 w" "w AND 0xF = take_bit 4 w" "w AND 0xFF = take_bit 8 w"
  "w AND 0x3FF = take_bit 10 w"
  by (simp_all add: take_bit_eq_mask mask_eq_exp_minus_1)

lemma small: "x < 2 ^ n \<Longrightarrow> take_bit n x = (x :: u32)"
  by (metis and_mask_less' less_mask_eq take_bit_eq_mask)

lemma take_eq: "(\<And>k. k < n \<Longrightarrow> bit y k \<longleftrightarrow> bit x k) \<Longrightarrow> take_bit n y = take_bit n (x :: u32)"
  by (rule bit_word_eqI) (auto simp: bit_simps)

lemma encode_fields:
  "take_bit 7 (encode_I op rd f3 rs1 v) = take_bit 7 op" "take_bit 7 (encode_S op f3 rs1 rs2 v) = take_bit 7 op"
  "take_bit 7 (encode_B op f3 rs1 rs2 v) = take_bit 7 op" "take_bit 7 (encode_U op rd v) = take_bit 7 op"
  "take_bit 7 (encode_J op rd v) = take_bit 7 op" "take_bit 7 (encode_R op rd f3 rs1 rs2 f7) = take_bit 7 op"
  by (rule take_eq; auto simp: encode_defs bit_simps bit_field)+

lemma encode_registers:
  "take_bit 5 (drop_bit 7 (encode_I op rd f3 rs1 v)) = take_bit 5 rd"
  "take_bit 3 (drop_bit 12 (encode_I op rd f3 rs1 v)) = take_bit 3 f3"
  "take_bit 5 (drop_bit 15 (encode_I op rd f3 rs1 v)) = take_bit 5 rs1"
  "take_bit 3 (drop_bit 12 (encode_S op f3 rs1 rs2 v)) = take_bit 3 f3"
  "take_bit 5 (drop_bit 15 (encode_S op f3 rs1 rs2 v)) = take_bit 5 rs1"
  "take_bit 5 (drop_bit 20 (encode_S op f3 rs1 rs2 v)) = take_bit 5 rs2"
  "take_bit 3 (drop_bit 12 (encode_B op f3 rs1 rs2 v)) = take_bit 3 f3"
  "take_bit 5 (drop_bit 15 (encode_B op f3 rs1 rs2 v)) = take_bit 5 rs1"
  "take_bit 5 (drop_bit 20 (encode_B op f3 rs1 rs2 v)) = take_bit 5 rs2"
  "take_bit 5 (drop_bit 7 (encode_U op rd v)) = take_bit 5 rd"
  "take_bit 5 (drop_bit 7 (encode_J op rd v)) = take_bit 5 rd"
  by (rule take_eq; auto simp: encode_defs bit_simps bit_field)+

lemma encode_R_registers:
  "take_bit 5 (drop_bit 7 (encode_R op rd f3 rs1 rs2 f7)) = take_bit 5 rd"
  "take_bit 3 (drop_bit 12 (encode_R op rd f3 rs1 rs2 f7)) = take_bit 3 f3"
  "take_bit 5 (drop_bit 15 (encode_R op rd f3 rs1 rs2 f7)) = take_bit 5 rs1"
  "take_bit 5 (drop_bit 20 (encode_R op rd f3 rs1 rs2 f7)) = take_bit 5 rs2"
  "take_bit 7 (drop_bit 25 (encode_R op rd f3 rs1 rs2 f7)) = take_bit 7 f7"
  by (rule take_eq; auto simp: encode_defs bit_simps bit_field)+

lemma sext64_eq:
  assumes "0 < n" "n \<le> 64" "\<And>k. k < n \<Longrightarrow> bit w k \<longleftrightarrow> bit v k"
  shows "sext64 w n = sext64 v n"
  by (rule bit_word_eqI) (use assms in \<open>auto simp: bit_sext64\<close>)

lemma encode_I_imm: "sext64 (ucast (drop_bit 20 (encode_I op rd f3 rs1 v))) 12 = sext64 v 12"
  by (rule sext64_eq) (auto simp: encode_defs bit_simps bit_field)

lemma encode_S_imm:
  "sext64 (ucast (push_bit 5 (drop_bit 25 (encode_S op f3 rs1 rs2 v)) OR
     take_bit 5 (drop_bit 7 (encode_S op f3 rs1 rs2 v)))) 12 = sext64 v 12"
  by (rule sext64_eq) (auto simp: encode_defs bit_simps bit_field)

lemma encode_U_imm: "sext64 (ucast (push_bit 12 (drop_bit 12 (encode_U op rd v)))) 32 = sext64 (push_bit 12 (drop_bit 12 v)) 32"
  by (rule sext64_eq) (auto simp: encode_defs bit_simps bit_field)

lemmas field_bits = bit_or_iff bit_push_bit_iff bit_drop_bit_eq comp_def bit_take_bit_iff bit_unsigned_iff bit_field

lemma encode_B_imm:
  assumes "\<not> bit v 0"
  shows "sext64 (ucast (push_bit 12 (drop_bit 31 (encode_B op f3 rs1 rs2 v)) OR
      push_bit 11 (take_bit 1 (drop_bit 7 (encode_B op f3 rs1 rs2 v))) OR
      push_bit 5 (take_bit 6 (drop_bit 25 (encode_B op f3 rs1 rs2 v))) OR
      push_bit 1 (take_bit 4 (drop_bit 8 (encode_B op f3 rs1 rs2 v))))) 13 = sext64 v 13"
proof (rule sext64_eq)
  fix k :: nat
  assume "k < 13"
  then have "k = 0 \<or> (1 \<le> k \<and> k < 5) \<or> (5 \<le> k \<and> k < 11) \<or> k = 11 \<or> k = 12" by auto
  with assms show "bit (ucast (push_bit 12 (drop_bit 31 (encode_B op f3 rs1 rs2 v)) OR
      push_bit 11 (take_bit 1 (drop_bit 7 (encode_B op f3 rs1 rs2 v))) OR
      push_bit 5 (take_bit 6 (drop_bit 25 (encode_B op f3 rs1 rs2 v))) OR
      push_bit 1 (take_bit 4 (drop_bit 8 (encode_B op f3 rs1 rs2 v)))) :: u64) k = bit v k"
    unfolding encode_defs field_bits by (elim disjE) auto
qed simp_all

lemma encode_J_imm:
  assumes "\<not> bit v 0"
  shows "sext64 (ucast (push_bit 20 (drop_bit 31 (encode_J op rd v)) OR
      push_bit 12 (take_bit 8 (drop_bit 12 (encode_J op rd v))) OR
      push_bit 11 (take_bit 1 (drop_bit 20 (encode_J op rd v))) OR
      push_bit 1 (take_bit 10 (drop_bit 21 (encode_J op rd v))))) 21 = sext64 v 21"
proof (rule sext64_eq)
  fix k :: nat
  assume "k < 21"
  then have "k = 0 \<or> (1 \<le> k \<and> k < 11) \<or> k = 11 \<or> (12 \<le> k \<and> k < 20) \<or> k = 20" by auto
  with assms show "bit (ucast (push_bit 20 (drop_bit 31 (encode_J op rd v)) OR
      push_bit 12 (take_bit 8 (drop_bit 12 (encode_J op rd v))) OR
      push_bit 11 (take_bit 1 (drop_bit 20 (encode_J op rd v))) OR
      push_bit 1 (take_bit 10 (drop_bit 21 (encode_J op rd v)))) :: u64) k = bit v k"
    unfolding encode_defs field_bits by (elim disjE) auto
qed simp_all

lemma high_mask: "raw AND 0xFFFFF000 = push_bit 12 (drop_bit 12 (raw :: u32))"
proof -
  have eq: "(0xFFFFF000 :: u32) = push_bit 12 (mask 20)" by (simp add: mask_eq_exp_minus_1)
  show ?thesis unfolding eq by (rule bit_word_eqI) (auto simp: bit_and_iff bit_push_bit_iff bit_mask_iff bit_drop_bit_eq)
qed

lemmas decode_simps = decode_def decode_imm_def sign_extend_def low_mask high_mask Let_def encode_fields
  encode_registers encode_R_registers encode_I_imm encode_S_imm encode_B_imm encode_U_imm encode_J_imm

lemma opcode_take:
  "op \<in> {OP_JALR, OP_LOAD, OP_FLW_FLD, OP_I_ARITH, OP_I_ARITH_W, OP_SYSTEM} \<Longrightarrow> take_bit 7 op = op"
  "op \<in> {OP_STORE, OP_FSW_FSD} \<Longrightarrow> take_bit 7 op = op" "op \<in> {OP_LUI, OP_AUIPC} \<Longrightarrow> take_bit 7 op = op"
  "take_bit 7 OP_BRANCH = OP_BRANCH" "take_bit 7 OP_JAL = OP_JAL"
  "op \<in> {OP_R_ARITH, OP_R_ARITH_W, OP_AMO, OP_FP} \<Longrightarrow> take_bit 7 op = op"
  by (auto simp: take_bit_eq_mask mask_eq_exp_minus_1)

text \<open>C9: Decoding inverts the encodings of the architecture, scrambled immediates included: for
  every opcode of the format, registers below 32, function code below 8, and an immediate the
  format can carry (a sign-extended 12-bit value; an even 13- or 21-bit value; a sign-extended
  32-bit value with 12 low zeros), the decoded fields are the encoded ones; the register format
  (arithmetic, atomics, floating point) keeps its seven function bits too.\<close>

theorem decode_encode:
  assumes "rd < 32" and "rs1 < 32" and "rs2 < 32" and "f3 < 8" and "f7 < 128"
  shows "(op \<in> {OP_JALR, OP_LOAD, OP_FLW_FLD, OP_I_ARITH, OP_I_ARITH_W, OP_SYSTEM} \<longrightarrow> sext64 v 12 = v \<longrightarrow>
          (let i = decode (encode_I op rd f3 rs1 v) in
            opcode i = op \<and> i_rd i = rd \<and> funct3 i = f3 \<and> i_rs1 i = rs1 \<and> imm i = v)) \<and>
        (op \<in> {OP_STORE, OP_FSW_FSD} \<longrightarrow> sext64 v 12 = v \<longrightarrow>
          (let i = decode (encode_S op f3 rs1 rs2 v) in
            opcode i = op \<and> funct3 i = f3 \<and> i_rs1 i = rs1 \<and> i_rs2 i = rs2 \<and> imm i = v)) \<and>
        (sext64 v 13 = v \<longrightarrow> \<not> bit v 0 \<longrightarrow>
          (let i = decode (encode_B OP_BRANCH f3 rs1 rs2 v) in
            opcode i = OP_BRANCH \<and> funct3 i = f3 \<and> i_rs1 i = rs1 \<and> i_rs2 i = rs2 \<and> imm i = v)) \<and>
        (op \<in> {OP_LUI, OP_AUIPC} \<longrightarrow> sext64 v 32 = v \<longrightarrow> push_bit 12 (drop_bit 12 v) = v \<longrightarrow>
          (let i = decode (encode_U op rd v) in opcode i = op \<and> i_rd i = rd \<and> imm i = v)) \<and>
        (sext64 v 21 = v \<longrightarrow> \<not> bit v 0 \<longrightarrow>
          (let i = decode (encode_J OP_JAL rd v) in opcode i = OP_JAL \<and> i_rd i = rd \<and> imm i = v)) \<and>
        (op \<in> {OP_R_ARITH, OP_R_ARITH_W, OP_AMO, OP_FP} \<longrightarrow>
          (let i = decode (encode_R op rd f3 rs1 rs2 f7) in
            opcode i = op \<and> i_rd i = rd \<and> funct3 i = f3 \<and> i_rs1 i = rs1 \<and> i_rs2 i = rs2 \<and> funct7 i = f7))"
proof (intro conjI impI)
  note t = small [of rd 5, simplified, OF assms(1)] small [of rs1 5, simplified, OF assms(2)]
    small [of rs2 5, simplified, OF assms(3)] small [of f3 3, simplified, OF assms(4)]
    small [of f7 7, simplified, OF assms(5)]
  show "op \<in> {OP_JALR, OP_LOAD, OP_FLW_FLD, OP_I_ARITH, OP_I_ARITH_W, OP_SYSTEM} \<Longrightarrow> sext64 v 12 = v \<Longrightarrow>
      let i = decode (encode_I op rd f3 rs1 v) in
        opcode i = op \<and> i_rd i = rd \<and> funct3 i = f3 \<and> i_rs1 i = rs1 \<and> imm i = v"
    using opcode_take(1) [of op] by (simp add: decode_simps t)
  show "op \<in> {OP_STORE, OP_FSW_FSD} \<Longrightarrow> sext64 v 12 = v \<Longrightarrow>
      let i = decode (encode_S op f3 rs1 rs2 v) in
        opcode i = op \<and> funct3 i = f3 \<and> i_rs1 i = rs1 \<and> i_rs2 i = rs2 \<and> imm i = v"
    using opcode_take(2) [of op] by (auto simp: decode_simps t)
  show "sext64 v 13 = v \<Longrightarrow> \<not> bit v 0 \<Longrightarrow> let i = decode (encode_B OP_BRANCH f3 rs1 rs2 v) in
      opcode i = OP_BRANCH \<and> funct3 i = f3 \<and> i_rs1 i = rs1 \<and> i_rs2 i = rs2 \<and> imm i = v"
    using encode_B_imm [of v OP_BRANCH f3 rs1 rs2] by (simp add: decode_simps t opcode_take)
  show "op \<in> {OP_LUI, OP_AUIPC} \<Longrightarrow> sext64 v 32 = v \<Longrightarrow> push_bit 12 (drop_bit 12 v) = v \<Longrightarrow>
      let i = decode (encode_U op rd v) in opcode i = op \<and> i_rd i = rd \<and> imm i = v"
    using opcode_take(3) [of op] by (auto simp: decode_simps t)
  show "sext64 v 21 = v \<Longrightarrow> \<not> bit v 0 \<Longrightarrow>
      let i = decode (encode_J OP_JAL rd v) in opcode i = OP_JAL \<and> i_rd i = rd \<and> imm i = v"
    using encode_J_imm [of v OP_JAL rd] by (simp add: decode_simps t opcode_take)
  show "op \<in> {OP_R_ARITH, OP_R_ARITH_W, OP_AMO, OP_FP} \<Longrightarrow> let i = decode (encode_R op rd f3 rs1 rs2 f7) in
      opcode i = op \<and> i_rd i = rd \<and> funct3 i = f3 \<and> i_rs1 i = rs1 \<and> i_rs2 i = rs2 \<and> funct7 i = f7"
    using opcode_take(6) [of op] by (simp add: decode_simps t)
qed

theorem decode_encode_witness:
  "imm (decode (encode_B OP_BRANCH F3_BNE 10 11 (- 4096))) = - 4096 \<and>
   imm (decode (encode_J OP_JAL 1 0xFFFFE)) = 0xFFFFE \<and>
   funct7 (decode (encode_R OP_R_ARITH 10 F3_ADD_SUB 11 12 F7_ALT)) = F7_ALT"
proof -
  have "sext64 (- 4096) 13 = - 4096" "sext64 0xFFFFE 21 = 0xFFFFE" by (simp_all add: sext64_def)
  then show ?thesis
    using decode_encode [of 1 10 11 F3_BNE 0 OP_BRANCH "- 4096"] decode_encode [of 1 10 11 F3_BNE 0 OP_JAL "0xFFFFE"]
      decode_encode [of 10 11 12 F3_ADD_SUB F7_ALT OP_R_ARITH]
    by (simp add: Let_def)
qed

end
