(* ===== verification/Decode_C.thy ===== *)
theory Decode_C
  imports Decode Cpu
begin

text \<open>
  The compressed instructions (\<^verbatim>\<open>src/exec_c.c\<close>): every 16-bit instruction is translated to a
  decoded instruction of the base set.  Fields are read from the instruction widened to the
  type of the result, as the integer promotions of C do.
\<close>

abbreviation (input) RVC_Q0 :: u32 where "RVC_Q0 \<equiv> 0"
abbreviation (input) RVC_Q1 :: u32 where "RVC_Q1 \<equiv> 1"
abbreviation (input) RVC_Q2 :: u32 where "RVC_Q2 \<equiv> 2"
abbreviation (input) RVC_Q0_ADDI4SPN :: u32 where "RVC_Q0_ADDI4SPN \<equiv> 0"
abbreviation (input) RVC_Q0_FLD :: u32 where "RVC_Q0_FLD \<equiv> 1"
abbreviation (input) RVC_Q0_LW :: u32 where "RVC_Q0_LW \<equiv> 2"
abbreviation (input) RVC_Q0_LD :: u32 where "RVC_Q0_LD \<equiv> 3"
abbreviation (input) RVC_Q0_FSD :: u32 where "RVC_Q0_FSD \<equiv> 5"
abbreviation (input) RVC_Q0_SW :: u32 where "RVC_Q0_SW \<equiv> 6"
abbreviation (input) RVC_Q0_SD :: u32 where "RVC_Q0_SD \<equiv> 7"
abbreviation (input) RVC_Q1_ADDI :: u32 where "RVC_Q1_ADDI \<equiv> 0"
abbreviation (input) RVC_Q1_ADDIW :: u32 where "RVC_Q1_ADDIW \<equiv> 1"
abbreviation (input) RVC_Q1_LI :: u32 where "RVC_Q1_LI \<equiv> 2"
abbreviation (input) RVC_Q1_LUI :: u32 where "RVC_Q1_LUI \<equiv> 3"
abbreviation (input) RVC_Q1_MISC_ALU :: u32 where "RVC_Q1_MISC_ALU \<equiv> 4"
abbreviation (input) RVC_Q1_J :: u32 where "RVC_Q1_J \<equiv> 5"
abbreviation (input) RVC_Q1_BEQZ :: u32 where "RVC_Q1_BEQZ \<equiv> 6"
abbreviation (input) RVC_Q1_BNEZ :: u32 where "RVC_Q1_BNEZ \<equiv> 7"
abbreviation (input) RVC_ALU_SRLI :: u32 where "RVC_ALU_SRLI \<equiv> 0"
abbreviation (input) RVC_ALU_SRAI :: u32 where "RVC_ALU_SRAI \<equiv> 1"
abbreviation (input) RVC_ALU_ANDI :: u32 where "RVC_ALU_ANDI \<equiv> 2"
abbreviation (input) RVC_ALU_ARITH :: u32 where "RVC_ALU_ARITH \<equiv> 3"
abbreviation (input) RVC_ARITH_SUB :: u32 where "RVC_ARITH_SUB \<equiv> 0"
abbreviation (input) RVC_ARITH_XOR :: u32 where "RVC_ARITH_XOR \<equiv> 1"
abbreviation (input) RVC_ARITH_OR :: u32 where "RVC_ARITH_OR \<equiv> 2"
abbreviation (input) RVC_ARITH_AND :: u32 where "RVC_ARITH_AND \<equiv> 3"
abbreviation (input) RVC_Q2_SLLI :: u32 where "RVC_Q2_SLLI \<equiv> 0"
abbreviation (input) RVC_Q2_FLDSP :: u32 where "RVC_Q2_FLDSP \<equiv> 1"
abbreviation (input) RVC_Q2_LWSP :: u32 where "RVC_Q2_LWSP \<equiv> 2"
abbreviation (input) RVC_Q2_LDSP :: u32 where "RVC_Q2_LDSP \<equiv> 3"
abbreviation (input) RVC_Q2_CR :: u32 where "RVC_Q2_CR \<equiv> 4"
abbreviation (input) RVC_Q2_FSDSP :: u32 where "RVC_Q2_FSDSP \<equiv> 5"
abbreviation (input) RVC_Q2_SWSP :: u32 where "RVC_Q2_SWSP \<equiv> 6"
abbreviation (input) RVC_Q2_SDSP :: u32 where "RVC_Q2_SDSP \<equiv> 7"

section \<open>Fields\<close>

definition cl :: "u32 \<Rightarrow> u32" where
  "cl r = r + 8"

definition rvc_rd_s :: "u16 \<Rightarrow> u32" where
  "rvc_rd_s r = cl (drop_bit 2 (ucast r) AND 0x7)"

definition rvc_rs1_s :: "u16 \<Rightarrow> u32" where
  "rvc_rs1_s r = cl (drop_bit 7 (ucast r) AND 0x7)"

definition rvc_rd :: "u16 \<Rightarrow> u32" where
  "rvc_rd r = drop_bit 7 (ucast r) AND 0x1F"

definition rvc_rs2 :: "u16 \<Rightarrow> u32" where
  "rvc_rs2 r = drop_bit 2 (ucast r) AND 0x1F"

definition rvc_b12 :: "u16 \<Rightarrow> u32" where
  "rvc_b12 r = drop_bit 12 (ucast r) AND 0x1"

definition rvc_sub :: "u16 \<Rightarrow> u32" where
  "rvc_sub r = drop_bit 10 (ucast r) AND 0x3"

definition rvc_arith :: "u16 \<Rightarrow> u32" where
  "rvc_arith r = drop_bit 5 (ucast r) AND 0x3"

definition sext :: "u64 \<Rightarrow> nat \<Rightarrow> u64" where
  "sext val n = sext64 val n"

text \<open>The \<open>n\<close> low bits of \<open>r\<close> shifted right by \<open>s\<close>: \<^verbatim>\<open>(r >> s) & m\<close> with the mask of \<open>n\<close> ones.\<close>

definition rbits :: "u16 \<Rightarrow> nat \<Rightarrow> nat \<Rightarrow> u64" where
  "rbits r s n = drop_bit s (ucast r) AND mask n"

definition imm_ci :: "u16 \<Rightarrow> u64" where
  "imm_ci r = sext (push_bit 5 (rbits r 12 1) OR rbits r 2 5) 6"

definition imm_addi16sp :: "u16 \<Rightarrow> u64" where
  "imm_addi16sp r =
     sext (push_bit 9 (rbits r 12 1) OR push_bit 4 (rbits r 6 1) OR push_bit 6 (rbits r 5 1) OR
           push_bit 7 (rbits r 3 2) OR push_bit 5 (rbits r 2 1)) 10"

definition imm_lui :: "u16 \<Rightarrow> u64" where
  "imm_lui r = sext (push_bit 17 (rbits r 12 1) OR push_bit 12 (rbits r 2 5)) 18"

definition imm_clw :: "u16 \<Rightarrow> u64" where
  "imm_clw r = push_bit 3 (rbits r 10 3) OR push_bit 2 (rbits r 6 1) OR push_bit 6 (rbits r 5 1)"

definition imm_cld :: "u16 \<Rightarrow> u64" where
  "imm_cld r = push_bit 3 (rbits r 10 3) OR push_bit 6 (rbits r 5 2)"

definition imm_cj :: "u16 \<Rightarrow> u64" where
  "imm_cj r =
     sext (push_bit 11 (rbits r 12 1) OR push_bit 4 (rbits r 11 1) OR push_bit 8 (rbits r 9 2) OR
           push_bit 10 (rbits r 8 1) OR push_bit 6 (rbits r 7 1) OR push_bit 7 (rbits r 6 1) OR
           push_bit 1 (rbits r 3 3) OR push_bit 5 (rbits r 2 1)) 12"

definition imm_cb :: "u16 \<Rightarrow> u64" where
  "imm_cb r =
     sext (push_bit 8 (rbits r 12 1) OR push_bit 3 (rbits r 10 2) OR push_bit 6 (rbits r 5 2) OR
           push_bit 1 (rbits r 3 2) OR push_bit 5 (rbits r 2 1)) 9"

definition imm_lwsp :: "u16 \<Rightarrow> u64" where
  "imm_lwsp r = push_bit 5 (rbits r 12 1) OR push_bit 2 (rbits r 4 3) OR push_bit 6 (rbits r 2 2)"

definition imm_ldsp :: "u16 \<Rightarrow> u64" where
  "imm_ldsp r = push_bit 5 (rbits r 12 1) OR push_bit 3 (rbits r 5 2) OR push_bit 6 (rbits r 2 3)"

definition imm_swsp :: "u16 \<Rightarrow> u64" where
  "imm_swsp r = push_bit 2 (rbits r 9 4) OR push_bit 6 (rbits r 7 2)"

definition imm_sdsp :: "u16 \<Rightarrow> u64" where
  "imm_sdsp r = push_bit 3 (rbits r 10 3) OR push_bit 6 (rbits r 7 3)"

definition imm_addi4spn :: "u16 \<Rightarrow> u64" where
  "imm_addi4spn r =
     push_bit 2 (rbits r 6 1) OR push_bit 3 (rbits r 5 1) OR push_bit 4 (rbits r 11 2) OR push_bit 6 (rbits r 7 4)"

section \<open>The decoder\<close>

text \<open>\<^verbatim>\<open>Instruction inst = {.size = 2}\<close>: every other field is zero.\<close>

definition rvc_blank :: instruction where
  "rvc_blank = \<lparr>opcode = 0, i_rd = 0, i_rs1 = 0, i_rs2 = 0, funct3 = 0, funct7 = 0, imm = 0, isize = 2\<rparr>"

definition decode_rvc_q0 :: "u16 \<Rightarrow> u32 \<Rightarrow> instruction" where
  "decode_rvc_q0 r f3 =
     (if f3 = RVC_Q0_ADDI4SPN then
        rvc_blank\<lparr>opcode := OP_I_ARITH, funct3 := F3_ADD_SUB, i_rd := rvc_rd_s r, i_rs1 := REG_SP, imm := imm_addi4spn r\<rparr>
      else if f3 = RVC_Q0_FLD then
        rvc_blank\<lparr>opcode := OP_FLW_FLD, funct3 := F3_FLD_FSD, i_rd := rvc_rd_s r, i_rs1 := rvc_rs1_s r, imm := imm_cld r\<rparr>
      else if f3 = RVC_Q0_LW then
        rvc_blank\<lparr>opcode := OP_LOAD, funct3 := F3_LW, i_rd := rvc_rd_s r, i_rs1 := rvc_rs1_s r, imm := imm_clw r\<rparr>
      else if f3 = RVC_Q0_LD then
        rvc_blank\<lparr>opcode := OP_LOAD, funct3 := F3_LD, i_rd := rvc_rd_s r, i_rs1 := rvc_rs1_s r, imm := imm_cld r\<rparr>
      else if f3 = RVC_Q0_FSD then
        rvc_blank\<lparr>opcode := OP_FSW_FSD, funct3 := F3_FLD_FSD, i_rs1 := rvc_rs1_s r, i_rs2 := rvc_rd_s r, imm := imm_cld r\<rparr>
      else if f3 = RVC_Q0_SW then
        rvc_blank\<lparr>opcode := OP_STORE, funct3 := F3_SW, i_rs1 := rvc_rs1_s r, i_rs2 := rvc_rd_s r, imm := imm_clw r\<rparr>
      else if f3 = RVC_Q0_SD then
        rvc_blank\<lparr>opcode := OP_STORE, funct3 := F3_SD, i_rs1 := rvc_rs1_s r, i_rs2 := rvc_rd_s r, imm := imm_cld r\<rparr>
      else rvc_blank\<lparr>opcode := 0xFF\<rparr>)"

definition decode_rvc_arith :: "u16 \<Rightarrow> instruction" where
  "decode_rvc_arith r =
     (let rd = rvc_rs1_s r; rs2 = rvc_rd_s r in
      if rvc_b12 r = 0 then
        (let i = rvc_blank\<lparr>opcode := OP_R_ARITH, i_rd := rd, i_rs1 := rd, i_rs2 := rs2\<rparr> in
         if rvc_arith r = RVC_ARITH_SUB then i\<lparr>funct3 := F3_ADD_SUB, funct7 := F7_ALT\<rparr>
         else if rvc_arith r = RVC_ARITH_XOR then i\<lparr>funct3 := F3_XOR, funct7 := 0\<rparr>
         else if rvc_arith r = RVC_ARITH_OR then i\<lparr>funct3 := F3_OR, funct7 := 0\<rparr>
         else if rvc_arith r = RVC_ARITH_AND then i\<lparr>funct3 := F3_AND, funct7 := 0\<rparr>
         else i)
      else
        (let i = rvc_blank\<lparr>opcode := OP_R_ARITH_W, i_rd := rd, i_rs1 := rd, i_rs2 := rs2\<rparr> in
         if rvc_arith r = RVC_ARITH_SUB then i\<lparr>funct3 := F3_ADD_SUB, funct7 := F7_ALT\<rparr>
         else if rvc_arith r = RVC_ARITH_XOR then i\<lparr>funct3 := F3_ADD_SUB, funct7 := 0\<rparr>
         else i\<lparr>opcode := 0xFF\<rparr>))"

definition decode_rvc_q1 :: "u16 \<Rightarrow> u32 \<Rightarrow> instruction" where
  "decode_rvc_q1 r f3 =
     (if f3 = RVC_Q1_ADDI then
        rvc_blank\<lparr>opcode := OP_I_ARITH, funct3 := F3_ADD_SUB, i_rd := rvc_rd r, i_rs1 := rvc_rd r, imm := imm_ci r\<rparr>
      else if f3 = RVC_Q1_ADDIW then
        rvc_blank\<lparr>opcode := OP_I_ARITH_W, funct3 := F3_ADD_SUB, i_rd := rvc_rd r, i_rs1 := rvc_rd r, imm := imm_ci r\<rparr>
      else if f3 = RVC_Q1_LI then
        rvc_blank\<lparr>opcode := OP_I_ARITH, funct3 := F3_ADD_SUB, i_rd := rvc_rd r, i_rs1 := 0, imm := imm_ci r\<rparr>
      else if f3 = RVC_Q1_LUI then
        (if rvc_rd r = REG_SP then
           rvc_blank\<lparr>opcode := OP_I_ARITH, funct3 := F3_ADD_SUB, i_rd := REG_SP, i_rs1 := REG_SP, imm := imm_addi16sp r\<rparr>
         else rvc_blank\<lparr>opcode := OP_LUI, i_rd := rvc_rd r, imm := imm_lui r\<rparr>)
      else if f3 = RVC_Q1_MISC_ALU then
        (let rd = rvc_rs1_s r in
         if rvc_sub r = RVC_ALU_SRLI then
           rvc_blank\<lparr>opcode := OP_I_ARITH, funct3 := F3_SRL_SRA, funct7 := 0, i_rd := rd, i_rs1 := rd, imm := imm_ci r AND 0x3F\<rparr>
         else if rvc_sub r = RVC_ALU_SRAI then
           rvc_blank\<lparr>opcode := OP_I_ARITH, funct3 := F3_SRL_SRA, funct7 := F7_ALT, i_rd := rd, i_rs1 := rd, imm := imm_ci r AND 0x3F\<rparr>
         else if rvc_sub r = RVC_ALU_ANDI then
           rvc_blank\<lparr>opcode := OP_I_ARITH, funct3 := F3_AND, i_rd := rd, i_rs1 := rd, imm := imm_ci r\<rparr>
         else if rvc_sub r = RVC_ALU_ARITH then decode_rvc_arith r
         else rvc_blank)
      else if f3 = RVC_Q1_J then
        rvc_blank\<lparr>opcode := OP_JAL, i_rd := 0, imm := imm_cj r\<rparr>
      else if f3 = RVC_Q1_BEQZ then
        rvc_blank\<lparr>opcode := OP_BRANCH, funct3 := F3_BEQ, i_rs1 := rvc_rs1_s r, i_rs2 := 0, imm := imm_cb r\<rparr>
      else if f3 = RVC_Q1_BNEZ then
        rvc_blank\<lparr>opcode := OP_BRANCH, funct3 := F3_BNE, i_rs1 := rvc_rs1_s r, i_rs2 := 0, imm := imm_cb r\<rparr>
      else rvc_blank)"

definition decode_rvc_cr :: "u16 \<Rightarrow> instruction" where
  "decode_rvc_cr r =
     (let rs1 = rvc_rd r; rs2 = rvc_rs2 r in
      if rvc_b12 r = 0 \<and> rs2 = 0 then rvc_blank\<lparr>opcode := OP_JALR, i_rd := 0, i_rs1 := rs1, imm := 0\<rparr>
      else if rvc_b12 r = 0 then
        rvc_blank\<lparr>opcode := OP_R_ARITH, funct3 := F3_ADD_SUB, funct7 := 0, i_rd := rs1, i_rs1 := 0, i_rs2 := rs2\<rparr>
      else if rs1 = 0 \<and> rs2 = 0 then rvc_blank\<lparr>opcode := OP_SYSTEM, funct3 := 0, imm := SYSTEM_EBREAK\<rparr>
      else if rs2 = 0 then rvc_blank\<lparr>opcode := OP_JALR, i_rd := 1, i_rs1 := rs1, imm := 0\<rparr>
      else rvc_blank\<lparr>opcode := OP_R_ARITH, funct3 := F3_ADD_SUB, funct7 := 0, i_rd := rs1, i_rs1 := rs1, i_rs2 := rs2\<rparr>)"

definition decode_rvc_q2 :: "u16 \<Rightarrow> u32 \<Rightarrow> instruction" where
  "decode_rvc_q2 r f3 =
     (if f3 = RVC_Q2_SLLI then
        rvc_blank\<lparr>opcode := OP_I_ARITH, funct3 := F3_SLL, i_rd := rvc_rd r, i_rs1 := rvc_rd r,
                  imm := push_bit 5 (rbits r 12 1) OR rbits r 2 5\<rparr>
      else if f3 = RVC_Q2_FLDSP then
        rvc_blank\<lparr>opcode := OP_FLW_FLD, funct3 := F3_FLD_FSD, i_rd := rvc_rd r, i_rs1 := REG_SP, imm := imm_ldsp r\<rparr>
      else if f3 = RVC_Q2_LWSP then
        rvc_blank\<lparr>opcode := OP_LOAD, funct3 := F3_LW, i_rd := rvc_rd r, i_rs1 := REG_SP, imm := imm_lwsp r\<rparr>
      else if f3 = RVC_Q2_LDSP then
        rvc_blank\<lparr>opcode := OP_LOAD, funct3 := F3_LD, i_rd := rvc_rd r, i_rs1 := REG_SP, imm := imm_ldsp r\<rparr>
      else if f3 = RVC_Q2_CR then decode_rvc_cr r
      else if f3 = RVC_Q2_FSDSP then
        rvc_blank\<lparr>opcode := OP_FSW_FSD, funct3 := F3_FLD_FSD, i_rs1 := REG_SP, i_rs2 := rvc_rs2 r, imm := imm_sdsp r\<rparr>
      else if f3 = RVC_Q2_SWSP then
        rvc_blank\<lparr>opcode := OP_STORE, funct3 := F3_SW, i_rs1 := REG_SP, i_rs2 := rvc_rs2 r, imm := imm_swsp r\<rparr>
      else if f3 = RVC_Q2_SDSP then
        rvc_blank\<lparr>opcode := OP_STORE, funct3 := F3_SD, i_rs1 := REG_SP, i_rs2 := rvc_rs2 r, imm := imm_sdsp r\<rparr>
      else rvc_blank)"

definition decode_rvc :: "u16 \<Rightarrow> instruction" where
  "decode_rvc r =
     (let op = ucast r AND 0x3; f3 = drop_bit 13 (ucast r) AND 0x7 in
      if op = RVC_Q0 then decode_rvc_q0 r f3
      else if op = RVC_Q1 then decode_rvc_q1 r f3
      else if op = RVC_Q2 then decode_rvc_q2 r f3
      else rvc_blank)"

section \<open>Register numbers\<close>

lemma rvc_reg_less: "rvc_rd_s r < 32" "rvc_rs1_s r < 32" "rvc_rd r < 32" "rvc_rs2 r < 32"
proof -
  have "cl (w AND 0x7) < 32" for w
    using and_mask_less(2) [of w] by (simp add: cl_def) unat_arith
  then show "rvc_rd_s r < 32" "rvc_rs1_s r < 32" "rvc_rd r < 32" "rvc_rs2 r < 32"
    by (simp_all add: rvc_rd_s_def rvc_rs1_s_def rvc_rd_def rvc_rs2_def and_mask_less)
qed

lemmas decode_rvc_defs = decode_rvc_def decode_rvc_q0_def decode_rvc_q1_def decode_rvc_q2_def decode_rvc_cr_def
  decode_rvc_arith_def rvc_blank_def

lemma decode_rvc_ok: "instruction_ok (decode_rvc r)"
proof -
  have blank: "instruction_ok rvc_blank" by (simp add: instruction_ok_def rvc_blank_def)
  have q: "instruction_ok (decode_rvc_q0 r f)" "instruction_ok (decode_rvc_cr r)" "instruction_ok (decode_rvc_arith r)" for f
    by (simp_all add: instruction_ok_def rvc_reg_less decode_rvc_q0_def decode_rvc_cr_def decode_rvc_arith_def rvc_blank_def Let_def)
  then have "instruction_ok (decode_rvc_q1 r f)" "instruction_ok (decode_rvc_q2 r f)" for f
    by (simp_all add: decode_rvc_q1_def decode_rvc_q2_def Let_def)
      (simp_all add: instruction_ok_def rvc_reg_less rvc_blank_def)
  with q(1) blank show ?thesis by (simp add: decode_rvc_def Let_def)
qed

lemma decode_rvc_size: "isize (decode_rvc r) = 2"
  by (simp add: decode_rvc_defs Let_def)

text \<open>C35: Decoded instructions index the register files inside their 32 entries, and have length
  4 from a word, 2 from a halfword.\<close>

theorem decoded_in_bounds:
  "instruction_ok (decode raw) \<and> isize (decode raw) = 4 \<and> instruction_ok (decode_rvc r) \<and> isize (decode_rvc r) = 2"
  by (simp add: decode_ok decode_rvc_ok decode_rvc_size) (simp add: decode_def)

section \<open>Immediates\<close>

text \<open>\<open>cfield v lo n at\<close>: bits \<open>lo .. lo+n-1\<close> of the immediate, placed at bit \<open>at\<close> of the halfword.\<close>

definition cfield :: "u64 \<Rightarrow> nat \<Rightarrow> nat \<Rightarrow> nat \<Rightarrow> u16" where
  "cfield v lo n at = push_bit at (take_bit n (ucast (drop_bit lo v)))"

lemma bit_cfield: "bit (cfield v lo n at) k \<longleftrightarrow> at \<le> k \<and> k < at + n \<and> k < 16 \<and> bit v (lo + (k - at))"
  by (auto simp: cfield_def bit_simps dest: bit_imp_le_length)

lemma bit_rbits: "bit (rbits r s n) k \<longleftrightarrow> k < n \<and> bit r (k + s)"
  by (auto simp: rbits_def bit_simps ac_simps dest: bit_imp_le_length)

lemmas c_bits = bit_or_iff bit_push_bit_iff bit_rbits bit_cfield

text \<open>The immediates of the formats as the architecture scatters them over the halfword.\<close>

definition enc_ci :: "u64 \<Rightarrow> u16" where "enc_ci v = cfield v 0 5 2 OR cfield v 5 1 12"
definition enc_addi16sp :: "u64 \<Rightarrow> u16" where
  "enc_addi16sp v = cfield v 5 1 2 OR cfield v 7 2 3 OR cfield v 6 1 5 OR cfield v 4 1 6 OR cfield v 9 1 12"
definition enc_lui :: "u64 \<Rightarrow> u16" where "enc_lui v = cfield v 12 5 2 OR cfield v 17 1 12"
definition enc_clw :: "u64 \<Rightarrow> u16" where "enc_clw v = cfield v 6 1 5 OR cfield v 2 1 6 OR cfield v 3 3 10"
definition enc_cld :: "u64 \<Rightarrow> u16" where "enc_cld v = cfield v 6 2 5 OR cfield v 3 3 10"
definition enc_cj :: "u64 \<Rightarrow> u16" where
  "enc_cj v = cfield v 5 1 2 OR cfield v 1 3 3 OR cfield v 7 1 6 OR cfield v 6 1 7 OR cfield v 10 1 8 OR
     cfield v 8 2 9 OR cfield v 4 1 11 OR cfield v 11 1 12"
definition enc_cb :: "u64 \<Rightarrow> u16" where
  "enc_cb v = cfield v 5 1 2 OR cfield v 1 2 3 OR cfield v 6 2 5 OR cfield v 3 2 10 OR cfield v 8 1 12"
definition enc_lwsp :: "u64 \<Rightarrow> u16" where "enc_lwsp v = cfield v 6 2 2 OR cfield v 2 3 4 OR cfield v 5 1 12"
definition enc_ldsp :: "u64 \<Rightarrow> u16" where "enc_ldsp v = cfield v 6 3 2 OR cfield v 3 2 5 OR cfield v 5 1 12"
definition enc_swsp :: "u64 \<Rightarrow> u16" where "enc_swsp v = cfield v 6 2 7 OR cfield v 2 4 9"
definition enc_sdsp :: "u64 \<Rightarrow> u16" where "enc_sdsp v = cfield v 6 3 7 OR cfield v 3 3 10"
definition enc_addi4spn :: "u64 \<Rightarrow> u16" where
  "enc_addi4spn v = cfield v 3 1 5 OR cfield v 2 1 6 OR cfield v 6 4 7 OR cfield v 4 2 11"

lemmas enc_defs = enc_ci_def enc_addi16sp_def enc_lui_def enc_clw_def enc_cld_def enc_cj_def enc_cb_def
  enc_lwsp_def enc_ldsp_def enc_swsp_def enc_sdsp_def enc_addi4spn_def

lemma sext64_eq_all:
  "0 < n \<Longrightarrow> n \<le> 64 \<Longrightarrow> list_all (\<lambda>k. bit w k = bit v k) [0..<n] \<Longrightarrow> sext64 w n = sext64 v n"
  by (rule sext64_eq) (auto simp: list_all_iff)

lemma word_eq_all:
  assumes "list_all (\<lambda>k. bit w k = bit v k) [0..<n]" "\<And>k. n \<le> k \<Longrightarrow> \<not> bit w k" "take_bit n v = v"
  shows "w = (v :: u64)"
proof (rule bit_word_eqI)
  fix k
  have "bit v k \<Longrightarrow> k < n" using assms(3) by (metis bit_take_bit_iff)
  then show "bit w k = bit v k" using assms(1,2) by (cases "k < n") (auto simp: list_all_iff)
qed

lemma low_zero: "take_bit n v = 0 \<Longrightarrow> list_all (\<lambda>k. \<not> bit v k) [0..<n]" for v :: u64
  by (auto simp: list_all_iff) (metis bit_0_eq bit_take_bit_iff bot_apply bot_bool_def)

text \<open>The rest of the halfword: no bit of the immediate's.\<close>

abbreviation clear :: "nat list \<Rightarrow> u16 \<Rightarrow> bool" where
  "clear ks w \<equiv> list_all (\<lambda>k. \<not> bit w k) ks"

lemma sext_imms:
  "clear [2, 3, 4, 5, 6, 12] w \<Longrightarrow> imm_ci (enc_ci v OR w) = sext64 v 6"
  "take_bit 1 v = 0 \<Longrightarrow> clear [2, 3, 4, 5, 6, 7, 8, 9, 10, 11, 12] w \<Longrightarrow> imm_cj (enc_cj v OR w) = sext64 v 12"
  "take_bit 1 v = 0 \<Longrightarrow> clear [2, 3, 4, 5, 6, 10, 11, 12] w \<Longrightarrow> imm_cb (enc_cb v OR w) = sext64 v 9"
  "take_bit 4 v = 0 \<Longrightarrow> clear [2, 3, 4, 5, 6, 12] w \<Longrightarrow> imm_addi16sp (enc_addi16sp v OR w) = sext64 v 10"
  "take_bit 12 v = 0 \<Longrightarrow> clear [2, 3, 4, 5, 6, 12] w \<Longrightarrow> imm_lui (enc_lui v OR w) = sext64 v 18"
  unfolding imm_ci_def imm_cj_def imm_cb_def imm_addi16sp_def imm_lui_def sext_def enc_defs
  by ((drule low_zero)?, rule sext64_eq_all, simp, simp, unfold c_bits, simp add: eval_nat_numeral)+

lemma scaled_imms:
  "take_bit 7 v = v \<Longrightarrow> take_bit 2 v = 0 \<Longrightarrow> clear [5, 6, 10, 11, 12] w \<Longrightarrow> imm_clw (enc_clw v OR w) = v"
  "take_bit 8 v = v \<Longrightarrow> take_bit 3 v = 0 \<Longrightarrow> clear [5, 6, 10, 11, 12] w \<Longrightarrow> imm_cld (enc_cld v OR w) = v"
  "take_bit 8 v = v \<Longrightarrow> take_bit 2 v = 0 \<Longrightarrow> clear [2, 3, 4, 5, 6, 12] w \<Longrightarrow> imm_lwsp (enc_lwsp v OR w) = v"
  "take_bit 9 v = v \<Longrightarrow> take_bit 3 v = 0 \<Longrightarrow> clear [2, 3, 4, 5, 6, 12] w \<Longrightarrow> imm_ldsp (enc_ldsp v OR w) = v"
  "take_bit 8 v = v \<Longrightarrow> take_bit 2 v = 0 \<Longrightarrow> clear [7, 8, 9, 10, 11, 12] w \<Longrightarrow> imm_swsp (enc_swsp v OR w) = v"
  "take_bit 9 v = v \<Longrightarrow> take_bit 3 v = 0 \<Longrightarrow> clear [7, 8, 9, 10, 11, 12] w \<Longrightarrow> imm_sdsp (enc_sdsp v OR w) = v"
  "take_bit 10 v = v \<Longrightarrow> take_bit 2 v = 0 \<Longrightarrow> clear [5, 6, 7, 8, 9, 10, 11, 12] w \<Longrightarrow> imm_addi4spn (enc_addi4spn v OR w) = v"
  unfolding imm_clw_def imm_cld_def imm_lwsp_def imm_ldsp_def imm_swsp_def imm_sdsp_def imm_addi4spn_def enc_defs
  by (drule low_zero, erule word_eq_all [rotated 2], unfold c_bits, simp add: eval_nat_numeral, auto)+

text \<open>C10: The immediates of the compressed formats are read back from the architecture's
  scattered encodings, whatever the other fields of the halfword hold: signed ones (addi, j,
  beqz, addi16sp, lui) come back sign-extended from their width, the scaled offsets (word,
  doubleword, stack-relative) exactly.\<close>

theorem rvc_immediates:
  shows "(clear [2, 3, 4, 5, 6, 12] w \<longrightarrow>
            imm_ci (enc_ci v OR w) = sext64 v 6 \<and>
            (take_bit 4 v = 0 \<longrightarrow> imm_addi16sp (enc_addi16sp v OR w) = sext64 v 10) \<and>
            (take_bit 12 v = 0 \<longrightarrow> imm_lui (enc_lui v OR w) = sext64 v 18) \<and>
            (take_bit 8 v = v \<and> take_bit 2 v = 0 \<longrightarrow> imm_lwsp (enc_lwsp v OR w) = v) \<and>
            (take_bit 9 v = v \<and> take_bit 3 v = 0 \<longrightarrow> imm_ldsp (enc_ldsp v OR w) = v)) \<and>
         (clear [5, 6, 10, 11, 12] w \<longrightarrow>
            (take_bit 7 v = v \<and> take_bit 2 v = 0 \<longrightarrow> imm_clw (enc_clw v OR w) = v) \<and>
            (take_bit 8 v = v \<and> take_bit 3 v = 0 \<longrightarrow> imm_cld (enc_cld v OR w) = v)) \<and>
         (clear [7, 8, 9, 10, 11, 12] w \<longrightarrow>
            (take_bit 8 v = v \<and> take_bit 2 v = 0 \<longrightarrow> imm_swsp (enc_swsp v OR w) = v) \<and>
            (take_bit 9 v = v \<and> take_bit 3 v = 0 \<longrightarrow> imm_sdsp (enc_sdsp v OR w) = v)) \<and>
         (clear [2, 3, 4, 5, 6, 10, 11, 12] w \<and> take_bit 1 v = 0 \<longrightarrow> imm_cb (enc_cb v OR w) = sext64 v 9) \<and>
         (clear [2, 3, 4, 5, 6, 7, 8, 9, 10, 11, 12] w \<and> take_bit 1 v = 0 \<longrightarrow> imm_cj (enc_cj v OR w) = sext64 v 12) \<and>
         (clear [5, 6, 7, 8, 9, 10, 11, 12] w \<and> take_bit 10 v = v \<and> take_bit 2 v = 0 \<longrightarrow>
            imm_addi4spn (enc_addi4spn v OR w) = v)"
  by (intro conjI impI; (elim conjE)?; (rule sext_imms | rule scaled_imms); assumption)

theorem rvc_immediates_witness:
  "imm_cj (enc_cj (- 2048) OR 0xA001) = - 2048 \<and> imm_cj (enc_cj 0x7FE OR 0xA001) = 0x7FE"
proof -
  have "clear [2, 3, 4, 5, 6, 7, 8, 9, 10, 11, 12] 0xA001" "take_bit 1 (- 2048 :: u64) = 0" "take_bit 1 (0x7FE :: u64) = 0"
    "sext64 (- 2048) 12 = - 2048" "sext64 0x7FE 12 = 0x7FE"
    by (simp_all add: sext64_def)
  then show ?thesis
    using rvc_immediates [of "0xA001" "- 2048", THEN conjunct2, THEN conjunct2, THEN conjunct2, THEN conjunct2, THEN conjunct1]
      rvc_immediates [of "0xA001" "0x7FE", THEN conjunct2, THEN conjunct2, THEN conjunct2, THEN conjunct2, THEN conjunct1]
    by simp
qed

end
