(* ===== verification/Exec_A.thy ===== *)
theory Exec_A
  imports Mmu Decode_C
begin

text \<open>
  The atomic instructions (\<^verbatim>\<open>src/exec_a.c\<close>): load-reserved, store-conditional and the
  read-modify-write operations.  The reservation \<^verbatim>\<open>s_reservation\<close> is the virtual address of
  the last load-reserved, all ones when there is none.
\<close>

abbreviation (input) NO_RESERVATION :: u64 where "NO_RESERVATION \<equiv> 0xFFFFFFFFFFFFFFFF"

definition with_reg :: "machine \<Rightarrow> u32 \<Rightarrow> u64 \<Rightarrow> machine" where
  "with_reg m rd val = m\<lparr>m_cpu := reg_write (m_cpu m) rd val\<rparr>"

definition amo_read :: "machine \<Rightarrow> u64 \<Rightarrow> u32 \<Rightarrow> stop + u64 \<times> machine" where
  "amo_read m addr f3 =
     (if f3 = F3_AMO_W then andThen (mem_read32 m addr) (\<lambda>(v, m). Inr (scast v, m))
      else mem_read64 m addr)"

definition amo_write :: "notify_fn \<Rightarrow> machine \<Rightarrow> u64 \<Rightarrow> u64 \<Rightarrow> u32 \<Rightarrow> stop + machine" where
  "amo_write notify m addr val f3 =
     (if f3 = F3_AMO_W then mem_write32 notify m addr (ucast val) else mem_write64 notify m addr val)"

definition execute_lr :: "notify_fn \<Rightarrow> machine \<Rightarrow> instruction \<Rightarrow> stop + machine" where
  "execute_lr notify m i =
     (let va = regs (m_cpu m) (i_rs1 i) in
      andThen (mmu_translate notify m va MMU_LOAD) (\<lambda>(pa, m).
        if pa = MMU_FAULT then Inr m
        else andThen (amo_read (m\<lparr>m_reservation := va\<rparr>) pa (funct3 i)) (\<lambda>(v, m). Inr (with_reg m (i_rd i) v))))"

definition execute_sc :: "notify_fn \<Rightarrow> machine \<Rightarrow> instruction \<Rightarrow> stop + machine" where
  "execute_sc notify m i =
     (let va = regs (m_cpu m) (i_rs1 i) in
      andThen (mmu_translate notify m va MMU_STORE) (\<lambda>(pa, m).
        if pa = MMU_FAULT then Inr m
        else if va = m_reservation m then
          andThen (amo_write notify m pa (regs (m_cpu m) (i_rs2 i)) (funct3 i)) (\<lambda>m.
            Inr (with_reg (m\<lparr>m_reservation := NO_RESERVATION\<rparr>) (i_rd i) 0))
        else Inr (with_reg m (i_rd i) 1)))"

definition amo_result :: "u32 \<Rightarrow> u64 \<Rightarrow> u64 \<Rightarrow> u64" where
  "amo_result f5 old src =
     (if f5 = F5_AMOSWAP then src
      else if f5 = F5_AMOADD then old + src
      else if f5 = F5_AMOXOR then old XOR src
      else if f5 = F5_AMOAND then old AND src
      else if f5 = F5_AMOOR then old OR src
      else if f5 = F5_AMOMIN then (if sint old < sint src then old else src)
      else if f5 = F5_AMOMAX then (if sint old > sint src then old else src)
      else if f5 = F5_AMOMINU then (if old < src then old else src)
      else if f5 = F5_AMOMAXU then (if old > src then old else src)
      else old)"

definition execute_amo :: "notify_fn \<Rightarrow> machine \<Rightarrow> instruction \<Rightarrow> stop + machine" where
  "execute_amo notify m i =
     (let va = regs (m_cpu m) (i_rs1 i) in
      andThen (mmu_translate notify m va MMU_STORE) (\<lambda>(pa, m).
        if pa = MMU_FAULT then Inr m
        else andThen (amo_read m pa (funct3 i)) (\<lambda>(old, m).
          (let src = regs (m_cpu m) (i_rs2 i);
               result = amo_result (drop_bit 2 (funct7 i)) old src
           in andThen (amo_write notify m pa result (funct3 i)) (\<lambda>m. Inr (with_reg m (i_rd i) old))))))"

definition execute_a :: "notify_fn \<Rightarrow> machine \<Rightarrow> instruction \<Rightarrow> stop + machine" where
  "execute_a notify m i =
     (let f5 = drop_bit 2 (funct7 i) in
      if f5 = F5_LR then execute_lr notify m i
      else if f5 = F5_SC then execute_sc notify m i
      else execute_amo notify m i)"

section \<open>Frames\<close>

lemma cpu_ok_reg [simp]: "cpu_ok c \<Longrightarrow> cpu_ok (reg_write c rd v)"
  by (simp add: cpu_ok_def satp_legal_def)

lemma keeps_reg [simp]: "keeps m (with_reg m rd v)"
  by (auto simp: with_reg_def intro!: keeps_cpu)

lemma keeps_reservation [simp]: "keeps m (m\<lparr>m_reservation := r\<rparr>)"
  by (simp add: keeps_def layout_def)

lemma keeps_reg_res [simp]: "keeps m (with_reg (m\<lparr>m_reservation := r\<rparr>) rd v)"
  by (rule kp.trans [OF keeps_reservation keeps_reg])

lemma amo_read_keeps: "gives keeps m (amo_read m a f3)"
  by (auto simp: amo_read_def intro!: kp.gives_bind)

context notifier
begin

lemma amo_write_keeps: "moves keeps m (amo_write notify m a v f3)"
  by (simp add: amo_write_def)

lemma execute_lr_keeps: "moves keeps m (execute_lr notify m i)"
  unfolding execute_lr_def Let_def
proof (rule kp.gives_moves [OF mmu_translate_keeps])
  fix pa m'
  have "gives keeps m' (amo_read (m'\<lparr>m_reservation := r\<rparr>) pa (funct3 i))" for r
    by (rule kp.gives_after [OF keeps_reservation amo_read_keeps])
  then show "moves keeps m' (case (pa, m') of (pa, m) \<Rightarrow> if pa = MMU_FAULT then Inr m
        else andThen (amo_read (m\<lparr>m_reservation := regs (m_cpu m0) (i_rs1 i)\<rparr>) pa (funct3 i)) (\<lambda>(v, m). Inr (with_reg m (i_rd i) v)))" for m0
    by (auto intro!: kp.gives_moves)
qed

lemma execute_sc_keeps: "moves keeps m (execute_sc notify m i)"
  by (auto simp: execute_sc_def Let_def intro!: kp.gives_moves kp.moves_bind amo_write_keeps)

lemma execute_amo_keeps: "moves keeps m (execute_amo notify m i)"
  by (auto simp: execute_amo_def Let_def intro!: kp.gives_moves kp.moves_bind amo_read_keeps amo_write_keeps)

lemma execute_a_keeps [simp]: "moves keeps m (execute_a notify m i)"
  by (simp add: execute_a_def Let_def execute_lr_keeps execute_sc_keeps execute_amo_keeps)

end

section \<open>The operations against a 32-bit reference\<close>

definition amo_word :: "u32 \<Rightarrow> u32 \<Rightarrow> u32 \<Rightarrow> u32" where
  "amo_word f5 old src =
     (if f5 = F5_AMOSWAP then src
      else if f5 = F5_AMOADD then old + src
      else if f5 = F5_AMOXOR then old XOR src
      else if f5 = F5_AMOAND then old AND src
      else if f5 = F5_AMOOR then old OR src
      else if f5 = F5_AMOMIN then (if sint old < sint src then old else src)
      else if f5 = F5_AMOMAX then (if sint old > sint src then old else src)
      else if f5 = F5_AMOMINU then (if old < src then old else src)
      else if f5 = F5_AMOMAXU then (if old > src then old else src)
      else old)"

lemma ucast_scast_32 [simp]: "ucast (scast (w :: u32) :: u64) = w"
  by (rule bit_word_eqI) (simp add: bit_simps)

lemma sint_scast_32: "sint (scast (w :: u32) :: u64) = sint w"
  by (simp add: sint_up_scast is_up)

lemma mod_neg_int: "- n \<le> x \<Longrightarrow> x < 0 \<Longrightarrow> x mod n = x + (n :: int)"
  using mod_add_self2 [of x n] mod_pos_pos_trivial [of "x + n" n] by simp

lemma scast_less_iff: "(scast (a :: u32) :: u64) < scast b \<longleftrightarrow> a < b"
proof -
  have u: "uint (scast x :: u64) = (if sint x < 0 then sint x + 2 ^ 64 else sint x)"
    "uint x = (if sint x < 0 then sint x + 2 ^ 32 else sint x)" "- (2 ^ 31) \<le> sint x" "sint x < 2 ^ 31" for x :: u32
    using sint_range_size [of x] sint_scast_32 [of x]
    by (simp_all add: word_size uint_sint take_bit_eq_mod) (auto simp: mod_neg_int)
  show ?thesis
    using u(1,2) [of a] u(1,2) [of b] u(3,4) [of a] u(3,4) [of b]
    by (auto simp: word_less_def)
qed

lemma ucast_add_32: "(ucast ((a :: u64) + b) :: u32) = ucast a + ucast b"
  by (simp add: word_unat_eq_iff unat_word_ariths unsigned_ucast_eq take_bit_eq_mod mod_mod_cancel mod_add_eq)

text \<open>C24: The word atomics compute the 32-bit operation. On a memory word and a source register
  that holds a sign-extended word, the low half of the 64-bit result the code computes is the
  32-bit result, for all nine operations, signed and unsigned minimum and maximum included.\<close>

theorem amo_word_correct:
  assumes "scast (ucast src :: u32) = src"
  shows "ucast (amo_result f5 (scast w) src) = amo_word f5 w (ucast src)"
proof -
  obtain s :: u32 where s: "src = scast s" using assms by metis
  have "ucast (scast w + scast s :: u64) = w + s"
    by (simp add: ucast_add_32)
  then show ?thesis
    unfolding s
    by (auto simp: amo_result_def amo_word_def sint_scast_32 scast_less_iff intro!: bit_word_eqI simp: bit_simps)
qed

text \<open>Without that sign extension the word minimum is wrong: the code compares the whole
  64-bit register with the sign-extended word, where the architecture ignores the upper half.\<close>

theorem amominu_word_upper_half:
  "amo_result F5_AMOMINU (scast (1 :: u32)) 0xFFFFFFFF00000000 = 1 \<and>
   amo_word F5_AMOMINU 1 (ucast (0xFFFFFFFF00000000 :: u64)) = 0"
proof -
  have hi: "(ucast (0xFFFFFFFF00000000 :: u64) :: u32) = 0" by code_simp
  show ?thesis unfolding hi by (simp add: amo_result_def amo_word_def)
qed

lemma ram_mem_cong:
  "m_mem m' = m_mem m \<Longrightarrow> in_ram m' a n = in_ram m a n" "m_mem m' = m_mem m \<Longrightarrow> ram_value m' a n = ram_value m a n"
  by (simp_all add: in_ram_def ram_at_def ram_value_def split: sum.split)

section \<open>Reading, updating and writing back\<close>

lemma regs_ram_store [simp]: "m_cpu (ram_store m a v n) = m_cpu m" "m_reservation (ram_store m a v n) = m_reservation m"
  by (simp_all add: ram_store_def split: sum.split)

definition amo_size :: "u32 \<Rightarrow> nat" where
  "amo_size f3 = (if f3 = F3_AMO_W then 4 else 8)"

definition amo_load :: "machine \<Rightarrow> u64 \<Rightarrow> u32 \<Rightarrow> u64" where
  "amo_load m a f3 = (if f3 = F3_AMO_W then scast (ucast (ram_value m a 4) :: u32) else ram_value m a 8)"

lemma amo_read_ram: "in_ram m a (amo_size f3) \<Longrightarrow> amo_read m a f3 = Inr (amo_load m a f3, m)"
  by (simp add: amo_read_def amo_load_def amo_size_def mem_read32_def mem_read64_def mem_read_ram split: if_splits)

lemma store_le_take: "n \<le> k \<Longrightarrow> store_le d a (take_bit (8 * k) v) n = store_le d a v n"
proof (induction n arbitrary: d a v k)
  case (Suc n)
  have "ucast (take_bit (8 * k) v) = (ucast v :: u8)"
    using Suc.prems by (intro bit_word_eqI) (auto simp: bit_simps)
  moreover have "drop_bit 8 (take_bit (8 * k) v) = take_bit (8 * (k - 1)) (drop_bit 8 v)"
    using Suc.prems by (intro bit_word_eqI) (auto simp: bit_simps)
  ultimately have "store_le d a (take_bit (8 * k) v) (Suc n) =
      store_le (d(a := ucast v)) (a + 1) (take_bit (8 * (k - 1)) (drop_bit 8 v)) n"
    by (simp only: store_le.simps)
  also have "... = store_le (d(a := ucast v)) (a + 1) (drop_bit 8 v) n"
    using Suc.prems by (intro Suc.IH) simp
  finally show ?case by simp
qed simp

lemma amo_write_ram: "in_ram m a (amo_size f3) \<Longrightarrow> amo_write notify m a v f3 = Inr (ram_store m a v (amo_size f3))"
proof -
  have "(ucast (ucast v :: u32) :: u64) = take_bit (8 * 4) v"
    by (intro bit_word_eqI) (auto simp: bit_simps)
  moreover have "ram_store m a (take_bit (8 * 4) v) 4 = ram_store m a v 4"
    unfolding ram_store_def by (simp only: store_le_take [of 4 4, OF order_refl])
  moreover assume "in_ram m a (amo_size f3)"
  ultimately show ?thesis
    by (simp add: amo_write_def amo_size_def mem_write32_def mem_write64_def mem_write_ram split: if_splits)
qed

text \<open>C22: An atomic operation on RAM is one read and one write of the same word. Without
  translation, the destination register receives the old value (sign-extended for a word), the
  memory the result of the operation on the old value and the source register, and nothing
  else changes.\<close>

theorem execute_amo_ram:
  fixes m :: machine and i :: instruction
  defines "va \<equiv> regs (m_cpu m) (i_rs1 i)"
  assumes "\<not> mmu_active (m_cpu m)" and "in_ram m va (amo_size (funct3 i))" and "va \<noteq> MMU_FAULT"
    and "drop_bit 2 (funct7 i) \<noteq> F5_LR" and "drop_bit 2 (funct7 i) \<noteq> F5_SC"
  shows "execute_a notify m i = Inr (with_reg
           (ram_store m va (amo_result (drop_bit 2 (funct7 i)) (amo_load m va (funct3 i)) (regs (m_cpu m) (i_rs2 i)))
              (amo_size (funct3 i)))
           (i_rd i) (amo_load m va (funct3 i)))"
  using assms(2-)
  by (simp add: execute_a_def execute_amo_def mmu_translate_def amo_read_ram amo_write_ram va_def [symmetric])

text \<open>C23: A store-conditional succeeds exactly when the last load-reserved was at its address.
  After a load-reserved of a word of RAM, a store-conditional to the same register's address
  writes the source register, answers 0 and consumes the reservation; with another address, or
  a second time, it answers 1 and leaves the memory as it is.\<close>

theorem store_conditional:
  fixes m :: machine and i :: instruction
  defines "va \<equiv> regs (m_cpu m) (i_rs1 i)"
  assumes "\<not> mmu_active (m_cpu m)" and "in_ram m va (amo_size (funct3 i))" and "va \<noteq> MMU_FAULT"
  shows "(m_reservation m = va \<longrightarrow> execute_sc notify m i =
            Inr (with_reg ((ram_store m va (regs (m_cpu m) (i_rs2 i)) (amo_size (funct3 i)))\<lparr>m_reservation := NO_RESERVATION\<rparr>) (i_rd i) 0)) \<and>
         (m_reservation m \<noteq> va \<longrightarrow> execute_sc notify m i = Inr (with_reg m (i_rd i) 1)) \<and>
         execute_lr notify m i = Inr (with_reg (m\<lparr>m_reservation := va\<rparr>) (i_rd i) (amo_load m va (funct3 i)))"
proof -
  have "in_ram (m\<lparr>m_reservation := va\<rparr>) va (amo_size (funct3 i))"
    using assms(3) by (simp add: ram_mem_cong [of "m\<lparr>m_reservation := va\<rparr>" m])
  moreover have "amo_load (m\<lparr>m_reservation := va\<rparr>) va (funct3 i) = amo_load m va (funct3 i)"
    by (simp add: amo_load_def ram_mem_cong [of "m\<lparr>m_reservation := va\<rparr>" m])
  ultimately show ?thesis
    using assms(2-)
    by (auto simp: execute_sc_def execute_lr_def mmu_translate_def amo_read_ram amo_write_ram va_def [symmetric] Let_def)
qed

theorem amo_word_correct_witness:
  "ucast (amo_result F5_AMOMIN (scast (0x80000000 :: u32)) 5) = (0x80000000 :: u32)"
proof -
  have "scast (ucast (5 :: u64) :: u32) = (5 :: u64)" by simp
  from amo_word_correct [OF this, of F5_AMOMIN "0x80000000"] show ?thesis by (simp add: amo_word_def)
qed

definition amo_machine :: "u64 \<Rightarrow> machine" where
  "amo_machine a = example_machine\<lparr>m_cpu := cpu_zero\<lparr>regs := (\<lambda>_. 0)(10 := a, 11 := 7)\<rparr>, m_reservation := a\<rparr>"

definition amo_insn :: "u32 \<Rightarrow> instruction" where
  "amo_insn f5 = \<lparr>opcode = OP_AMO, i_rd = 12, i_rs1 = 10, i_rs2 = 11, funct3 = F3_AMO_W, funct7 = 4 * f5, imm = 0, isize = 4\<rparr>"

lemma amo_machine_facts:
  "\<not> mmu_active (m_cpu (amo_machine a))" "regs (m_cpu (amo_machine a)) (i_rs1 (amo_insn f5)) = a"
  "m_reservation (amo_machine a) = a" "in_ram (amo_machine 0x80000000) 0x80000000 (amo_size (funct3 (amo_insn f5)))"
  by (simp_all add: mmu_active_def amo_machine_def amo_insn_def cpu_zero_def in_ram_def ram_at_def amo_size_def
      example_machine_def ram_256M_def mem_find_region_def)

theorem execute_amo_ram_witness:
  "\<exists>m'. execute_a (\<lambda>i m. Inr m) (amo_machine 0x80000000) (amo_insn F5_AMOADD) = Inr m'"
  using execute_amo_ram [of "amo_machine 0x80000000" "amo_insn F5_AMOADD" "\<lambda>i m. Inr m"]
  by (auto simp: amo_machine_facts) (auto simp: amo_insn_def)

theorem store_conditional_witness:
  "execute_sc (\<lambda>i m. Inr m) (amo_machine 0x80000000) (amo_insn F5_SC) =
     Inr (with_reg ((ram_store (amo_machine 0x80000000) 0x80000000 7 4)\<lparr>m_reservation := NO_RESERVATION\<rparr>) 12 0)"
proof -
  have "regs (m_cpu (amo_machine 0x80000000)) (i_rs2 (amo_insn F5_SC)) = 7" "i_rd (amo_insn F5_SC) = 12"
    "amo_size (funct3 (amo_insn F5_SC)) = 4"
    by (simp_all add: amo_machine_def amo_insn_def amo_size_def)
  then show ?thesis
    using store_conditional [of "amo_machine 0x80000000" "amo_insn F5_SC" "\<lambda>i m. Inr m"] amo_machine_facts(4) [of F5_SC]
    by (simp add: amo_machine_facts(1-3))
qed

end
