(* ===== verification/Sbi.thy ===== *)
theory Sbi
  imports Exec_A
begin

text \<open>
  The supervisor binary interface (\<^verbatim>\<open>src/sbi.c\<close>, \<^verbatim>\<open>include/sbi.h\<close>): the firmware that runs
  inside the emulator.  \<open>sbi_init\<close> drops the processor to supervisor mode at the kernel's
  entry, \<open>sbi_ecall\<close> serves the calls of the kernel.  \<^verbatim>\<open>putchar\<close> writes the low byte.
\<close>

abbreviation (input) SBI_EID_SET_TIMER :: u64 where "SBI_EID_SET_TIMER \<equiv> 0x00"
abbreviation (input) SBI_EID_PUTCHAR :: u64 where "SBI_EID_PUTCHAR \<equiv> 0x01"
abbreviation (input) SBI_EID_BASE :: u64 where "SBI_EID_BASE \<equiv> 0x10"
abbreviation (input) SBI_EID_TIMER :: u64 where "SBI_EID_TIMER \<equiv> 0x54494D45"
abbreviation (input) SBI_EID_RESET :: u64 where "SBI_EID_RESET \<equiv> 0x53525354"
abbreviation (input) SBI_TIMER_SET_TIMER :: u64 where "SBI_TIMER_SET_TIMER \<equiv> 0"
abbreviation (input) SBI_BASE_GET_SPEC_VERSION :: u64 where "SBI_BASE_GET_SPEC_VERSION \<equiv> 0"
abbreviation (input) SBI_BASE_PROBE_EXTENSION :: u64 where "SBI_BASE_PROBE_EXTENSION \<equiv> 3"
abbreviation (input) SBI_SPEC_VERSION :: u64 where "SBI_SPEC_VERSION \<equiv> 2"
abbreviation (input) SBI_SUCCESS :: u64 where "SBI_SUCCESS \<equiv> 0"
abbreviation (input) SBI_ERR_NOT_SUPPORTED :: u64 where "SBI_ERR_NOT_SUPPORTED \<equiv> - 2"
abbreviation (input) MCOUNTEREN_CY :: u64 where "MCOUNTEREN_CY \<equiv> 1"
abbreviation (input) MCOUNTEREN_TM :: u64 where "MCOUNTEREN_TM \<equiv> 2"
abbreviation (input) MCOUNTEREN_IR :: u64 where "MCOUNTEREN_IR \<equiv> 4"

definition MEDELEG_BIT :: "nat \<Rightarrow> u64" where
  "MEDELEG_BIT cause = push_bit cause 1"

text \<open>Every exception of \<^verbatim>\<open>include/trap.h\<close> but the environment calls of S and M mode.\<close>

definition sbi_medeleg :: u64 where
  "sbi_medeleg =
     MEDELEG_BIT 0 OR MEDELEG_BIT 1 OR MEDELEG_BIT 2 OR MEDELEG_BIT 3 OR MEDELEG_BIT 4 OR MEDELEG_BIT 5 OR
     MEDELEG_BIT 6 OR MEDELEG_BIT 7 OR MEDELEG_BIT 8 OR MEDELEG_BIT 12 OR MEDELEG_BIT 13 OR MEDELEG_BIT 15"

definition sbi_init :: "cpu \<Rightarrow> u64 \<Rightarrow> cpu" where
  "sbi_init c kernel_entry =
     (let c = set_csr c CSR_MEDELEG sbi_medeleg;
          c = set_csr c CSR_MIDELEG (MIP_SSIP OR MIP_STIP OR MIP_SEIP);
          c = set_csr c CSR_MCOUNTEREN (MCOUNTEREN_CY OR MCOUNTEREN_TM OR MCOUNTEREN_IR);
          st = csrs c CSR_MSTATUS AND NOT MSTATUS_MPP_MASK;
          st = st OR push_bit MSTATUS_MPP_SHIFT (ucast PRIV_S);
          st = st OR MSTATUS_MPIE;
          c = set_csr c CSR_MSTATUS st
      in c\<lparr>pc := kernel_entry, privilege := PRIV_S\<rparr>)"

definition is_supported_eid :: "u64 \<Rightarrow> bool" where
  "is_supported_eid eid \<longleftrightarrow>
     eid = SBI_EID_SET_TIMER \<or> eid = SBI_EID_PUTCHAR \<or> eid = SBI_EID_BASE \<or> eid = SBI_EID_TIMER \<or> eid = SBI_EID_RESET"

definition sbi_answer :: "cpu \<Rightarrow> u64 \<Rightarrow> u64 \<Rightarrow> cpu" where
  "sbi_answer c a0 a1 = c\<lparr>regs := (regs c)(REG_A0 := a0, REG_A1 := a1)\<rparr>"

definition handle_base :: "cpu \<Rightarrow> cpu" where
  "handle_base c =
     (let fid = regs c REG_A6 in
      if fid = SBI_BASE_GET_SPEC_VERSION then sbi_answer c SBI_SUCCESS SBI_SPEC_VERSION
      else if fid = SBI_BASE_PROBE_EXTENSION then
        sbi_answer c SBI_SUCCESS (if is_supported_eid (regs c REG_A0) then 1 else 0)
      else sbi_answer c SBI_ERR_NOT_SUPPORTED 0)"

definition sbi_set_timer :: "machine \<Rightarrow> machine" where
  "sbi_set_timer m =
     (let c = cpu_lower_irq (m_cpu m) MIP_STIP in
      m\<lparr>m_clint := clint_set_timecmp (m_clint m) (regs c REG_A0), m_cpu := sbi_answer c SBI_SUCCESS 0\<rparr>)"

definition sbi_dispatch :: "machine \<Rightarrow> machine" where
  "sbi_dispatch m =
     (let c = m_cpu m; eid = regs c REG_A7 in
      if eid = SBI_EID_SET_TIMER then sbi_set_timer m
      else if eid = SBI_EID_TIMER then
        (if regs c REG_A6 = SBI_TIMER_SET_TIMER then sbi_set_timer m
         else m\<lparr>m_cpu := sbi_answer c SBI_ERR_NOT_SUPPORTED 0\<rparr>)
      else if eid = SBI_EID_PUTCHAR then
        m\<lparr>m_con := putchar (m_con m) (ucast (regs c REG_A0)), m_cpu := sbi_answer c SBI_SUCCESS 0\<rparr>
      else if eid = SBI_EID_BASE then m\<lparr>m_cpu := handle_base c\<rparr>
      else if eid = SBI_EID_RESET then m\<lparr>m_cpu := sbi_answer (c\<lparr>halted := True\<rparr>) SBI_SUCCESS 0\<rparr>
      else m\<lparr>m_cpu := sbi_answer c SBI_ERR_NOT_SUPPORTED 0\<rparr>)"

definition sbi_ecall :: "machine \<Rightarrow> machine" where
  "sbi_ecall m =
     (let m = sbi_dispatch m in m\<lparr>m_cpu := (m_cpu m)\<lparr>pc := pc (m_cpu m) + INSN_SIZE\<rparr>\<rparr>)"

section \<open>Frames\<close>

lemma sbi_answer_simps [simp]:
  "fregs (sbi_answer c a b) = fregs c" "fcsr (sbi_answer c a b) = fcsr c" "pc (sbi_answer c a b) = pc c"
  "csrs (sbi_answer c a b) = csrs c" "privilege (sbi_answer c a b) = privilege c"
  "halted (sbi_answer c a b) = halted c" "steps (sbi_answer c a b) = steps c"
  "regs (sbi_answer c a b) = (regs c)(10 := a, 11 := b)"
  by (simp_all add: sbi_answer_def)

lemma cpu_ok_answer [simp]: "cpu_ok (sbi_answer c a b) = cpu_ok c"
  by (simp add: cpu_ok_def satp_legal_def)

lemma cpu_ok_halted [simp]: "cpu_ok (c\<lparr>halted := h\<rparr>) = cpu_ok c" "cpu_ok (c\<lparr>pc := a\<rparr>) = cpu_ok c"
  "cpu_ok (cpu_lower_irq c b) = cpu_ok c" "cpu_ok (cpu_raise_irq c b) = cpu_ok c"
  by (simp_all add: cpu_ok_def satp_legal_def cpu_lower_irq_def cpu_raise_irq_def)

lemma steps_irq [simp]: "steps (cpu_lower_irq c b) = steps c" "steps (cpu_raise_irq c b) = steps c"
  by (simp_all add: cpu_lower_irq_def cpu_raise_irq_def)

lemma handle_base_frame [simp]: "cpu_ok (handle_base c) = cpu_ok c" "steps (handle_base c) = steps c" "pc (handle_base c) = pc c"
  by (simp_all add: handle_base_def Let_def)

lemma sbi_ecall_keeps [simp]: "keeps m (sbi_ecall m)"
proof -
  have "keeps m (sbi_dispatch m)"
    by (auto simp: sbi_dispatch_def sbi_set_timer_def Let_def keeps_def layout_def)
  then show ?thesis by (auto simp: sbi_ecall_def Let_def keeps_def layout_def)
qed

section \<open>The binary interface\<close>

definition sbi_supported :: "u64 \<Rightarrow> u64 \<Rightarrow> bool" where
  "sbi_supported eid fid \<longleftrightarrow> eid = SBI_EID_SET_TIMER \<or> eid = SBI_EID_PUTCHAR \<or> eid = SBI_EID_RESET \<or>
     (eid = SBI_EID_TIMER \<and> fid = 0) \<or> (eid = SBI_EID_BASE \<and> (fid = 0 \<or> fid = 3))"

lemmas sbi_defs = sbi_ecall_def sbi_dispatch_def sbi_set_timer_def handle_base_def

text \<open>C21: Every call of the supervisor returns to the instruction after it, with its results in
  a0 and a1, and changes nothing else but what the call is for. a0 is 0 for the supported calls
  and the not-supported error for every other extension or function; a1 is the version of the
  interface for that call, 1 or 0 as the probed extension is one of the five or not, and 0
  otherwise. The two timer calls set the compare register to the argument and lower the pending
  timer interrupt; putchar appends its byte to the console; reset halts.\<close>

theorem sbi_ecall_contract:
  fixes m :: machine
  defines "c \<equiv> m_cpu m"
  defines "eid \<equiv> regs (m_cpu m) REG_A7" and "fid \<equiv> regs (m_cpu m) REG_A6" and "arg \<equiv> regs (m_cpu m) REG_A0"
  defines "timer \<equiv> eid = SBI_EID_SET_TIMER \<or> eid = SBI_EID_TIMER \<and> fid = 0"
  shows "sbi_ecall m = m\<lparr>
     m_cpu := c\<lparr>
       regs := (regs c)(10 := (if sbi_supported eid fid then 0 else - 2),
                        11 := (if eid = SBI_EID_BASE \<and> fid = 0 then 2
                               else if eid = SBI_EID_BASE \<and> fid = 3 \<and> arg \<in> {0, 1, 0x10, 0x54494D45, 0x53525354} then 1
                               else 0)),
       csrs := (csrs c)(CSR_MIP := if timer then csrs c CSR_MIP AND NOT 0x20 else csrs c CSR_MIP),
       pc := pc c + 4, halted := (halted c \<or> eid = SBI_EID_RESET)\<rparr>,
     m_clint := (m_clint m)\<lparr>mtimecmp := if timer then arg else mtimecmp (m_clint m)\<rparr>,
     m_con := (m_con m)\<lparr>stdout_bytes := stdout_bytes (m_con m) @ (if eid = SBI_EID_PUTCHAR then [ucast arg] else [])\<rparr>\<rparr>"
  unfolding c_def eid_def fid_def arg_def timer_def
  by (simp add: sbi_defs Let_def sbi_supported_def putchar_def clint_set_timecmp_def cpu_lower_irq_def set_csr_def
      sbi_answer_def is_supported_eid_def)

text \<open>C36: The delegation of the firmware. The kernel starts at its entry point in supervisor mode
  and may read the counters. From there a trap enters supervisor mode exactly when it is the
  software, timer or external interrupt of the supervisor, or an exception other than an
  environment call of supervisor or machine mode (which the firmware answers itself).\<close>

theorem sbi_init_delegation:
  fixes c :: cpu and entry cause :: u64
  defines "k \<equiv> sbi_init c entry" and "number \<equiv> unat (cause AND 0x3F)"
  shows "pc k = entry \<and> privilege k = PRIV_S \<and> regs k = regs c \<and> csrs k CSR_MCOUNTEREN = 7 \<and>
         (privilege (cpu_trap k cause tval) = PRIV_S \<longleftrightarrow>
            (if bit cause 63 then number \<in> {1, 5, 9} else number \<in> {0, 1, 2, 3, 4, 5, 6, 7, 8, 12, 13, 15}))"
proof -
  have k: "privilege k = 1" "csrs k CSR_MEDELEG = sbi_medeleg" "csrs k CSR_MIDELEG = 0x222" "pc k = entry" "regs k = regs c"
      "csrs k CSR_MCOUNTEREN = 7"
    by (simp_all add: k_def sbi_init_def Let_def)
  have "cause AND 0x3F < 64"
    using and_mask_less' [of 6 cause] by (simp add: mask_eq_exp_minus_1)
  then have "number < 64" by (simp add: number_def word_less_nat_alt)
  moreover have "list_all (\<lambda>n. bit sbi_medeleg n = (n \<in> {0, 1, 2, 3, 4, 5, 6, 7, 8, 12, 13, 15})) [0..<64]"
    by code_simp
  moreover have "list_all (\<lambda>n. bit (0x222 :: u64) n = (n \<in> {1, 5, 9})) [0..<64]"
    by code_simp
  ultimately have "bit sbi_medeleg number = (number \<in> {0, 1, 2, 3, 4, 5, 6, 7, 8, 12, 13, 15})"
      "bit (0x222 :: u64) number = (number \<in> {1, 5, 9})"
    by (simp_all add: list_all_iff del: upt_rec_numeral)
  then have "trap_to_s k cause \<longleftrightarrow>
      (if bit cause 63 then number \<in> {1, 5, 9} else number \<in> {0, 1, 2, 3, 4, 5, 6, 7, 8, 12, 13, 15})"
    by (simp add: trap_to_s_iff k number_def)
  moreover have "privilege (cpu_trap k cause tval) = PRIV_S \<longleftrightarrow> trap_to_s k cause"
    by (cases "trap_to_s k cause") (simp_all add: cpu_trap_s cpu_trap_m)
  ultimately show ?thesis using k by simp
qed

end
