(* ===== verification/Exec_Fp.thy ===== *)
theory Exec_Fp
  imports Float_Ops Sbi
begin

text \<open>
  The floating-point instructions of \<^verbatim>\<open>src/cpu.c\<close>: the register file access through
  \<^verbatim>\<open>memcpy\<close> (a single-precision access touches the low half of the register), classification,
  and the two dispatchers.  A pattern is the number of its bits.  Status flags are not kept by
  the program.
\<close>

definition freg_get_f :: "cpu \<Rightarrow> u32 \<Rightarrow> nat" where
  "freg_get_f c r = unat (ucast (fregs c r) :: u32)"

definition freg_get_d :: "cpu \<Rightarrow> u32 \<Rightarrow> nat" where
  "freg_get_d c r = unat (fregs c r)"

definition freg_set_low :: "cpu \<Rightarrow> u32 \<Rightarrow> u32 \<Rightarrow> cpu" where
  "freg_set_low c r v = c\<lparr>fregs := (fregs c)(r := (fregs c r AND 0xFFFFFFFF00000000) OR ucast v)\<rparr>"

definition freg_set_bits :: "cpu \<Rightarrow> u32 \<Rightarrow> u64 \<Rightarrow> cpu" where
  "freg_set_bits c r v = c\<lparr>fregs := (fregs c)(r := v)\<rparr>"

definition freg_set_f :: "cpu \<Rightarrow> u32 \<Rightarrow> nat \<Rightarrow> cpu" where
  "freg_set_f c r v = freg_set_low c r (of_nat v)"

definition freg_set_d :: "cpu \<Rightarrow> u32 \<Rightarrow> nat \<Rightarrow> cpu" where
  "freg_set_d c r v = freg_set_bits c r (of_nat v)"

definition fclass :: "fformat \<Rightarrow> nat \<Rightarrow> u64" where
  "fclass f v =
     (if f_isinf f v \<and> f_lt f v 0 then push_bit 0 1
      else if f_normal f v \<and> f_lt f v 0 then push_bit 1 1
      else if f_subnormal f v \<and> f_lt f v 0 then push_bit 2 1
      else if f_eq f v 0 \<and> f_sign f v then push_bit 3 1
      else if f_eq f v 0 \<and> \<not> f_sign f v then push_bit 4 1
      else if f_subnormal f v \<and> f_lt f 0 v then push_bit 5 1
      else if f_normal f v \<and> f_lt f 0 v then push_bit 6 1
      else if f_isinf f v \<and> f_lt f 0 v then push_bit 7 1
      else if f_isnan f v then push_bit 9 1
      else 0)"

definition fclass_f :: "nat \<Rightarrow> u64" where "fclass_f v = fclass F32 v"
definition fclass_d :: "nat \<Rightarrow> u64" where "fclass_d v = fclass F64 v"

text \<open>\<^verbatim>\<open>isnan(a) ? b : isnan(b) ? a : fmin(a, b)\<close>, and the same with \<^verbatim>\<open>fmax\<close>.\<close>

definition pick :: "(nat \<Rightarrow> nat \<Rightarrow> nat) \<Rightarrow> fformat \<Rightarrow> nat \<Rightarrow> nat \<Rightarrow> nat" where
  "pick g f a b = (if f_isnan f a then b else if f_isnan f b then a else g a b)"

text \<open>The four integer destinations of a conversion, by the code in the rs2 field.\<close>

definition fcvt_to_int :: "fformat \<Rightarrow> u32 \<Rightarrow> nat \<Rightarrow> stop + u64" where
  "fcvt_to_int f sel v =
     (if sel = 0 then andThen (f_to_int f (- (2 ^ 31)) (2 ^ 31 - 1) v) (\<lambda>x. Inr (scast (of_int x :: u32)))
      else if sel = 1 then andThen (f_to_int f 0 (2 ^ 32 - 1) v) (\<lambda>x. Inr (ucast (of_int x :: u32)))
      else if sel = 2 then andThen (f_to_int f (- (2 ^ 63)) (2 ^ 63 - 1) v) (\<lambda>x. Inr (of_int x))
      else if sel = 3 then andThen (f_to_int f 0 (2 ^ 64 - 1) v) (\<lambda>x. Inr (of_int x))
      else Inl (Exit 1))"

definition fcvt_of_int :: "fformat \<Rightarrow> u32 \<Rightarrow> u64 \<Rightarrow> stop + nat" where
  "fcvt_of_int f sel v =
     (if sel = 0 then Inr (f_of_int f (sint (ucast v :: u32)))
      else if sel = 1 then Inr (f_of_int f (uint (ucast v :: u32)))
      else if sel = 2 then Inr (f_of_int f (sint v))
      else if sel = 3 then Inr (f_of_int f (uint v))
      else Inl (Exit 1))"

definition fcmp :: "fformat \<Rightarrow> u32 \<Rightarrow> nat \<Rightarrow> nat \<Rightarrow> stop + u64" where
  "fcmp f f3 a b =
     (if f3 = F3_FEQ then Inr (if f_eq f a b then 1 else 0)
      else if f3 = F3_FLT then Inr (if f_lt f a b then 1 else 0)
      else if f3 = F3_FLE then Inr (if f_le f a b then 1 else 0)
      else Inl (Exit 1))"

definition sign_inject :: "'a::len word \<Rightarrow> u32 \<Rightarrow> 'a word \<Rightarrow> 'a word \<Rightarrow> stop + 'a word" where
  "sign_inject sm f3 a b =
     (if f3 = F3_FSGNJ then Inr ((a AND NOT sm) OR (b AND sm))
      else if f3 = F3_FSGNJN then Inr ((a AND NOT sm) OR (NOT b AND sm))
      else if f3 = F3_FSGNJX then Inr ((a AND NOT sm) OR ((a XOR b) AND sm))
      else Inl (Exit 1))"

section \<open>Single precision\<close>

definition execute_fp_single :: "fpu \<Rightarrow> cpu \<Rightarrow> instruction \<Rightarrow> stop + cpu" where
  "execute_fp_single h c i =
     (let f5 = drop_bit 2 (funct7 i); rs1i = regs c (i_rs1 i);
          fs1 = freg_get_f c (i_rs1 i); fs2 = freg_get_f c (i_rs2 i) in
      if f5 = F5_FADD then Inr (freg_set_f c (i_rd i) (f_add h F32 fs1 fs2))
      else if f5 = F5_FSUB then Inr (freg_set_f c (i_rd i) (f_sub h F32 fs1 fs2))
      else if f5 = F5_FMUL then Inr (freg_set_f c (i_rd i) (f_mul h F32 fs1 fs2))
      else if f5 = F5_FDIV then Inr (freg_set_f c (i_rd i) (f_div h F32 fs1 fs2))
      else if f5 = F5_FSQRT then Inr (freg_set_f c (i_rd i) (f_sqrt h F32 fs1))
      else if f5 = F5_FSGNJ then
        andThen (sign_inject 0x80000000 (funct3 i) (ucast (fregs c (i_rs1 i)) :: u32) (ucast (fregs c (i_rs2 i))))
          (\<lambda>r. Inr (freg_set_low c (i_rd i) r))
      else if f5 = F5_FMINMAX then
        Inr (freg_set_f c (i_rd i) (pick ((if funct3 i = F3_FMIN then f_min else f_max) h F32) F32 fs1 fs2))
      else if f5 = F5_FCVT_FF then
        Inr (freg_set_f c (i_rd i) (f_convert h F64 F32 (freg_get_d c (i_rs1 i))))
      else if f5 = F5_FCVT_FI then
        andThen (fcvt_to_int F32 (i_rs2 i) fs1) (\<lambda>v. Inr (reg_write c (i_rd i) v))
      else if f5 = F5_FCVT_IF then
        andThen (fcvt_of_int F32 (i_rs2 i) rs1i) (\<lambda>v. Inr (freg_set_f c (i_rd i) v))
      else if f5 = F5_FMV_XI then
        Inr (reg_write c (i_rd i) (if funct3 i = 0 then scast (ucast (fregs c (i_rs1 i)) :: u32) else fclass_f fs1))
      else if f5 = F5_FCMP then
        andThen (fcmp F32 (funct3 i) fs1 fs2) (\<lambda>v. Inr (reg_write c (i_rd i) v))
      else if f5 = F5_FMV_IX then Inr (freg_set_low c (i_rd i) (ucast rs1i))
      else Inl (Exit 1))"

section \<open>Double precision\<close>

definition execute_fp_double :: "fpu \<Rightarrow> cpu \<Rightarrow> instruction \<Rightarrow> stop + cpu" where
  "execute_fp_double h c i =
     (let f5 = drop_bit 2 (funct7 i); rs1i = regs c (i_rs1 i);
          fd1 = freg_get_d c (i_rs1 i); fd2 = freg_get_d c (i_rs2 i) in
      if f5 = F5_FADD then Inr (freg_set_d c (i_rd i) (f_add h F64 fd1 fd2))
      else if f5 = F5_FSUB then Inr (freg_set_d c (i_rd i) (f_sub h F64 fd1 fd2))
      else if f5 = F5_FMUL then Inr (freg_set_d c (i_rd i) (f_mul h F64 fd1 fd2))
      else if f5 = F5_FDIV then Inr (freg_set_d c (i_rd i) (f_div h F64 fd1 fd2))
      else if f5 = F5_FSQRT then Inr (freg_set_d c (i_rd i) (f_sqrt h F64 fd1))
      else if f5 = F5_FSGNJ then
        andThen (sign_inject 0x8000000000000000 (funct3 i) (fregs c (i_rs1 i)) (fregs c (i_rs2 i)))
          (\<lambda>r. Inr (freg_set_bits c (i_rd i) r))
      else if f5 = F5_FMINMAX then
        Inr (freg_set_d c (i_rd i) (pick ((if funct3 i = F3_FMIN then f_min else f_max) h F64) F64 fd1 fd2))
      else if f5 = F5_FCVT_FF then
        Inr (freg_set_d c (i_rd i) (f_convert h F32 F64 (freg_get_f c (i_rs1 i))))
      else if f5 = F5_FCVT_FI then
        andThen (fcvt_to_int F64 (i_rs2 i) fd1) (\<lambda>v. Inr (reg_write c (i_rd i) v))
      else if f5 = F5_FCVT_IF then
        andThen (fcvt_of_int F64 (i_rs2 i) rs1i) (\<lambda>v. Inr (freg_set_d c (i_rd i) v))
      else if f5 = F5_FMV_XI then
        Inr (reg_write c (i_rd i) (if funct3 i = 0 then fregs c (i_rs1 i) else fclass_d fd1))
      else if f5 = F5_FCMP then
        andThen (fcmp F64 (funct3 i) fd1 fd2) (\<lambda>v. Inr (reg_write c (i_rd i) v))
      else if f5 = F5_FMV_IX then Inr (freg_set_bits c (i_rd i) rs1i)
      else Inl (Exit 1))"

section \<open>Fused operations (case \<^verbatim>\<open>OP_FMADD\<close> of \<^verbatim>\<open>execute\<close>)\<close>

definition fma_op :: "fpu \<Rightarrow> fformat \<Rightarrow> u32 \<Rightarrow> nat \<Rightarrow> nat \<Rightarrow> nat \<Rightarrow> nat" where
  "fma_op h f op a b c =
     (if op = OP_FMADD then f_muladd h f a b c
      else if op = OP_FMSUB then f_mulsub h f a b c
      else if op = OP_FNMSUB then f_muladd h f (f_neg f a) b c
      else if op = OP_FNMADD then f_mulsub h f (f_neg f a) b c
      else 0)"

definition execute_fma :: "fpu \<Rightarrow> cpu \<Rightarrow> instruction \<Rightarrow> cpu" where
  "execute_fma h c i =
     (let rs3 = drop_bit 2 (funct7 i); fmt = funct7 i AND 3 in
      if fmt = FMT_SINGLE then
        freg_set_f c (i_rd i)
          (fma_op h F32 (opcode i) (freg_get_f c (i_rs1 i)) (freg_get_f c (i_rs2 i)) (freg_get_f c rs3))
      else
        freg_set_d c (i_rd i)
          (fma_op h F64 (opcode i) (freg_get_d c (i_rs1 i)) (freg_get_d c (i_rs2 i)) (freg_get_d c rs3)))"

section \<open>Frames\<close>

definition cpu_step_ok :: "cpu \<Rightarrow> cpu \<Rightarrow> bool" where
  "cpu_step_ok c c' \<longleftrightarrow> (cpu_ok c \<longrightarrow> cpu_ok c') \<and> steps c' = steps c \<and> pc c' = pc c \<and>
     privilege c' = privilege c \<and> halted c' = halted c"

lemma cpu_step_ok_simps [simp]:
  "cpu_step_ok c c" "cpu_step_ok c (reg_write c r v)" "cpu_step_ok c (freg_set_low c r w)"
  "cpu_step_ok c (freg_set_bits c r d)" "cpu_step_ok c (freg_set_f c r n)" "cpu_step_ok c (freg_set_d c r n)"
  by (simp_all add: cpu_step_ok_def freg_set_low_def freg_set_bits_def freg_set_f_def freg_set_d_def cpu_ok_def satp_legal_def)

lemma execute_fp_ok:
  "okR (cpu_step_ok c) (execute_fp_single h c i)" "okR (cpu_step_ok c) (execute_fp_double h c i)"
  "cpu_step_ok c (execute_fma h c i)"
  by (simp_all add: execute_fp_single_def execute_fp_double_def execute_fma_def Let_def)

end
