(* ===== verification/Exec.thy ===== *)
theory Exec
  imports Exec_Fp
begin

text \<open>
  The instructions (\<^verbatim>\<open>execute\<close> and \<^verbatim>\<open>execute_trap_return\<close> of \<^verbatim>\<open>src/cpu.c\<close>).  Each case of
  the opcode switch is one definition: it returns the machine after the case, with the program
  counter advanced where the case breaks and not where it returns.  \<open>notify\<close> is the callback
  of the block device, which a store may reach; \<open>h\<close> is the floating-point unit of the host.
\<close>

section \<open>Integer operations\<close>

definition branch_taken :: "u32 \<Rightarrow> u64 \<Rightarrow> u64 \<Rightarrow> stop + bool" where
  "branch_taken f3 rs1 rs2 =
     (if f3 = F3_BEQ then Inr (rs1 = rs2)
      else if f3 = F3_BNE then Inr (rs1 \<noteq> rs2)
      else if f3 = F3_BLT then Inr (sint rs1 < sint rs2)
      else if f3 = F3_BGE then Inr (sint rs1 \<ge> sint rs2)
      else if f3 = F3_BLTU then Inr (rs1 < rs2)
      else if f3 = F3_BGEU then Inr (rs1 \<ge> rs2)
      else Inl (Exit 1))"

definition i_arith :: "u32 \<Rightarrow> u32 \<Rightarrow> u64 \<Rightarrow> u64 \<Rightarrow> stop + u64" where
  "i_arith f3 f7 rs1 im =
     (let shamt = unat ((ucast im :: u32) AND 0x3F) in
      if f3 = F3_ADD_SUB then Inr (rs1 + im)
      else if f3 = F3_SLT then Inr (if sint rs1 < sint im then 1 else 0)
      else if f3 = F3_SLTU then Inr (if rs1 < im then 1 else 0)
      else if f3 = F3_XOR then Inr (rs1 XOR im)
      else if f3 = F3_OR then Inr (rs1 OR im)
      else if f3 = F3_AND then Inr (rs1 AND im)
      else if f3 = F3_SLL then Inr (push_bit shamt rs1)
      else if f3 = F3_SRL_SRA then
        Inr (if f7 AND F7_ALT \<noteq> 0 then signed_drop_bit shamt rs1 else drop_bit shamt rs1)
      else Inl (Exit 1))"

text \<open>
  Signed 64-bit division: the quotient of the least value by minus one overflows.  The high
  product casts the unsigned registers to the signed 128-bit type, which does not sign-extend
  them; a product past the largest 128-bit value overflows.
\<close>

definition div_signed :: "u64 \<Rightarrow> u64 \<Rightarrow> stop + u64" where
  "div_signed a b =
     (if sint a = - (2 ^ 63) \<and> sint b = - 1 then Inl (Undefined SignedOverflow) else Inr (of_int (sint a sdiv sint b)))"

definition rem_signed :: "u64 \<Rightarrow> u64 \<Rightarrow> stop + u64" where
  "rem_signed a b =
     (if sint a = - (2 ^ 63) \<and> sint b = - 1 then Inl (Undefined SignedOverflow) else Inr (of_int (sint a smod sint b)))"

definition mul_high_i128 :: "u64 \<Rightarrow> u64 \<Rightarrow> stop + u64" where
  "mul_high_i128 a b =
     (if uint a * uint b < 2 ^ 127 then Inr (of_int (uint a * uint b div 2 ^ 64)) else Inl (Undefined SignedOverflow))"

definition mul_high_u128 :: "u64 \<Rightarrow> u64 \<Rightarrow> u64" where
  "mul_high_u128 a b = ucast (drop_bit 64 ((ucast a :: u128) * ucast b))"

definition m_arith :: "u32 \<Rightarrow> u64 \<Rightarrow> u64 \<Rightarrow> stop + u64" where
  "m_arith f3 rs1 rs2 =
     (if f3 = F3_MUL then Inr (rs1 * rs2)
      else if f3 = F3_MULH then mul_high_i128 rs1 rs2
      else if f3 = F3_MULHSU then Inr (mul_high_u128 rs1 rs2)
      else if f3 = F3_MULHU then Inr (mul_high_u128 rs1 rs2)
      else if f3 = F3_DIV then (if rs2 = 0 then Inr (- 1) else div_signed rs1 rs2)
      else if f3 = F3_DIVU then Inr (if rs2 = 0 then - 1 else rs1 div rs2)
      else if f3 = F3_REM then (if rs2 = 0 then Inr rs1 else rem_signed rs1 rs2)
      else if f3 = F3_REMU then Inr (if rs2 = 0 then rs1 else rs1 mod rs2)
      else Inl (Exit 1))"

definition r_arith :: "u32 \<Rightarrow> u32 \<Rightarrow> u64 \<Rightarrow> u64 \<Rightarrow> stop + u64" where
  "r_arith f3 f7 rs1 rs2 =
     (let shamt = unat ((ucast rs2 :: u32) AND 0x3F) in
      if f7 = F7_MEXT then m_arith f3 rs1 rs2
      else if f3 = F3_ADD_SUB then Inr (if f7 = F7_ALT then rs1 - rs2 else rs1 + rs2)
      else if f3 = F3_SLL then Inr (push_bit shamt rs1)
      else if f3 = F3_SLT then Inr (if sint rs1 < sint rs2 then 1 else 0)
      else if f3 = F3_SLTU then Inr (if rs1 < rs2 then 1 else 0)
      else if f3 = F3_XOR then Inr (rs1 XOR rs2)
      else if f3 = F3_SRL_SRA then Inr (if f7 = F7_ALT then signed_drop_bit shamt rs1 else drop_bit shamt rs1)
      else if f3 = F3_OR then Inr (rs1 OR rs2)
      else if f3 = F3_AND then Inr (rs1 AND rs2)
      else Inl (Exit 1))"

definition i_arith_w :: "u32 \<Rightarrow> u32 \<Rightarrow> u64 \<Rightarrow> u64 \<Rightarrow> stop + u32" where
  "i_arith_w f3 f7 rs1 im =
     (let rs1w = ucast rs1 :: u32; shamt = unat ((ucast im :: u32) AND 0x1F) in
      if f3 = F3_ADD_SUB then Inr (rs1w + ucast im)
      else if f3 = F3_SLL then Inr (push_bit shamt rs1w)
      else if f3 = F3_SRL_SRA then Inr (if f7 = F7_ALT then signed_drop_bit shamt rs1w else drop_bit shamt rs1w)
      else Inl (Exit 1))"

definition div_signed_w :: "u32 \<Rightarrow> u32 \<Rightarrow> stop + u32" where
  "div_signed_w a b =
     (if sint a = - (2 ^ 31) \<and> sint b = - 1 then Inl (Undefined SignedOverflow) else Inr (of_int (sint a sdiv sint b)))"

definition rem_signed_w :: "u32 \<Rightarrow> u32 \<Rightarrow> stop + u32" where
  "rem_signed_w a b =
     (if sint a = - (2 ^ 31) \<and> sint b = - 1 then Inl (Undefined SignedOverflow) else Inr (of_int (sint a smod sint b)))"

definition m_arith_w :: "u32 \<Rightarrow> u32 \<Rightarrow> u32 \<Rightarrow> stop + u32" where
  "m_arith_w f3 rs1w rs2w =
     (if f3 = F3_MUL then Inr (rs1w * rs2w)
      else if f3 = F3_DIV then (if rs2w = 0 then Inr (- 1) else div_signed_w rs1w rs2w)
      else if f3 = F3_DIVU then Inr (if rs2w = 0 then - 1 else rs1w div rs2w)
      else if f3 = F3_REM then (if rs2w = 0 then Inr rs1w else rem_signed_w rs1w rs2w)
      else if f3 = F3_REMU then Inr (if rs2w = 0 then rs1w else rs1w mod rs2w)
      else Inl (Exit 1))"

definition r_arith_w :: "u32 \<Rightarrow> u32 \<Rightarrow> u64 \<Rightarrow> u64 \<Rightarrow> stop + u32" where
  "r_arith_w f3 f7 rs1 rs2 =
     (let rs1w = ucast rs1 :: u32; rs2w = ucast rs2 :: u32; shamt = unat (rs2w AND 0x1F) in
      if f7 = F7_MEXT then m_arith_w f3 rs1w rs2w
      else if f3 = F3_ADD_SUB then Inr (if f7 = F7_ALT then rs1w - rs2w else rs1w + rs2w)
      else if f3 = F3_SLL then Inr (push_bit shamt rs1w)
      else if f3 = F3_SRL_SRA then Inr (if f7 = F7_ALT then signed_drop_bit shamt rs1w else drop_bit shamt rs1w)
      else Inl (Exit 1))"

section \<open>The machine around an operation\<close>

definition set_pc :: "machine \<Rightarrow> u64 \<Rightarrow> machine" where
  "set_pc m a = m\<lparr>m_cpu := (m_cpu m)\<lparr>pc := a\<rparr>\<rparr>"

definition set_cpu :: "machine \<Rightarrow> cpu \<Rightarrow> machine" where
  "set_cpu m c = m\<lparr>m_cpu := c\<rparr>"

text \<open>\<^verbatim>\<open>cpu->pc += inst.size\<close> at the end of \<^verbatim>\<open>execute\<close>.\<close>

definition advance :: "instruction \<Rightarrow> machine \<Rightarrow> machine" where
  "advance i m = set_pc m (pc (m_cpu m) + ucast (isize i))"

definition finish :: "instruction \<Rightarrow> machine \<Rightarrow> stop + u64 \<Rightarrow> stop + machine" where
  "finish i m val = andThen val (\<lambda>v. Inr (advance i (with_reg m (i_rd i) v)))"

text \<open>A load: the value of the width, or the machine after the fault.\<close>

definition finish_load :: "instruction \<Rightarrow> ('w \<Rightarrow> machine \<Rightarrow> machine) \<Rightarrow> stop + 'w option \<times> machine \<Rightarrow> stop + machine" where
  "finish_load i put r =
     andThen r (\<lambda>(v, m). case v of None \<Rightarrow> Inr m | Some x \<Rightarrow> Inr (advance i (put x m)))"

definition finish_store :: "instruction \<Rightarrow> stop + bool \<times> machine \<Rightarrow> stop + machine" where
  "finish_store i r = andThen r (\<lambda>(ok, m). Inr (if ok then advance i m else m))"

definition execute_branch :: "machine \<Rightarrow> instruction \<Rightarrow> stop + machine" where
  "execute_branch m i =
     (let c = m_cpu m in
      andThen (branch_taken (funct3 i) (regs c (i_rs1 i)) (regs c (i_rs2 i))) (\<lambda>taken.
        Inr (set_pc m (if taken then pc c + imm i else pc c + ucast (isize i)))))"

definition execute_load :: "notify_fn \<Rightarrow> machine \<Rightarrow> instruction \<Rightarrow> stop + machine" where
  "execute_load notify m i =
     (let va = regs (m_cpu m) (i_rs1 i) + imm i; f3 = funct3 i; put = (\<lambda>v m. with_reg m (i_rd i) v) in
      if f3 = F3_LB then finish_load i (\<lambda>v. put (scast v)) (vm_read8 notify m va)
      else if f3 = F3_LH then finish_load i (\<lambda>v. put (scast v)) (vm_read16 notify m va)
      else if f3 = F3_LW then finish_load i (\<lambda>v. put (scast v)) (vm_read32 notify m va)
      else if f3 = F3_LD then finish_load i put (vm_read64 notify m va)
      else if f3 = F3_LBU then finish_load i (\<lambda>v. put (ucast v)) (vm_read8 notify m va)
      else if f3 = F3_LHU then finish_load i (\<lambda>v. put (ucast v)) (vm_read16 notify m va)
      else if f3 = F3_LWU then finish_load i (\<lambda>v. put (ucast v)) (vm_read32 notify m va)
      else Inl (Exit 1))"

definition execute_store :: "notify_fn \<Rightarrow> machine \<Rightarrow> instruction \<Rightarrow> stop + machine" where
  "execute_store notify m i =
     (let va = regs (m_cpu m) (i_rs1 i) + imm i; f3 = funct3 i; rs2 = regs (m_cpu m) (i_rs2 i) in
      if f3 = F3_SB then finish_store i (vm_write8 notify m va (ucast rs2))
      else if f3 = F3_SH then finish_store i (vm_write16 notify m va (ucast rs2))
      else if f3 = F3_SW then finish_store i (vm_write32 notify m va (ucast rs2))
      else if f3 = F3_SD then finish_store i (vm_write64 notify m va rs2)
      else Inl (Exit 1))"

definition execute_fp_load :: "notify_fn \<Rightarrow> machine \<Rightarrow> instruction \<Rightarrow> stop + machine" where
  "execute_fp_load notify m i =
     (let va = regs (m_cpu m) (i_rs1 i) + imm i in
      if funct3 i = F3_FLW_FSW then
        finish_load i (\<lambda>v m. set_cpu m (freg_set_low (m_cpu m) (i_rd i) v)) (vm_read32 notify m va)
      else finish_load i (\<lambda>v m. set_cpu m (freg_set_bits (m_cpu m) (i_rd i) v)) (vm_read64 notify m va))"

definition execute_fp_store :: "notify_fn \<Rightarrow> machine \<Rightarrow> instruction \<Rightarrow> stop + machine" where
  "execute_fp_store notify m i =
     (let va = regs (m_cpu m) (i_rs1 i) + imm i; v = fregs (m_cpu m) (i_rs2 i) in
      if funct3 i = F3_FLW_FSW then finish_store i (vm_write32 notify m va (ucast v))
      else finish_store i (vm_write64 notify m va v))"

definition finish_cpu :: "instruction \<Rightarrow> machine \<Rightarrow> stop + cpu \<Rightarrow> stop + machine" where
  "finish_cpu i m r = andThen r (\<lambda>c. Inr (advance i (set_cpu m c)))"

definition execute_fp :: "fpu \<Rightarrow> machine \<Rightarrow> instruction \<Rightarrow> stop + machine" where
  "execute_fp h m i =
     finish_cpu i m
       (if funct7 i AND 3 = FMT_SINGLE then execute_fp_single h (m_cpu m) i else execute_fp_double h (m_cpu m) i)"

section \<open>System instructions\<close>

definition csr_new_value :: "u32 \<Rightarrow> u64 \<Rightarrow> u64 \<Rightarrow> u64" where
  "csr_new_value f3 old src =
     (let op = f3 AND 0x3 in
      if op = 1 then src else if op = 2 then old OR src else if op = 3 then old AND NOT src else old)"

definition execute_csr :: "machine \<Rightarrow> instruction \<Rightarrow> machine" where
  "execute_csr m i =
     (let c = m_cpu m;
          csr_addr = ucast (imm i AND 0xFFF) :: u32;
          min_priv = drop_bit 8 csr_addr AND 0x3 in
      if privilege c < min_priv then set_cpu m (cpu_trap c EXC_CAUSE_ILLEGAL_INSTR 0)
      else
        (let old = csr_read c csr_addr;
             src = (if funct3 i AND 0x4 \<noteq> 0 then ucast (i_rs1 i) else regs c (i_rs1 i));
             c = (if funct3 i AND 0x3 = 1 \<or> src \<noteq> 0 then csr_write c csr_addr (csr_new_value (funct3 i) old src) else c)
         in advance i (set_cpu m (reg_write c (i_rd i) old))))"

definition execute_trap_return :: "machine \<Rightarrow> u64 \<Rightarrow> stop + machine" where
  "execute_trap_return m im =
     (let c = m_cpu m in
      if im = SYSTEM_ECALL then
        Inr (if privilege c = PRIV_S then sbi_ecall m else set_cpu m (cpu_trap c (8 + ucast (privilege c)) 0))
      else if im = SYSTEM_EBREAK then Inr (set_cpu m (cpu_trap c EXC_CAUSE_BREAKPOINT 0))
      else if im = SYSTEM_WFI then Inr (set_pc m (pc c + INSN_SIZE))
      else if im = SYSTEM_SRET then Inr (set_cpu m (execute_sret c))
      else if im = SYSTEM_MRET then Inr (set_cpu m (execute_mret c))
      else if drop_bit 5 (ucast im :: u32) = SYSTEM_FUNCT7_SFENCE_VMA then Inr (set_pc m (pc c + INSN_SIZE))
      else Inl (Exit 1))"

section \<open>The switch\<close>

definition execute :: "fpu \<Rightarrow> notify_fn \<Rightarrow> machine \<Rightarrow> instruction \<Rightarrow> stop + machine" where
  "execute h notify m i =
     (let c = m_cpu m; rs1 = regs c (i_rs1 i); rs2 = regs c (i_rs2 i); op = opcode i in
      if op = OP_LUI then finish i m (Inr (imm i))
      else if op = OP_AUIPC then finish i m (Inr (pc c + imm i))
      else if op = OP_JAL then
        Inr (set_pc (with_reg m (i_rd i) (pc c + ucast (isize i))) (pc c + imm i))
      else if op = OP_JALR then
        Inr (set_pc (with_reg m (i_rd i) (pc c + ucast (isize i))) ((rs1 + imm i) AND NOT 1))
      else if op = OP_BRANCH then execute_branch m i
      else if op = OP_LOAD then execute_load notify m i
      else if op = OP_STORE then execute_store notify m i
      else if op = OP_I_ARITH then finish i m (i_arith (funct3 i) (funct7 i) rs1 (imm i))
      else if op = OP_R_ARITH then finish i m (r_arith (funct3 i) (funct7 i) rs1 rs2)
      else if op = OP_I_ARITH_W then
        finish i m (andThen (i_arith_w (funct3 i) (funct7 i) rs1 (imm i)) (\<lambda>v. Inr (scast v)))
      else if op = OP_R_ARITH_W then
        finish i m (andThen (r_arith_w (funct3 i) (funct7 i) rs1 rs2) (\<lambda>v. Inr (scast v)))
      else if op = OP_FLW_FLD then execute_fp_load notify m i
      else if op = OP_FSW_FSD then execute_fp_store notify m i
      else if op \<in> {OP_FMADD, OP_FMSUB, OP_FNMSUB, OP_FNMADD} then finish_cpu i m (Inr (execute_fma h c i))
      else if op = OP_FENCE then Inr (advance i m)
      else if op = OP_AMO then andThen (execute_a notify m i) (\<lambda>m. Inr (advance i m))
      else if op = OP_FP then execute_fp h m i
      else if op = OP_SYSTEM then
        (if funct3 i = 0 then execute_trap_return m (imm i) else Inr (execute_csr m i))
      else Inl (Exit 1))"

section \<open>Every instruction maintains the invariant\<close>

lemma set_simps [simp]:
  "m_cpu (set_pc m a) = (m_cpu m)\<lparr>pc := a\<rparr>" "m_cpu (set_cpu m c) = c" "m_cpu (with_reg m r v) = reg_write (m_cpu m) r v"
  "m_mem (set_pc m a) = m_mem m" "m_mem (set_cpu m c) = m_mem m" "m_mem (with_reg m r v) = m_mem m"
  by (simp_all add: set_pc_def set_cpu_def with_reg_def)

lemma keeps_set_pc [simp]: "keeps m (set_pc m a)"
  by (auto simp: set_pc_def intro!: keeps_cpu)

lemma keeps_advance [simp]: "keeps m (advance i m)"
  by (simp add: advance_def)

lemma keeps_set_cpu: "(cpu_ok (m_cpu m) \<Longrightarrow> cpu_ok c) \<Longrightarrow> steps c = steps (m_cpu m) \<Longrightarrow> keeps m (set_cpu m c)"
  unfolding set_cpu_def by (rule keeps_cpu) auto

lemma keeps_then_advance: "keeps m m' \<Longrightarrow> keeps m (advance i m')"
  by (erule kp.trans) simp

lemma keeps_then_pc: "keeps m m' \<Longrightarrow> keeps m (set_pc m' a)"
  by (erule kp.trans) simp

lemma cpu_ok_freg [simp]: "cpu_ok (freg_set_low c r v) = cpu_ok c" "cpu_ok (freg_set_bits c r d) = cpu_ok c"
  "steps (freg_set_low c r v) = steps c" "steps (freg_set_bits c r d) = steps c"
  by (simp_all add: freg_set_low_def freg_set_bits_def cpu_ok_def satp_legal_def)

lemma cpu_ok_csr_write [simp]: "cpu_ok c \<Longrightarrow> cpu_ok (csr_write c a v)"
  by (simp add: cpu_ok_def satp_legal_write)

lemma cpu_ok_sret: "cpu_ok c \<Longrightarrow> cpu_ok (execute_sret c)"
  by (auto simp: execute_sret_def Let_def cpu_ok_trap) (auto simp: cpu_ok_def satp_legal_write)

lemma mpp_field_le: "ucast (drop_bit 11 ((st :: u64) AND 0x1800)) \<le> (3 :: u32)"
proof -
  have "drop_bit 11 (st AND 0x1800) = take_bit 2 (drop_bit 11 st)"
    by (rule bit_word_eqI) (auto simp: bit_simps bit_facts)
  then have "(ucast (drop_bit 11 (st AND 0x1800)) :: u32) = take_bit 2 (ucast (drop_bit 11 st))"
    by (intro bit_word_eqI) (auto simp: bit_simps)
  also have "... \<le> mask 2" by (simp add: take_bit_eq_mask word_and_le1)
  finally show ?thesis by (simp add: mask_eq_exp_minus_1)
qed

lemma cpu_ok_mret: "cpu_ok c \<Longrightarrow> cpu_ok (execute_mret c)"
  using mpp_field_le by (auto simp: execute_mret_def Let_def cpu_ok_trap) (auto simp: cpu_ok_def satp_legal_write)

lemma steps_returns [simp]: "steps (execute_sret c) = steps c" "steps (execute_mret c) = steps c"
  by (simp_all add: execute_sret_def execute_mret_def Let_def)

lemma finish_keeps: "moves keeps m (finish i m v)"
  by (cases v) (simp_all add: finish_def keeps_then_advance)

lemma finish_cpu_keeps: "okR (cpu_step_ok (m_cpu m)) r \<Longrightarrow> moves keeps m (finish_cpu i m r)"
  by (cases r) (auto simp: finish_cpu_def cpu_step_ok_def intro!: keeps_then_advance keeps_set_cpu)

lemma execute_branch_keeps: "moves keeps m (execute_branch m i)"
  by (auto simp: execute_branch_def Let_def intro!: kp.moves_pure)

lemma execute_csr_keeps: "keeps m (execute_csr m i)"
proof -
  have "steps (csr_write c a v) = steps c" for c a v by simp
  then show ?thesis
    by (auto simp: execute_csr_def Let_def intro!: keeps_then_advance keeps_set_cpu cpu_ok_trap)
qed

lemma execute_trap_return_keeps: "moves keeps m (execute_trap_return m im)"
  by (auto simp: execute_trap_return_def Let_def intro!: keeps_set_cpu cpu_ok_trap cpu_ok_sret cpu_ok_mret)

lemma finish_load_keeps:
  "gives keeps m r \<Longrightarrow> (\<And>x m'. keeps m' (put x m')) \<Longrightarrow> moves keeps m (finish_load i put r)"
  unfolding finish_load_def by (erule kp.gives_moves) (auto intro!: keeps_then_advance split: option.split)

lemma finish_store_keeps: "gives keeps m r \<Longrightarrow> moves keeps m (finish_store i r)"
  unfolding finish_store_def by (erule kp.gives_moves) auto

context notifier
begin

lemma execute_memory_keeps:
  "moves keeps m (execute_load notify m i)" "moves keeps m (execute_store notify m i)"
  "moves keeps m (execute_fp_load notify m i)" "moves keeps m (execute_fp_store notify m i)"
  by (auto simp: execute_load_def execute_store_def execute_fp_load_def execute_fp_store_def Let_def
      intro!: finish_load_keeps finish_store_keeps keeps_set_cpu)

lemma execute_keeps: "moves keeps m (execute h notify m i)"
proof -
  have amo: "moves keeps m (andThen (execute_a notify m i) (\<lambda>m. Inr (advance i m)))"
    by (auto intro!: kp.moves_bind)
  show ?thesis
    unfolding execute_def Let_def
    by (simp add: amo finish_keeps finish_cpu_keeps execute_fp_ok execute_fp_def execute_branch_keeps
        execute_csr_keeps execute_trap_return_keeps execute_memory_keeps keeps_then_pc)
qed

end

end
