(* ===== verification/Step.thy ===== *)
theory Step
  imports Exec
begin

text \<open>
  One step of the processor (\<^verbatim>\<open>cpu_check_interrupts\<close> and \<^verbatim>\<open>cpu_step\<close> of \<^verbatim>\<open>src/cpu.c\<close>) and the
  loop of \<^verbatim>\<open>main\<close>.  The loop is a step relation; \<open>run\<close> is its executable form with a number of
  iterations.
\<close>

section \<open>Interrupts\<close>

definition poll_source :: "irq_source \<Rightarrow> machine \<Rightarrow> stop + machine" where
  "poll_source s m =
     (case s of
        UartSource \<Rightarrow> uart_irq_source m
      | ClintSource \<Rightarrow> Inr (m\<lparr>m_cpu := clint_irq_source (m_clint m) (m_cpu m)\<rparr>))"

primrec poll_sources :: "irq_source list \<Rightarrow> machine \<Rightarrow> stop + machine" where
  "poll_sources [] m = Inr m"
| "poll_sources (s # ss) m = andThen (poll_source s m) (poll_sources ss)"

text \<open>The loop from bit \<open>n - 1\<close> down to bit 0.\<close>

primrec highest_bit :: "nat \<Rightarrow> u64 \<Rightarrow> nat option" where
  "highest_bit 0 w = None"
| "highest_bit (Suc k) w = (if w AND push_bit k 1 \<noteq> 0 then Some k else highest_bit k w)"

definition interrupt_cause :: "nat \<Rightarrow> u64" where
  "interrupt_cause b = push_bit 63 1 OR of_nat b"

text \<open>The interrupt to deliver, if any: the first of the two loops that finds a bit.\<close>

definition select_interrupt :: "cpu \<Rightarrow> nat option" where
  "select_interrupt c =
     (let pending = csrs c CSR_MIP AND csrs c CSR_MIE in
      if pending = 0 then None
      else
        (let st = csrs c CSR_MSTATUS;
             m_pending = pending AND NOT (csrs c CSR_MIDELEG);
             s_pending = pending AND csrs c CSR_MIDELEG;
             m_bit = (if m_pending \<noteq> 0 \<and> (privilege c < PRIV_M \<or> st AND MSTATUS_MIE \<noteq> 0)
                      then highest_bit 12 m_pending else None)
         in case m_bit of
              Some b \<Rightarrow> Some b
            | None \<Rightarrow>
                (if s_pending \<noteq> 0 \<and> (privilege c = PRIV_U \<or> privilege c = PRIV_S \<and> st AND MSTATUS_SIE \<noteq> 0)
                 then highest_bit 10 s_pending else None)))"

definition cpu_check_interrupts :: "machine \<Rightarrow> stop + bool \<times> machine" where
  "cpu_check_interrupts m =
     andThen (poll_sources (m_sources m) m) (\<lambda>m.
       case select_interrupt (m_cpu m) of
         None \<Rightarrow> Inr (False, m)
       | Some b \<Rightarrow> Inr (True, set_cpu m (cpu_trap (m_cpu m) (interrupt_cause b) 0)))"

section \<open>One step\<close>

definition fetch_execute :: "fpu \<Rightarrow> notify_fn \<Rightarrow> machine \<Rightarrow> stop + machine" where
  "fetch_execute h notify m =
     andThen (mmu_translate notify m (pc (m_cpu m)) MMU_FETCH) (\<lambda>(pc_pa, m).
       if pc_pa = MMU_FAULT then Inr m
       else andThen (mem_read16 m pc_pa) (\<lambda>(lo, m).
         if lo AND 0x3 \<noteq> 0x3 then execute h notify m (decode_rvc lo)
         else andThen (mem_read32 m pc_pa) (\<lambda>(raw, m). execute h notify m (decode raw))))"

definition tick :: "machine \<Rightarrow> machine" where
  "tick m = set_cpu m ((m_cpu m)\<lparr>steps := steps (m_cpu m) + 1\<rparr>)"

definition cpu_step :: "fpu \<Rightarrow> notify_fn \<Rightarrow> machine \<Rightarrow> stop + machine" where
  "cpu_step h notify m =
     andThen (cpu_check_interrupts (tick m)) (\<lambda>(taken, m).
       if taken then Inr m else fetch_execute h notify m)"

section \<open>The loop of main\<close>

text \<open>\<open>k\<close> bounds the loops and the nesting of the block device's callback.\<close>

inductive emu_step :: "fpu \<Rightarrow> nat \<Rightarrow> machine \<Rightarrow> machine \<Rightarrow> bool" for h :: fpu and k :: nat where
  step: "\<not> halted (m_cpu m) \<Longrightarrow> cpu_step h (blk_notify k) m = Inr m' \<Longrightarrow> emu_step h k m m'"

inductive reachable :: "fpu \<Rightarrow> nat \<Rightarrow> machine \<Rightarrow> nat \<Rightarrow> machine \<Rightarrow> bool" for h :: fpu and k :: nat and m0 :: machine where
  start: "reachable h k m0 0 m0"
| step: "reachable h k m0 n m \<Longrightarrow> emu_step h k m m' \<Longrightarrow> reachable h k m0 (Suc n) m'"

inductive_simps emu_step_iff: "emu_step h k m m'"

primrec run :: "fpu \<Rightarrow> nat \<Rightarrow> nat \<Rightarrow> machine \<Rightarrow> stop + machine" where
  "run h k 0 m = Inr m"
| "run h k (Suc n) m = (if halted (m_cpu m) then Inr m else andThen (cpu_step h (blk_notify k) m) (run h k n))"

section \<open>Frames\<close>

lemma poll_source_keeps: "moves keeps m (poll_source s m)"
proof (cases s)
  case UartSource
  have "moves bus_step m (uart_irq_source m)"
    by (rule moves_bus_step) (simp_all add: uart_irq_source_keep uart_irq_source_line)
  with UartSource show ?thesis by (simp add: poll_source_def moves_keeps)
next
  case ClintSource
  have "cpu_ok (clint_irq_source cl c) = cpu_ok c" "steps (clint_irq_source cl c) = steps c" for cl c
    by (simp_all add: clint_irq_source_def)
  with ClintSource show ?thesis by (auto simp: poll_source_def intro!: keeps_cpu)
qed

lemma poll_sources_keeps: "moves keeps m (poll_sources ss m)"
  by (induction ss arbitrary: m) (auto intro!: kp.moves_bind poll_source_keeps)

lemma cpu_check_interrupts_keeps: "gives keeps m (cpu_check_interrupts m)"
  unfolding cpu_check_interrupts_def
  by (rule kp.moves_gives [OF poll_sources_keeps]) (auto intro!: keeps_set_cpu cpu_ok_trap split: option.split)

context notifier
begin

lemma fetch_execute_keeps: "moves keeps m (fetch_execute h notify m)"
  by (auto simp: fetch_execute_def intro!: kp.gives_moves execute_keeps)

text \<open>A step maintains the invariant and advances the step counter by one.\<close>

lemma cpu_step_keeps: "moves keeps (tick m) (cpu_step h notify m)"
  unfolding cpu_step_def
  by (rule kp.gives_moves [OF cpu_check_interrupts_keeps]) (simp add: fetch_execute_keeps)

end

lemma emu_step_keeps: "emu_step h k m m' \<Longrightarrow> keeps (tick m) m'"
  unfolding emu_step_iff using moves_elim [OF blk_port.cpu_step_keeps] by blast

lemma tick_ok [simp]: "cpu_ok (m_cpu (tick m)) = cpu_ok (m_cpu m)" "layout (tick m) = layout m" "m_sources (tick m) = m_sources m"
  "steps (m_cpu (tick m)) = steps (m_cpu m) + 1"
  by (simp_all add: tick_def cpu_ok_def satp_legal_def layout_def set_cpu_def)

lemma run_Suc: "run h k (Suc n) m = andThen (run h k n m) (\<lambda>m. if halted (m_cpu m) then Inr m else cpu_step h (blk_notify k) m)"
proof (induction n arbitrary: m)
  case 0
  then show ?case by (cases "cpu_step h (blk_notify k) m") simp_all
next
  case (Suc n)
  show ?case
  proof (cases "halted (m_cpu m)")
    case False
    have "run h k (Suc n) = (\<lambda>m. andThen (run h k n m)
        (\<lambda>m. if halted (m_cpu m) then Inr m else cpu_step h (blk_notify k) m))"
      by (rule ext) (rule Suc.IH)
    with False show ?thesis
      by (subst run.simps(2)) (simp only: if_False andThen_assoc run.simps(2))
  qed simp
qed

lemma reachable_run: "reachable h k m0 n m \<Longrightarrow> run h k n m0 = Inr m"
  by (induction rule: reachable.induct) (simp_all add: run_Suc emu_step_iff del: run.simps(2))

lemma run_reachable:
  "run h k n m0 = Inr m \<Longrightarrow> \<exists>j \<le> n. reachable h k m0 j m \<and> (j < n \<longrightarrow> halted (m_cpu m))"
proof (induction n arbitrary: m)
  case 0
  then show ?case by (auto intro: reachable.start)
next
  case (Suc n)
  then obtain m1 where m1: "run h k n m0 = Inr m1"
    "(if halted (m_cpu m1) then Inr m1 else cpu_step h (blk_notify k) m1) = Inr m"
    by (auto simp: run_Suc andThen_Inr_iff simp del: run.simps(2))
  from Suc.IH [OF m1(1)] obtain j where j: "j \<le> n" "reachable h k m0 j m1" "j < n \<longrightarrow> halted (m_cpu m1)"
    by blast
  show ?case
  proof (cases "halted (m_cpu m1)")
    case True
    then show ?thesis using m1 j by (intro exI [of _ j]) auto
  next
    case False
    then have "j = n" "cpu_step h (blk_notify k) m1 = Inr m" using m1 j by auto
    then show ?thesis
      using False j by (intro exI [of _ "Suc n"]) (auto intro: reachable.step emu_step.step)
  qed
qed

text \<open>The invariant along a run, with the state it starts from.\<close>

lemma reachable_keeps:
  assumes "reachable h k m0 n m"
  shows "(cpu_ok (m_cpu m0) \<longrightarrow> cpu_ok (m_cpu m)) \<and> layout m = layout m0 \<and> m_sources m = m_sources m0 \<and>
         steps (m_cpu m) = steps (m_cpu m0) + of_nat n"
  using assms
proof (induction rule: reachable.induct)
  case (step n m m')
  then show ?case using emu_step_keeps [OF step.hyps(2)] by (simp add: keeps_def)
qed simp

text \<open>C2: The invariant of the machine holds in every reachable state. From a state where x0 is
  zero, the privilege is a two-bit encoding and the mode of satp is bare or Sv39, every state the
  main loop reaches, through any instructions, traps, interrupts, device accesses and nested
  callbacks, satisfies the same; the memory map and the interrupt sources never change; and
  after n steps the time the guest reads has advanced by exactly n.  The encoding may be the
  reserved one, 2, which mret reaches: see \<open>mret_reserved_privilege\<close>.\<close>

theorem reachable_invariant:
  assumes "reachable h k m0 n m" and "cpu_ok (m_cpu m0)"
  shows "regs (m_cpu m) 0 = 0 \<and> privilege (m_cpu m) \<le> 3 \<and> satp_legal (m_cpu m) \<and> layout m = layout m0 \<and> m_sources m = m_sources m0 \<and>
         csr_read (m_cpu m) CSR_TIME = csr_read (m_cpu m0) CSR_TIME + of_nat n"
  using assms reachable_keeps [OF assms(1)] by (simp add: cpu_ok_def csr_read_def)

section \<open>Which interrupt is taken\<close>

lemma highest_bit_Some:
  "n \<le> 64 \<Longrightarrow> highest_bit n w = Some b \<longleftrightarrow> b < n \<and> bit w b \<and> (\<forall>j. b < j \<and> j < n \<longrightarrow> \<not> bit w j)"
  by (induction n) (auto simp: and_exp_zero_iff less_Suc_eq)

lemma highest_bit_None: "n \<le> 64 \<Longrightarrow> highest_bit n w = None \<longleftrightarrow> (\<forall>j < n. \<not> bit w j)"
  by (induction n) (auto simp: and_exp_zero_iff less_Suc_eq)

text \<open>
  When an interrupt may be taken: pending, enabled, and the mode it is delivered to is either
  above the current one or has its global enable bit set.  The code looks at the bits 0 to 11
  for machine mode and 0 to 9 for supervisor mode.
\<close>

definition interrupt_ready :: "cpu \<Rightarrow> nat \<Rightarrow> bool" where
  "interrupt_ready c b \<longleftrightarrow> bit (csrs c CSR_MIP) b \<and> bit (csrs c CSR_MIE) b \<and>
     (if bit (csrs c CSR_MIDELEG) b
      then b < 10 \<and> (privilege c = PRIV_U \<or> privilege c = PRIV_S \<and> bit (csrs c CSR_MSTATUS) 1)
      else b < 12 \<and> (privilege c < PRIV_M \<or> bit (csrs c CSR_MSTATUS) 3))"

definition delegated :: "cpu \<Rightarrow> nat \<Rightarrow> bool" where
  "delegated c b \<longleftrightarrow> bit (csrs c CSR_MIDELEG) b"

text \<open>The order of the code: machine interrupts first, higher numbers first in one mode.\<close>

definition precedes :: "cpu \<Rightarrow> nat \<Rightarrow> nat \<Rightarrow> bool" where
  "precedes c b b' \<longleftrightarrow> (\<not> delegated c b \<and> delegated c b') \<or> (delegated c b = delegated c b' \<and> b' \<le> b)"

text \<open>The order of the architecture within one mode: MEI, MSI, MTI, SEI, SSI, STI.\<close>

definition arch_order :: "nat list" where
  "arch_order = [11, 3, 7, 9, 1, 5]"

definition arch_rank :: "nat \<Rightarrow> nat" where
  "arch_rank b = length (takeWhile (\<lambda>x. x \<noteq> b) arch_order)"

definition arch_before :: "cpu \<Rightarrow> nat \<Rightarrow> nat \<Rightarrow> bool" where
  "arch_before c a b \<longleftrightarrow> (\<not> delegated c a \<and> delegated c b) \<or>
     (delegated c a = delegated c b \<and> a \<in> set arch_order \<and> b \<in> set arch_order \<and> arch_rank a < arch_rank b)"

lemma order_inversions:
  "arch_before c a b \<Longrightarrow> precedes c b a \<Longrightarrow>
     delegated c a = delegated c b \<and> (b, a) \<in> {(9, 7), (9, 3), (7, 3), (5, 3), (5, 1)}"
proof -
  assume arch: "arch_before c a b" and code: "precedes c b a"
  have rank: "arch_rank 11 = 0" "arch_rank 3 = 1" "arch_rank 7 = 2" "arch_rank 9 = 3" "arch_rank 1 = 4" "arch_rank 5 = 5"
    by (simp_all add: arch_rank_def arch_order_def)
  have eq: "delegated c a = delegated c b" and le: "a \<le> b" "arch_rank a < arch_rank b"
    and mem: "a \<in> set arch_order" "b \<in> set arch_order"
    using arch code by (auto simp: arch_before_def precedes_def)
  from mem(1) have "a = 11 \<or> a = 3 \<or> a = 7 \<or> a = 9 \<or> a = 1 \<or> a = 5" by (simp add: arch_order_def)
  moreover from mem(2) have "b = 11 \<or> b = 3 \<or> b = 7 \<or> b = 9 \<or> b = 1 \<or> b = 5" by (simp add: arch_order_def)
  ultimately have "(b, a) \<in> {(9, 7), (9, 3), (7, 3), (5, 3), (5, 1)}"
    using le by (elim disjE) (simp_all add: rank rank(5) [unfolded One_nat_def])
  with eq show ?thesis by simp
qed

lemma m_class_iff: "bit (csrs c CSR_MIP AND csrs c CSR_MIE AND NOT (csrs c CSR_MIDELEG)) b \<longleftrightarrow>
    bit (csrs c CSR_MIP) b \<and> bit (csrs c CSR_MIE) b \<and> \<not> delegated c b"
  by (auto simp: bit_simps delegated_def dest: bit_word_bound)

lemma highest_if:
  assumes "n \<le> 64" "\<And>j. j < n \<and> e \<and> bit w j \<longleftrightarrow> R j"
  shows "(if e then highest_bit n w else None) = None \<longleftrightarrow> (\<forall>j. \<not> R j)"
    "(if e then highest_bit n w else None) = Some b \<longleftrightarrow> R b \<and> (\<forall>j. R j \<longrightarrow> j \<le> b)"
  unfolding assms(2) [symmetric]
  using assms(1) by (auto simp: highest_bit_None highest_bit_Some not_less [symmetric])

lemma select_interrupt_order:
  "(select_interrupt c = None \<longleftrightarrow> (\<forall>b. \<not> interrupt_ready c b)) \<and>
   (select_interrupt c = Some b \<longleftrightarrow> interrupt_ready c b \<and> (\<forall>b'. interrupt_ready c b' \<longrightarrow> precedes c b b'))"
proof -
  let ?p = "csrs c CSR_MIP AND csrs c CSR_MIE"
  let ?mp = "?p AND NOT (csrs c CSR_MIDELEG)"
  let ?sp = "?p AND csrs c CSR_MIDELEG"
  let ?me = "privilege c < PRIV_M \<or> bit (csrs c CSR_MSTATUS) 3"
  let ?se = "privilege c = PRIV_U \<or> privilege c = PRIV_S \<and> bit (csrs c CSR_MSTATUS) 1"
  define M where "M = (if ?me then highest_bit 12 ?mp else None)"
  define S where "S = (if ?se then highest_bit 10 ?sp else None)"
  have zero: "highest_bit n (0 :: u64) = None" for n by (induction n) simp_all
  have sel: "select_interrupt c = (case M of Some b \<Rightarrow> Some b | None \<Rightarrow> S)"
    by (auto simp: select_interrupt_def Let_def M_def S_def zero bit_facts split: option.split)
  have mb: "bit ?mp j \<longleftrightarrow> bit (csrs c CSR_MIP) j \<and> bit (csrs c CSR_MIE) j \<and> \<not> delegated c j" for j
    by (auto simp: bit_simps delegated_def dest: bit_word_bound)
  have sb: "bit ?sp j \<longleftrightarrow> bit (csrs c CSR_MIP) j \<and> bit (csrs c CSR_MIE) j \<and> delegated c j" for j
    by (auto simp: bit_simps delegated_def)
  have rm: "j < 12 \<and> ?me \<and> bit ?mp j \<longleftrightarrow> interrupt_ready c j \<and> \<not> delegated c j" for j
    by (auto simp: interrupt_ready_def mb delegated_def)
  have rs: "j < 10 \<and> ?se \<and> bit ?sp j \<longleftrightarrow> interrupt_ready c j \<and> delegated c j" for j
    by (auto simp: interrupt_ready_def sb delegated_def)
  note M = highest_if [where R = "\<lambda>j. interrupt_ready c j \<and> \<not> delegated c j", OF _ rm, folded M_def, simplified]
  note S = highest_if [where R = "\<lambda>j. interrupt_ready c j \<and> delegated c j", OF _ rs, folded S_def, simplified]
  show ?thesis
  proof (cases M)
    case (Some a)
    then have "select_interrupt c = Some a" by (simp add: sel)
    moreover have "interrupt_ready c a \<and> \<not> delegated c a \<and> (\<forall>j. interrupt_ready c j \<and> \<not> delegated c j \<longrightarrow> j \<le> a)"
      using M(2) [THEN iffD1, OF Some] by blast
    ultimately show ?thesis by (auto simp: precedes_def intro: order.antisym)
  next
    case None
    then have m: "\<forall>j. interrupt_ready c j \<longrightarrow> delegated c j" using M(1) by blast
    have "select_interrupt c = S" using None by (simp add: sel)
    then show ?thesis
    proof (cases S)
      case (Some a)
      have "interrupt_ready c a \<and> delegated c a \<and> (\<forall>j. interrupt_ready c j \<and> delegated c j \<longrightarrow> j \<le> a)"
        using S(2) [THEN iffD1, OF Some] by blast
      with m Some \<open>select_interrupt c = S\<close> show ?thesis by (auto simp: precedes_def intro: order.antisym)
    next
      case None
      with m \<open>select_interrupt c = S\<close> S(1) show ?thesis by auto
    qed
  qed
qed

text \<open>C6: Which interrupt is taken. Some interrupt is taken exactly when one is pending, enabled and
  not masked for the current mode, and it is the first in the order of the code: machine-level
  ones before delegated ones, higher numbers first.  This agrees with the order of the
  architecture (MEI, MSI, MTI, SEI, SSI, STI) but for five pairs of one mode: when an interrupt
  the architecture prefers is ready and another is taken, they are SEI instead of MTI or MSI,
  MTI instead of MSI, or STI instead of MSI or SSI.\<close>

theorem select_interrupt_spec:
  "(select_interrupt c = None \<longleftrightarrow> (\<forall>b. \<not> interrupt_ready c b)) \<and>
   (select_interrupt c = Some b \<longleftrightarrow> interrupt_ready c b \<and> (\<forall>b'. interrupt_ready c b' \<longrightarrow> precedes c b b')) \<and>
   (select_interrupt c = Some b \<longrightarrow> (\<forall>a. interrupt_ready c a \<and> arch_before c a b \<longrightarrow>
      delegated c a = delegated c b \<and> (b, a) \<in> {(9, 7), (9, 3), (7, 3), (5, 3), (5, 1)}))"
  using select_interrupt_order [of c b] order_inversions [of c _ b] by blast

definition pending_cpu :: cpu where
  "pending_cpu = cpu_zero\<lparr>csrs := (\<lambda>_. 0)(CSR_MIP := 0x220, CSR_MIE := 0x222, CSR_MIDELEG := 0x222, CSR_STVEC := 0x80000000)\<rparr>"

lemma int_bits_222: "bit (0x220 :: int) n \<longleftrightarrow> n = 5 \<or> n = 9" "bit (0x222 :: int) n \<longleftrightarrow> n = 1 \<or> n = 5 \<or> n = 9"
proof -
  have e: "(0x220 :: int) = 2 ^ 5 OR 2 ^ 9" "(0x222 :: int) = 2 ^ 1 OR 2 ^ 5 OR 2 ^ 9" by simp_all
  show "bit (0x220 :: int) n \<longleftrightarrow> n = 5 \<or> n = 9" "bit (0x222 :: int) n \<longleftrightarrow> n = 1 \<or> n = 5 \<or> n = 9"
    unfolding e by (simp_all only: bit_or_iff bit_exp_int)
qed

lemma pending_cpu_facts:
  "interrupt_ready pending_cpu b \<longleftrightarrow> b = 5 \<or> b = 9" "delegated pending_cpu b \<longleftrightarrow> b = 1 \<or> b = 5 \<or> b = 9"
  by (auto simp: interrupt_ready_def delegated_def pending_cpu_def cpu_zero_def int_bits_222)

theorem select_interrupt_spec_witness: "select_interrupt pending_cpu = Some 9"
  using select_interrupt_spec [of pending_cpu 9] by (auto simp: precedes_def pending_cpu_facts)







section \<open>A step evaluated\<close>

text \<open>A floating-point unit that answers the default quiet NaN, and a machine whose first word is
  \<^verbatim>\<open>addi x1, x0, 5\<close>.\<close>

definition default_fpu :: fpu where
  "default_fpu = \<lparr>nan_result = (\<lambda>f _. inf_bits f + 2 ^ (frac f - 1)), contracts = False, zero_second = False\<rparr>"

definition addi_machine :: machine where
  "addi_machine = example_machine\<lparr>m_cpu := cpu_init cpu_zero, m_mem := [ram_256M\<lparr>rdata := Some (store_le (\<lambda>_. 0) 0 0x00500093 4)\<rparr>]\<rparr>"

lemma small_nats: "(2 :: nat) = Suc (Suc 0)" "(4 :: nat) = Suc (Suc (Suc (Suc 0)))" "(8 :: nat) = Suc (Suc (Suc (Suc (Suc (Suc (Suc (Suc 0)))))))"
  by simp_all

lemma load_le_unfold:
  "load_le d a 2 = ucast (d a) OR push_bit 8 (ucast (d (a + 1)))"
  "load_le d a 4 = ucast (d a) OR push_bit 8 (ucast (d (a + 1)) OR push_bit 8 (ucast (d (a + 2)) OR push_bit 8 (ucast (d (a + 3)))))"
  unfolding small_nats load_le.simps by (simp_all add: add.commute)

lemma store_le_unfold:
  "store_le d a v 4 = (((d(a := ucast v))(a + 1 := ucast (drop_bit 8 v)))(a + 2 := ucast (drop_bit 16 v)))(a + 3 := ucast (drop_bit 24 v))"
  unfolding small_nats(2) store_le.simps by (simp add: add.commute)

lemma addi_fetch:
  assumes "m_mem m = m_mem addi_machine"
  shows "mem_read16 m 0x80000000 = Inr (0x0093, m)" "mem_read32 m 0x80000000 = Inr (0x00500093, m)"
  by (simp_all add: assms mem_read16_def mem_read32_def mem_read_def region_read_def default_read_def with_block_def
      addi_machine_def mem_find_region_def ram_256M_def load_le_unfold store_le_unfold)

lemma addi_decode: "decode 0x00500093 =
    \<lparr>opcode = OP_I_ARITH, i_rd = 1, i_rs1 = 0, i_rs2 = 5, funct3 = 0, funct7 = 0, imm = 5, isize = 4\<rparr>"
  by (simp add: decode_def decode_imm_def sign_extend_def sext64_def)

lemma addi_step:
  "emu_step h k addi_machine (advance (decode 0x00500093) (with_reg (tick addi_machine) 1 5))"
proof -
  let ?m = "tick addi_machine"
  have c: "m_sources addi_machine = []" "csrs (m_cpu ?m) CSR_MIP = 0" "privilege (m_cpu ?m) = PRIV_M" "pc (m_cpu ?m) = 0x80000000"
    "regs (m_cpu ?m) 0 = 0" "m_mem ?m = m_mem addi_machine" "\<not> halted (m_cpu addi_machine)"
    by (simp_all add: tick_def set_cpu_def addi_machine_def cpu_init_def cpu_zero_def set_csr_def example_machine_def Let_def)
  have "cpu_check_interrupts ?m = Inr (False, ?m)"
    by (simp add: cpu_check_interrupts_def c select_interrupt_def)
  moreover have "fetch_execute h (blk_notify k) ?m = Inr (advance (decode 0x00500093) (with_reg ?m 1 5))"
    by (simp add: fetch_execute_def mmu_translate_def mmu_active_def c addi_fetch execute_def addi_decode
        i_arith_def finish_def)
  ultimately show ?thesis
    by (intro emu_step.step) (simp_all add: c cpu_step_def)
qed

theorem reachable_invariant_witness:
  "\<exists>m. reachable default_fpu 10 addi_machine 1 m \<and> regs (m_cpu m) 0 = 0 \<and> regs (m_cpu m) 1 = 5 \<and>
     csr_read (m_cpu m) CSR_TIME = csr_read (m_cpu addi_machine) CSR_TIME + 1"
proof -
  let ?m = "advance (decode 0x00500093) (with_reg (tick addi_machine) 1 5)"
  have r: "reachable default_fpu 10 addi_machine 1 ?m"
    using reachable.step [OF reachable.start addi_step] by simp
  have "cpu_ok (m_cpu addi_machine)"
    by (simp add: cpu_ok_def satp_legal_def addi_machine_def cpu_init_def cpu_zero_def set_csr_def Let_def)
  from reachable_invariant [OF r this] r show ?thesis
    by (auto simp: advance_def regs_reg_write)
qed

end
