(* ===== verification/Sv39.thy ===== *)
theory Sv39
  imports Mmu
begin

text \<open>
  The translation the architecture defines, on numbers and bits rather than masks: \<open>table_leaf\<close>
  is the search through the three table levels (with the validity of an entry as a parameter:
  \<open>sv39_valid\<close> for the architecture, \<open>pte_present\<close> for the two tests of the code),
  \<open>sv39_allowed\<close> the permission check with SUM and MXR, \<open>sv39_grants\<close> the whole check with
  superpage alignment and canonical addresses.  The refinement theorem relates them to the walk
  of \<open>Mmu\<close> for page tables in RAM; \<open>sv39_departures\<close> states where the code differs.
\<close>

section \<open>Specification\<close>

definition sv39_entry :: "nat \<Rightarrow> nat \<Rightarrow> nat \<Rightarrow> u64" where
  "sv39_entry va ppn level = of_nat (4096 * ppn + 8 * (va div 2 ^ (12 + 9 * level) mod 512))"

definition sv39_ppn :: "u64 \<Rightarrow> nat" where
  "sv39_ppn pte = unat pte div 2 ^ 10 mod 2 ^ 44"

text \<open>
  An entry is valid when V is set, W is not set without R, and the bits 54 to 63, which belong
  to extensions this machine does not have, are clear.  The code tests the first two only.
\<close>

definition pte_present :: "u64 \<Rightarrow> bool" where
  "pte_present pte \<longleftrightarrow> bit pte 0 \<and> (bit pte 2 \<longrightarrow> bit pte 1)"

definition sv39_valid :: "u64 \<Rightarrow> bool" where
  "sv39_valid pte \<longleftrightarrow> pte_present pte \<and> unat pte < 2 ^ 54"

definition sv39_is_leaf :: "u64 \<Rightarrow> bool" where
  "sv39_is_leaf pte \<longleftrightarrow> bit pte 1 \<or> bit pte 3"

inductive table_leaf :: "(u64 \<Rightarrow> bool) \<Rightarrow> (u64 \<Rightarrow> u64) \<Rightarrow> nat \<Rightarrow> nat \<Rightarrow> nat \<Rightarrow> u64 \<Rightarrow> u64 \<Rightarrow> nat \<Rightarrow> bool"
  for ok :: "u64 \<Rightarrow> bool" and rd :: "u64 \<Rightarrow> u64" and va :: nat where
  leaf: "addr = sv39_entry va ppn l \<Longrightarrow> pte = rd addr \<Longrightarrow> ok pte \<Longrightarrow> sv39_is_leaf pte \<Longrightarrow>
         table_leaf ok rd va ppn (Suc l) pte addr l"
| pointer: "pte = rd (sv39_entry va ppn l) \<Longrightarrow> ok pte \<Longrightarrow> \<not> sv39_is_leaf pte \<Longrightarrow>
         table_leaf ok rd va (sv39_ppn pte) l pte' addr' l' \<Longrightarrow> table_leaf ok rd va ppn (Suc l) pte' addr' l'"

inductive_simps table_leaf_simps:
  "table_leaf ok rd va ppn 0 pte addr l'"
  "table_leaf ok rd va ppn (Suc l) pte addr l'"

text \<open>
  A load needs R, or X when MXR is set.  User mode needs U; supervisor mode may load and store
  in user pages when SUM is set, and never fetches from them.
\<close>

definition sv39_allowed :: "u64 \<Rightarrow> u32 \<Rightarrow> bool \<Rightarrow> bool \<Rightarrow> mmu_access \<Rightarrow> bool" where
  "sv39_allowed pte priv sum_bit mxr acc \<longleftrightarrow>
     (case acc of MMU_FETCH \<Rightarrow> bit pte 3 | MMU_LOAD \<Rightarrow> bit pte 1 \<or> (mxr \<and> bit pte 3) | MMU_STORE \<Rightarrow> bit pte 2) \<and>
     (priv = PRIV_U \<longrightarrow> bit pte 4) \<and> (priv = PRIV_S \<and> bit pte 4 \<longrightarrow> sum_bit \<and> acc \<noteq> MMU_FETCH)"

text \<open>The bits 39 to 63 of an address repeat bit 38.\<close>

definition sv39_canonical :: "nat \<Rightarrow> bool" where
  "sv39_canonical va \<longleftrightarrow> va < 2 ^ 38 \<or> 2 ^ 64 - 2 ^ 38 \<le> va"

text \<open>The address of a leaf at this level; the architecture requires an aligned superpage.\<close>

definition sv39_pa :: "u64 \<Rightarrow> nat \<Rightarrow> nat \<Rightarrow> nat" where
  "sv39_pa pte va level = 4096 * sv39_ppn pte + va mod 2 ^ (12 + 9 * level)"

definition sv39_aligned :: "u64 \<Rightarrow> nat \<Rightarrow> bool" where
  "sv39_aligned pte level \<longleftrightarrow> 2 ^ (9 * level) dvd sv39_ppn pte"

text \<open>Accessed and dirty bits after the access.\<close>

definition sv39_touch :: "u64 \<Rightarrow> mmu_access \<Rightarrow> u64" where
  "sv39_touch pte acc = set_bit 6 (if acc = MMU_STORE then set_bit 7 pte else pte)"

section \<open>The code's masks compute the fields\<close>

lemma pte_tests [bit_facts]:
  fixes w :: u64
  shows "w AND 1 = 0 \<longleftrightarrow> \<not> bit w 0" "w AND 4 = 0 \<longleftrightarrow> \<not> bit w 2" "w AND 16 = 0 \<longleftrightarrow> \<not> bit w 4"
  using and_exp_zero_iff [of 0 w] and_exp_zero_iff [of 2 w] and_exp_zero_iff [of 4 w] by simp_all

lemma exp_minus_1_mask: "push_bit n 1 - 1 = (mask n :: u64)"
  by (simp add: mask_eq_exp_minus_1 push_bit_eq_mult)

lemma unat_take_bit_word: "unat (take_bit n (w :: u64)) = unat w mod 2 ^ n"
  by (simp only: unsigned_take_bit_eq) (simp add: take_bit_eq_mod)

lemma unat_drop_bit_word: "unat (drop_bit n (w :: u64)) = unat w div 2 ^ n"
  by (simp only: unat_drop_bit_eq) (simp add: drop_bit_eq_div)

lemma ppn_mask: "SATP_PPN_MASK = mask 44"
  by (simp add: mask_eq_exp_minus_1)

lemma unat_vpn_of: "unat (vpn_of va l) = unat va div 2 ^ (12 + 9 * l) mod 512"
  unfolding vpn_of_def exp_minus_1_mask take_bit_eq_mask [symmetric] unat_take_bit_word unat_drop_bit_word
  by (simp add: mult.commute)

lemma pte_to_pa_alt: "pte_to_pa pte va l = push_bit 12 (pte_ppn pte) OR take_bit (12 + l * 9) va"
  unfolding pte_to_pa_def Let_def exp_minus_1_mask take_bit_eq_mask [symmetric] ..

lemma pte_ppn_alt: "pte_ppn pte = take_bit 44 (drop_bit 10 pte)"
  unfolding pte_ppn_def ppn_mask take_bit_eq_mask [symmetric] ..

lemma unat_pte_ppn: "unat (pte_ppn pte) = sv39_ppn pte"
  unfolding pte_ppn_def sv39_ppn_def ppn_mask take_bit_eq_mask [symmetric] unat_take_bit_word unat_drop_bit_word ..

lemma pte_addr_of_entry: "pte_addr_of ppn (vpn_of va l) = sv39_entry (unat va) (unat ppn) l"
proof -
  have "pte_addr_of ppn (vpn_of va l) = of_nat (4096 * unat ppn + 8 * unat (vpn_of va l))"
    by (simp add: pte_addr_of_def push_bit_eq_mult mult.commute)
  then show ?thesis by (simp add: unat_vpn_of sv39_entry_def)
qed

abbreviation sum_of :: "machine \<Rightarrow> bool" where "sum_of m \<equiv> bit (csrs (m_cpu m) CSR_MSTATUS) 18"
abbreviation mxr_of :: "machine \<Rightarrow> bool" where "mxr_of m \<equiv> bit (csrs (m_cpu m) CSR_MSTATUS) 19"

text \<open>The code's check is the architecture's, but for MXR and for fetches from user pages.\<close>

definition departs :: "machine \<Rightarrow> mmu_access \<Rightarrow> u64 \<Rightarrow> bool" where
  "departs m acc pte \<longleftrightarrow> (acc = MMU_LOAD \<and> mxr_of m \<and> \<not> bit pte 1) \<or>
     (acc = MMU_FETCH \<and> privilege (m_cpu m) = PRIV_S \<and> sum_of m \<and> bit pte 4)"

lemma pte_check_allowed:
  "\<not> departs m acc pte \<Longrightarrow>
     pte_check pte (m_cpu m) acc = sv39_allowed pte (privilege (m_cpu m)) (sum_of m) (mxr_of m) acc"
  by (auto simp: departs_def pte_check_def sv39_allowed_def bit_facts split: mmu_access.split)

lemma pte_check_bits:
  "pte_check pte (m_cpu m) acc \<longleftrightarrow>
     (case acc of MMU_FETCH \<Rightarrow> bit pte 3 | MMU_LOAD \<Rightarrow> bit pte 1 | MMU_STORE \<Rightarrow> bit pte 2) \<and>
     (privilege (m_cpu m) = PRIV_U \<longrightarrow> bit pte 4) \<and> (privilege (m_cpu m) = PRIV_S \<and> bit pte 4 \<longrightarrow> sum_of m)"
  by (auto simp: pte_check_def bit_facts split: mmu_access.split)

lemma pte_mask_bits [bit_facts]:
  "bit (64 :: int) n \<longleftrightarrow> n = 6" "bit (128 :: int) n \<longleftrightarrow> n = 7" "bit (192 :: int) n \<longleftrightarrow> n = 6 \<or> n = 7"
proof -
  have "(64 :: int) = 2 ^ 6" "(128 :: int) = 2 ^ 7" "(192 :: int) = 2 ^ 6 OR 2 ^ 7" by simp_all
  then show "bit (64 :: int) n \<longleftrightarrow> n = 6" "bit (128 :: int) n \<longleftrightarrow> n = 7" "bit (192 :: int) n \<longleftrightarrow> n = 6 \<or> n = 7"
    by (simp_all only: bit_or_iff bit_exp_int)
qed

lemma pte_touch:
  "(if acc = MMU_STORE then (pte OR PTE_A) OR PTE_D else pte OR PTE_A) = sv39_touch pte acc"
  by (rule bit_word_eqI) (auto simp: sv39_touch_def bit_simps bit_set_bit_iff bit_facts)

lemma pte_to_pa_aligned:
  assumes "sv39_aligned pte level" "level \<le> 2"
  shows "unat (pte_to_pa pte va level) = sv39_pa pte (unat va) level"
proof -
  define n where "n = 12 + level * 9"
  have n: "12 \<le> n" "n \<le> 30" using assms(2) by (auto simp: n_def)
  have low: "\<not> bit (push_bit 12 (pte_ppn pte)) k" if "k < n" for k
  proof -
    have "2 ^ (9 * level) dvd unat (pte_ppn pte)" using assms(1) by (simp add: sv39_aligned_def unat_pte_ppn)
    then have "take_bit (9 * level) (unat (pte_ppn pte)) = 0" by (simp add: take_bit_eq_0_iff)
    then have "unat (take_bit (9 * level) (pte_ppn pte)) = 0" by (simp add: unsigned_take_bit_eq)
    then have "take_bit (9 * level) (pte_ppn pte) = 0" by (simp add: unat_eq_0)
    then have "\<not> bit (pte_ppn pte) (k - 12)" if "12 \<le> k"
      using \<open>k < n\<close> that bit_take_bit_iff [of "9 * level" "pte_ppn pte" "k - 12"] by (simp add: n_def)
    then show ?thesis by (auto simp: bit_simps)
  qed
  have or: "pte_to_pa pte va level = push_bit 12 (pte_ppn pte) + take_bit n va"
    unfolding pte_to_pa_alt n_def [symmetric]
    by (rule disjunctive_add [symmetric]) (use low in \<open>auto simp: bit_simps\<close>)
  have ppn: "sv39_ppn pte < 2 ^ 44" by (simp add: sv39_ppn_def)
  have hi: "unat (push_bit 12 (pte_ppn pte)) = 4096 * sv39_ppn pte"
    using ppn by (simp only: unsigned_push_bit_eq unat_pte_ppn)
      (simp add: push_bit_eq_mult take_bit_nat_eq_self mult.commute)
  have "unat va mod 2 ^ n < 2 ^ n" by simp
  also have "(2 :: nat) ^ n \<le> 2 ^ 30" using n by (intro power_increasing) auto
  finally have lo: "unat (take_bit n va) < 2 ^ 30" by (simp add: unat_take_bit_word)
  show ?thesis
    unfolding or using hi lo ppn
    by (subst unat_le_of_no_wrap) (simp_all add: sv39_pa_def unat_take_bit_word n_def mult.commute)
qed

lemma pte_to_pa_offset: "take_bit 12 (pte_to_pa pte va level) = take_bit 12 va"
  by (rule bit_word_eqI) (auto simp: pte_to_pa_alt bit_simps)

lemma pte_to_pa_no_fault: "level \<le> 2 \<Longrightarrow> pte_to_pa pte va level \<noteq> MMU_FAULT"
proof
  assume l: "level \<le> 2" and "pte_to_pa pte va level = MMU_FAULT"
  then have "bit (pte_to_pa pte va level) 63" by (simp add: bit_numeral_Bit1_Suc_iff)
  with l show False
    by (auto simp: pte_to_pa_alt bit_simps pte_ppn_alt)
qed

section \<open>Refinement\<close>

lemma pte_ppn_touch [simp]: "pte_ppn (set_bit 6 pte) = pte_ppn pte" "pte_ppn (set_bit 7 pte) = pte_ppn pte"
  by (rule bit_word_eqI; auto simp: pte_ppn_alt bit_simps bit_set_bit_iff)+

text \<open>The entries the walk visits are in RAM.\<close>

primrec tables_in_ram :: "nat \<Rightarrow> machine \<Rightarrow> nat \<Rightarrow> nat \<Rightarrow> bool" where
  "tables_in_ram 0 m va ppn \<longleftrightarrow> True"
| "tables_in_ram (Suc l) m va ppn \<longleftrightarrow>
     (let a = sv39_entry va ppn l; pte = ram_value m a 8 in
      in_ram m a 8 \<and> (pte_present pte \<and> \<not> sv39_is_leaf pte \<longrightarrow> tables_in_ram l m va (sv39_ppn pte)))"

abbreviation ram_word :: "machine \<Rightarrow> u64 \<Rightarrow> u64" where
  "ram_word m \<equiv> \<lambda>a. ram_value m a 8"

lemma valid_test: "pte AND PTE_V = 0 \<or> (pte AND PTE_R = 0 \<and> pte AND PTE_W \<noteq> 0) \<longleftrightarrow> \<not> pte_present pte"
  by (auto simp: pte_present_def bit_facts)

lemma leaf_test: "pte AND PTE_R \<noteq> 0 \<or> pte AND PTE_X \<noteq> 0 \<longleftrightarrow> sv39_is_leaf pte"
  by (auto simp: sv39_is_leaf_def bit_facts)

lemma mmu_walk_leaf:
  "tables_in_ram l m (unat va) (unat ppn) \<Longrightarrow>
     \<exists>leaf. mmu_walk l m va ppn = Inr (leaf, m) \<and>
       (\<forall>pte addr k. leaf = Some (pte, addr, k) \<longleftrightarrow> table_leaf pte_present (ram_word m) (unat va) (unat ppn) l pte addr k)"
proof (induction l arbitrary: ppn)
  case 0
  then show ?case by (simp add: table_leaf_simps)
next
  case (Suc l)
  let ?a = "sv39_entry (unat va) (unat ppn) l"
  let ?pte = "ram_value m ?a 8"
  have rd: "mem_read64 m ?a = Inr (?pte, m)"
    using Suc.prems by (simp add: mem_read64_def mem_read_ram Let_def)
  note walk = mmu_walk.simps(2) [of l m va ppn, unfolded Let_def pte_addr_of_entry valid_test leaf_test rd andThen_simps prod.case]
  show ?case
  proof (cases "pte_present ?pte \<and> \<not> sv39_is_leaf ?pte")
    case True
    then have "tables_in_ram l m (unat va) (unat (pte_ppn ?pte))"
      using Suc.prems by (simp add: Let_def unat_pte_ppn)
    from Suc.IH [OF this] obtain leaf where "mmu_walk l m va (pte_ppn ?pte) = Inr (leaf, m)"
      and "leaf = Some (pte, addr, k) \<longleftrightarrow> table_leaf pte_present (ram_word m) (unat va) (sv39_ppn ?pte) l pte addr k" for pte addr k
      by (auto simp: unat_pte_ppn)
    with True show ?thesis
      unfolding walk by (intro exI [of _ leaf]) (auto simp: table_leaf_simps)
  next
    case False
    then show ?thesis unfolding walk by (auto simp: table_leaf_simps)
  qed
qed

lemma table_leaf_level: "table_leaf ok rd va ppn n pte addr l \<Longrightarrow> l < n"
  by (induction rule: table_leaf.induct) auto

lemma table_leaf_in_ram:
  "table_leaf pte_present (ram_word m) va ppn n pte addr l \<Longrightarrow> tables_in_ram n m va ppn \<Longrightarrow>
     in_ram m addr 8 \<and> pte = ram_word m addr \<and> pte_present pte \<and> sv39_is_leaf pte"
  by (induction rule: table_leaf.induct) (auto simp: Let_def)

definition sv39_root :: "machine \<Rightarrow> nat" where
  "sv39_root m = unat (csrs (m_cpu m) CSR_SATP) mod 2 ^ 44"

lemma sv39_root_mask: "unat (csrs (m_cpu m) CSR_SATP AND SATP_PPN_MASK) = sv39_root m"
  unfolding sv39_root_def ppn_mask take_bit_eq_mask [symmetric] unat_take_bit_word ..

abbreviation code_leaf :: "machine \<Rightarrow> u64 \<Rightarrow> u64 \<Rightarrow> u64 \<Rightarrow> nat \<Rightarrow> bool" where
  "code_leaf m va \<equiv> table_leaf pte_present (ram_word m) (unat va) (sv39_root m) 3"

text \<open>The architecture grants the access through this leaf.\<close>

definition sv39_grants :: "machine \<Rightarrow> u64 \<Rightarrow> mmu_access \<Rightarrow> u64 \<Rightarrow> u64 \<Rightarrow> nat \<Rightarrow> bool" where
  "sv39_grants m va acc pte addr l \<longleftrightarrow>
     sv39_canonical (unat va) \<and> table_leaf sv39_valid (ram_word m) (unat va) (sv39_root m) 3 pte addr l \<and>
     sv39_aligned pte l \<and> sv39_allowed pte (privilege (m_cpu m)) (sum_of m) (mxr_of m) acc"

text \<open>
  What the code does not check holds of the entries the walk visits: reserved bits clear, the
  leaf aligned and not one for which the two permission checks depart.
\<close>

primrec walk_regular :: "nat \<Rightarrow> machine \<Rightarrow> mmu_access \<Rightarrow> nat \<Rightarrow> nat \<Rightarrow> bool" where
  "walk_regular 0 m acc va ppn \<longleftrightarrow> True"
| "walk_regular (Suc l) m acc va ppn \<longleftrightarrow>
     (let pte = ram_word m (sv39_entry va ppn l) in
      pte_present pte \<longrightarrow> unat pte < 2 ^ 54 \<and>
        (if sv39_is_leaf pte then sv39_aligned pte l \<and> \<not> departs m acc pte
         else walk_regular l m acc va (sv39_ppn pte)))"

lemma regular_leaf:
  "table_leaf pte_present (ram_word m) va ppn n pte addr l \<Longrightarrow> walk_regular n m acc va ppn \<Longrightarrow>
     table_leaf sv39_valid (ram_word m) va ppn n pte addr l \<and> sv39_aligned pte l \<and> \<not> departs m acc pte"
  by (induction rule: table_leaf.induct) (auto simp: Let_def sv39_valid_def table_leaf_simps)

lemma valid_leaf_present: "table_leaf sv39_valid rd va ppn n pte addr l \<Longrightarrow> table_leaf pte_present rd va ppn n pte addr l"
  by (induction rule: table_leaf.induct) (auto simp: sv39_valid_def table_leaf_simps)

lemma valid_leaf_small: "table_leaf sv39_valid rd va ppn n pte addr l \<Longrightarrow> unat pte < 2 ^ 54"
  by (induction rule: table_leaf.induct) (auto simp: sv39_valid_def)

text \<open>What the code computes, in terms of the leaf its own walk finds.\<close>

lemma translate_runs:
  assumes "mmu_active (m_cpu m)" and "tables_in_ram 3 m (unat va) (sv39_root m)"
  shows "(\<nexists>pte addr l. code_leaf m va pte addr l) \<Longrightarrow>
           mmu_translate notify m va acc = Inr (MMU_FAULT, trap_machine m (fault_cause acc) va)"
    and "code_leaf m va pte addr l \<Longrightarrow> mmu_translate notify m va acc =
           (if pte_check pte (m_cpu m) acc then Inr (pte_to_pa pte va l, ram_store m addr (sv39_touch pte acc) 8)
            else Inr (MMU_FAULT, trap_machine m (fault_cause acc) va))"
    and "code_leaf m va pte addr l \<Longrightarrow> code_leaf m va pte' addr' l' \<Longrightarrow> pte' = pte \<and> addr' = addr \<and> l' = l"
proof -
  have root: "tables_in_ram 3 m (unat va) (unat (csrs (m_cpu m) CSR_SATP AND SATP_PPN_MASK))"
    using assms(2) by (simp only: sv39_root_mask)
  obtain leaf where walk: "mmu_walk 3 m va (csrs (m_cpu m) CSR_SATP AND SATP_PPN_MASK) = Inr (leaf, m)"
    and leaf: "leaf = Some (pte, addr, k) \<longleftrightarrow> code_leaf m va pte addr k" for pte addr k
    using mmu_walk_leaf [OF root, unfolded sv39_root_mask] by blast
  show "mmu_translate notify m va acc = Inr (MMU_FAULT, trap_machine m (fault_cause acc) va)"
    if "\<nexists>pte addr l. code_leaf m va pte addr l"
  proof -
    have "leaf = None"
    proof (cases leaf)
      case (Some x)
      with that leaf [of "fst x" "fst (snd x)" "snd (snd x)"] show ?thesis by simp
    qed simp
    then show ?thesis using assms(1) walk by (simp add: mmu_translate_def)
  qed
  show "pte' = pte \<and> addr' = addr \<and> l' = l" if "code_leaf m va pte addr l" "code_leaf m va pte' addr' l'"
    using that unfolding leaf [symmetric] by simp
  show "mmu_translate notify m va acc =
      (if pte_check pte (m_cpu m) acc then Inr (pte_to_pa pte va l, ram_store m addr (sv39_touch pte acc) 8)
       else Inr (MMU_FAULT, trap_machine m (fault_cause acc) va))" if sv: "code_leaf m va pte addr l"
  proof -
    have x: "leaf = Some (pte, addr, l)" using sv by (simp add: leaf)
    have wr: "mem_write64 notify m addr v = Inr (ram_store m addr v 8)" for v
      using table_leaf_in_ram [OF sv assms(2)] by (simp add: mem_write64_def mem_write_ram)
    show ?thesis
      using assms(1) walk x pte_touch [of acc pte] by (auto simp: mmu_translate_def wr Let_def pte_to_pa_alt sv39_touch_def)
  qed
qed

text \<open>C1: Translation implements Sv39.  The architecture grants an access when the address is
  canonical and the walk over valid entries ends in an aligned leaf that allows it, MXR and SUM
  considered.  With translation on in user or supervisor mode and the visited entries in RAM:
  if the access is granted, and not merely by MXR, the result is exactly the architecture's
  address and not the fault value, and the only change is that the entry is marked accessed,
  and dirty by a store; if the access is not granted, the address is canonical and the visited
  entries have what the code does not check, the result is the fault value, and the only change
  is the page-fault trap of the access with the address as trap value.  Outside these conditions
  the code departs from the architecture: see \<open>sv39_departures\<close>.\<close>

theorem mmu_translate_sv39:
  assumes "mmu_active (m_cpu m)" and "tables_in_ram 3 m (unat va) (sv39_root m)"
  shows "(\<forall>pte addr l. sv39_grants m va acc pte addr l \<and> (acc = MMU_LOAD \<longrightarrow> bit pte 1) \<longrightarrow>
            (\<exists>pa. mmu_translate notify m va acc = Inr (pa, ram_store m addr (sv39_touch pte acc) 8) \<and>
              pa \<noteq> MMU_FAULT \<and> unat pa = sv39_pa pte (unat va) l)) \<and>
         ((\<nexists>pte addr l. sv39_grants m va acc pte addr l) \<and> sv39_canonical (unat va) \<and>
            walk_regular 3 m acc (unat va) (sv39_root m) \<longrightarrow>
            mmu_translate notify m va acc = Inr (MMU_FAULT, trap_machine m (fault_cause acc) va))"
proof (intro conjI allI impI)
  note runs = translate_runs [OF assms]
  fix pte addr l
  assume g: "sv39_grants m va acc pte addr l \<and> (acc = MMU_LOAD \<longrightarrow> bit pte 1)"
  then have leaf: "code_leaf m va pte addr l" by (auto simp: sv39_grants_def valid_leaf_present)
  have "l \<le> 2" using table_leaf_level [OF leaf] by simp
  moreover have "pte_check pte (m_cpu m) acc"
    using g by (auto simp: sv39_grants_def sv39_allowed_def pte_check_bits split: mmu_access.splits)
  ultimately show "\<exists>pa. mmu_translate notify m va acc = Inr (pa, ram_store m addr (sv39_touch pte acc) 8) \<and>
      pa \<noteq> MMU_FAULT \<and> unat pa = sv39_pa pte (unat va) l"
    using g by (simp add: runs(2) [OF leaf] sv39_grants_def pte_to_pa_no_fault pte_to_pa_aligned)
next
  note runs = translate_runs [OF assms]
  assume no: "(\<nexists>pte addr l. sv39_grants m va acc pte addr l) \<and> sv39_canonical (unat va) \<and>
            walk_regular 3 m acc (unat va) (sv39_root m)"
  show "mmu_translate notify m va acc = Inr (MMU_FAULT, trap_machine m (fault_cause acc) va)"
  proof (cases "\<exists>pte addr l. code_leaf m va pte addr l")
    case True
    then obtain pte addr l where leaf: "code_leaf m va pte addr l" by blast
    then have "\<not> pte_check pte (m_cpu m) acc"
      using no regular_leaf [OF leaf] pte_check_allowed [of m acc pte] by (auto simp: sv39_grants_def)
    then show ?thesis by (simp add: runs(2) [OF leaf])
  qed (simp add: runs(1))
qed

text \<open>Machines with one gigapage entry for the addresses from 0x80000000, in supervisor mode.\<close>

definition paged_machine :: "u64 \<Rightarrow> u64 \<Rightarrow> machine" where
  "paged_machine pte ms = example_machine\<lparr>
     m_cpu := cpu_zero\<lparr>privilege := PRIV_S, csrs := (\<lambda>_. 0)(CSR_SATP := 0x8000000000080000, CSR_MSTATUS := ms)\<rparr>,
     m_mem := [ram_256M\<lparr>rdata := Some (store_le (\<lambda>_. 0) 16 pte 8)\<rparr>]\<rparr>"

lemma paged_entry:
  "sv39_entry 0x80001234 0x80000 2 = 0x80000010" "sv39_entry 0x1234 0x80000 2 = 0x80000000"
  "ram_value (paged_machine pte ms) 0x80000010 8 = pte" "ram_value (paged_machine pte ms) 0x80000000 8 = 0"
  "in_ram (paged_machine pte ms) 0x80000010 8" "in_ram (paged_machine pte ms) 0x80000000 8"
  using load_store_same [of 8 "\<lambda>_. 0" 16 pte] load_store_apart [of 16 8 0 8 "\<lambda>_. 0" pte]
  by (simp_all add: sv39_entry_def paged_machine_def ram_value_def in_ram_def ram_at_def mem_find_region_def
      ram_256M_def apart_def load_le_zero take_bit_word_eq_self)

lemma paged_cpu:
  "mmu_active (m_cpu (paged_machine pte ms))" "privilege (m_cpu (paged_machine pte ms)) = PRIV_S"
  "csrs (m_cpu (paged_machine pte ms)) CSR_MSTATUS = ms" "sv39_root (paged_machine pte ms) = 0x80000"
  by (simp_all add: mmu_active_def sv39_root_def paged_machine_def)

lemma paged_leaf:
  assumes "ok pte" "sv39_is_leaf pte"
  shows "table_leaf ok (ram_word (paged_machine pte ms)) 0x80001234 0x80000 3 pte 0x80000010 2"
proof -
  have "table_leaf ok (ram_word (paged_machine pte ms)) 0x80001234 0x80000 (Suc 2) pte 0x80000010 2"
    unfolding table_leaf_simps(2) using assms paged_entry by simp
  then show ?thesis by simp
qed

lemma paged_tables:
  "sv39_is_leaf pte \<Longrightarrow> tables_in_ram 3 (paged_machine pte ms) 0x80001234 0x80000"
  "tables_in_ram 3 (paged_machine pte ms) 0x1234 0x80000"
proof -
  have three: "(3 :: nat) = Suc 2" by simp
  show "sv39_is_leaf pte \<Longrightarrow> tables_in_ram 3 (paged_machine pte ms) 0x80001234 0x80000"
    "tables_in_ram 3 (paged_machine pte ms) 0x1234 0x80000"
    unfolding three tables_in_ram.simps(2) Let_def paged_entry by (simp_all add: paged_entry pte_present_def)
qed

theorem mmu_translate_sv39_witness:
  "(\<exists>pa. mmu_translate (\<lambda>i m. Inr m) (paged_machine 0x2000000F 0) 0x80001234 MMU_STORE =
          Inr (pa, ram_store (paged_machine 0x2000000F 0) 0x80000010 (sv39_touch 0x2000000F MMU_STORE) 8) \<and>
        unat pa = 0x80001234) \<and>
   mmu_translate (\<lambda>i m. Inr m) (paged_machine 0x2000000F 0) 0x1234 MMU_FETCH =
     Inr (MMU_FAULT, trap_machine (paged_machine 0x2000000F 0) EXC_CAUSE_FETCH_PAGE_FAULT 0x1234)"
proof
  have pte: "sv39_valid 0x2000000F" "sv39_is_leaf 0x2000000F" "sv39_aligned 0x2000000F 2"
    by (simp_all add: sv39_valid_def pte_present_def sv39_is_leaf_def sv39_aligned_def sv39_ppn_def)
  have "sv39_grants (paged_machine 0x2000000F 0) 0x80001234 MMU_STORE 0x2000000F 0x80000010 2"
    using paged_leaf [of sv39_valid "0x2000000F"] pte
    by (simp add: sv39_grants_def paged_cpu sv39_canonical_def sv39_allowed_def)
  from mmu_translate_sv39 [OF paged_cpu(1), THEN conjunct1, rule_format, OF _ conjI, OF _ this, of "\<lambda>i m. Inr m"]
  show "\<exists>pa. mmu_translate (\<lambda>i m. Inr m) (paged_machine 0x2000000F 0) 0x80001234 MMU_STORE =
          Inr (pa, ram_store (paged_machine 0x2000000F 0) 0x80000010 (sv39_touch 0x2000000F MMU_STORE) 8) \<and>
        unat pa = 0x80001234"
    using paged_tables(1) [of "0x2000000F" 0] pte by (simp add: paged_cpu sv39_ppn_def sv39_pa_def) blast
  let ?m = "paged_machine 0x2000000F 0"
  have three: "(3 :: nat) = Suc 2" by simp
  have none: "\<not> table_leaf ok (ram_word ?m) 0x1234 0x80000 3 p a l" if "\<not> ok 0" for ok p a l
    unfolding three table_leaf_simps(2) using that by (auto simp: paged_entry)
  have reg: "walk_regular 3 ?m MMU_FETCH 0x1234 0x80000"
    unfolding three walk_regular.simps(2) Let_def paged_entry by (simp add: pte_present_def)
  have "\<nexists>pte addr l. sv39_grants ?m 0x1234 MMU_FETCH pte addr l"
    using none by (simp add: sv39_grants_def paged_cpu sv39_valid_def pte_present_def)
  with mmu_translate_sv39 [of ?m "0x1234", OF paged_cpu(1), THEN conjunct2, rule_format, of MMU_FETCH "\<lambda>i m. Inr m"]
  show "mmu_translate (\<lambda>i m. Inr m) ?m 0x1234 MMU_FETCH = Inr (MMU_FAULT, trap_machine ?m EXC_CAUSE_FETCH_PAGE_FAULT 0x1234)"
    using paged_tables(2) [of "0x2000000F" 0] reg by (simp add: paged_cpu sv39_canonical_def fault_cause_def)
qed

section \<open>Departures\<close>

text \<open>Where translation is not the architecture's.  A load that only MXR allows takes a page
  fault.  A leaf the code's own two tests accept and whose permission bits pass its check is
  translated although the architecture requires a page fault: when the superpage is not aligned,
  the address is not canonical, a reserved bit of the entry is set, or supervisor mode fetches
  from a user page with SUM set.\<close>

theorem sv39_departures:
  assumes "mmu_active (m_cpu m)" and "tables_in_ram 3 m (unat va) (sv39_root m)"
  shows "(\<forall>pte addr l. sv39_grants m va MMU_LOAD pte addr l \<and> \<not> bit pte 1 \<longrightarrow>
            mxr_of m \<and> mmu_translate notify m va MMU_LOAD = Inr (MMU_FAULT, trap_machine m EXC_CAUSE_LOAD_PAGE_FAULT va)) \<and>
         (\<forall>pte addr l. code_leaf m va pte addr l \<and> pte_check pte (m_cpu m) acc \<and>
            (\<not> sv39_aligned pte l \<or> \<not> sv39_canonical (unat va) \<or> 2 ^ 54 \<le> unat pte \<or>
             acc = MMU_FETCH \<and> privilege (m_cpu m) = PRIV_S \<and> bit pte 4) \<longrightarrow>
            (\<nexists>pte addr l. sv39_grants m va acc pte addr l) \<and>
            (\<exists>pa. mmu_translate notify m va acc = Inr (pa, ram_store m addr (sv39_touch pte acc) 8) \<and> pa \<noteq> MMU_FAULT))"
proof (intro conjI allI impI)
  note runs = translate_runs [OF assms]
  fix pte addr l
  assume g: "sv39_grants m va MMU_LOAD pte addr l \<and> \<not> bit pte 1"
  then have leaf: "code_leaf m va pte addr l" by (auto simp: sv39_grants_def valid_leaf_present)
  show "mxr_of m" using g by (auto simp: sv39_grants_def sv39_allowed_def)
  show "mmu_translate notify m va MMU_LOAD = Inr (MMU_FAULT, trap_machine m EXC_CAUSE_LOAD_PAGE_FAULT va)"
    using g by (simp add: runs(2) [OF leaf] pte_check_bits fault_cause_def)
next
  note runs = translate_runs [OF assms]
  fix pte addr l
  assume g: "code_leaf m va pte addr l \<and> pte_check pte (m_cpu m) acc \<and>
      (\<not> sv39_aligned pte l \<or> \<not> sv39_canonical (unat va) \<or> 2 ^ 54 \<le> unat pte \<or>
       acc = MMU_FETCH \<and> privilege (m_cpu m) = PRIV_S \<and> bit pte 4)"
  then have leaf: "code_leaf m va pte addr l" by simp
  have "p = pte \<and> k = l \<and> unat p < 2 ^ 54" if "table_leaf sv39_valid (ram_word m) (unat va) (sv39_root m) 3 p a k" for p a k
    using runs(3) [OF leaf valid_leaf_present [OF that]] valid_leaf_small [OF that] by simp
  then show "\<nexists>pte addr l. sv39_grants m va acc pte addr l"
    using g by (fastforce simp: sv39_grants_def sv39_allowed_def)
  have "l \<le> 2" using table_leaf_level [OF leaf] by simp
  then show "\<exists>pa. mmu_translate notify m va acc = Inr (pa, ram_store m addr (sv39_touch pte acc) 8) \<and> pa \<noteq> MMU_FAULT"
    using g by (simp add: runs(2) [OF leaf] pte_to_pa_no_fault)
qed

theorem sv39_departures_witness:
  "mmu_translate (\<lambda>i m. Inr m) (paged_machine 0x20000009 0x80000) 0x80001234 MMU_LOAD =
     Inr (MMU_FAULT, trap_machine (paged_machine 0x20000009 0x80000) EXC_CAUSE_LOAD_PAGE_FAULT 0x80001234) \<and>
   (\<exists>pa. mmu_translate (\<lambda>i m. Inr m) (paged_machine 0x2000040F 0) 0x80001234 MMU_STORE =
      Inr (pa, ram_store (paged_machine 0x2000040F 0) 0x80000010 (sv39_touch 0x2000040F MMU_STORE) 8) \<and> pa \<noteq> MMU_FAULT)"
proof
  have x: "sv39_valid 0x20000009" "sv39_is_leaf 0x20000009" "sv39_aligned 0x20000009 2" "\<not> bit (0x20000009 :: u64) 1"
    by (simp_all add: sv39_valid_def pte_present_def sv39_is_leaf_def sv39_aligned_def sv39_ppn_def)
  have g: "sv39_grants (paged_machine 0x20000009 0x80000) 0x80001234 MMU_LOAD 0x20000009 0x80000010 2"
    using paged_leaf [of sv39_valid "0x20000009"] x
    by (simp add: sv39_grants_def paged_cpu sv39_canonical_def sv39_allowed_def)
  have t: "tables_in_ram 3 (paged_machine 0x20000009 0x80000) (unat (0x80001234 :: u64)) (sv39_root (paged_machine 0x20000009 0x80000))"
    using paged_tables(1) x(2) by (simp add: paged_cpu)
  show "mmu_translate (\<lambda>i m. Inr m) (paged_machine 0x20000009 0x80000) 0x80001234 MMU_LOAD =
     Inr (MMU_FAULT, trap_machine (paged_machine 0x20000009 0x80000) EXC_CAUSE_LOAD_PAGE_FAULT 0x80001234)"
    using sv39_departures [OF paged_cpu(1) t, THEN conjunct1] g x(4) by blast
  have y: "pte_present 0x2000040F" "sv39_is_leaf 0x2000040F" "\<not> sv39_aligned 0x2000040F 2"
    by (simp_all add: pte_present_def sv39_is_leaf_def sv39_aligned_def sv39_ppn_def)
  have leaf: "code_leaf (paged_machine 0x2000040F 0) 0x80001234 0x2000040F 0x80000010 2"
    using paged_leaf [of pte_present, OF y(1,2)] by (simp add: paged_cpu)
  have t2: "tables_in_ram 3 (paged_machine 0x2000040F 0) (unat (0x80001234 :: u64)) (sv39_root (paged_machine 0x2000040F 0))"
    using paged_tables(1) y(2) by (simp add: paged_cpu)
  have "pte_check 0x2000040F (m_cpu (paged_machine 0x2000040F 0)) MMU_STORE"
    by (simp add: pte_check_bits paged_cpu)
  with sv39_departures [OF paged_cpu(1) t2, THEN conjunct2] leaf y(3)
  show "\<exists>pa. mmu_translate (\<lambda>i m. Inr m) (paged_machine 0x2000040F 0) 0x80001234 MMU_STORE =
      Inr (pa, ram_store (paged_machine 0x2000040F 0) 0x80000010 (sv39_touch 0x2000040F MMU_STORE) 8) \<and> pa \<noteq> MMU_FAULT"
    by blast
qed

end
