(* ===== verification/Isa.thy ===== *)
theory Isa
  imports Step Sv39
begin

text \<open>
  What the instructions mean: the results of the multiplication and division extension against
  the integers, loads and stores against each other, the control registers, and the places
  where the code departs from the architecture.
\<close>

section \<open>Multiplication and division\<close>

lemma sint_bounds_64: "- (2 ^ 63) \<le> sint (w :: u64)" "sint (w :: u64) < 2 ^ 63"
  using sint_range_size [of w] by (simp_all add: word_size)

lemma uint_bounds_64: "0 \<le> uint (w :: u64)" "uint (w :: u64) < 2 ^ 64"
  using uint_bounded [of w] by simp_all

lemma mul_high_u128_value: "uint (mul_high_u128 a b) = uint a * uint b div 2 ^ 64"
proof -
  have le: "uint a * uint b < 2 ^ 128"
    using mult_strict_mono [of "uint a" "2 ^ 64" "uint b" "2 ^ 64"] uint_bounds_64 [of a] uint_bounds_64 [of b] by simp
  have up: "uint (ucast w :: u128) = uint w" for w :: u64
    by (simp add: uint_up_ucast is_up)
  have p: "uint ((ucast a :: u128) * ucast b) = uint a * uint b"
    using le uint_bounds_64 [of a] uint_bounds_64 [of b] by (simp add: uint_word_ariths up)
  have "uint a * uint b div 2 ^ 64 \<le> (2 ^ 128 - 1) div 2 ^ 64"
    using le by (intro zdiv_mono1) simp_all
  then have "uint a * uint b div 2 ^ 64 < 2 ^ 64" by simp
  moreover have "0 \<le> uint a * uint b div 2 ^ 64" by (simp add: pos_imp_zdiv_nonneg_iff)
  moreover have "uint (mul_high_u128 a b) = take_bit 64 (drop_bit 64 (uint a * uint b))"
    using take_bit_int_eq_self [of "uint a * uint b" 128] le uint_bounds_64 [of a] uint_bounds_64 [of b]
    by (simp only: mul_high_u128_def unsigned_ucast_eq unsigned_drop_bit_eq p) simp
  ultimately show ?thesis
    by (simp add: take_bit_int_eq_self drop_bit_eq_div)
qed

lemma uint_sint_nonneg: "0 \<le> sint (w :: u64) \<Longrightarrow> uint w = sint w"
proof -
  assume "0 \<le> sint w"
  then have "uint w = sint w mod 2 ^ 64" by (simp add: uint_sint take_bit_eq_mod)
  then show ?thesis using \<open>0 \<le> sint w\<close> sint_bounds_64 [of w] by (simp add: mod_pos_pos_trivial)
qed

lemma mul_high_u128_of_int: "mul_high_u128 a b = of_int (uint a * uint b div 2 ^ 64)"
proof -
  have "mul_high_u128 a b = of_int (uint (mul_high_u128 a b))" by simp
  then show ?thesis by (simp only: mul_high_u128_value)
qed

lemma uint_sint_if: "uint w = sint w + (if sint w < 0 then 2 ^ 64 else 0)" for w :: u64
proof (cases "0 \<le> sint w")
  case False
  then have "uint w = sint w mod 2 ^ 64" by (simp add: uint_sint take_bit_eq_mod)
  also have "... = (sint w + 2 ^ 64) mod 2 ^ 64" by simp
  also have "... = sint w + 2 ^ 64" using False sint_bounds_64 [of w] by (intro mod_pos_pos_trivial) simp_all
  finally show ?thesis using False by simp
qed (simp add: uint_sint_nonneg)

lemma wrap_64: "of_int ((x + y * 2 ^ 64) div 2 ^ 64) = (of_int (x div 2 ^ 64) + of_int y :: u64)"
  by simp

text \<open>The high half of an unsigned product, in terms of the signed operands.\<close>

lemma high_half_signed:
  "of_int (uint a * uint b div 2 ^ 64) = of_int (sint a * uint b div 2 ^ 64) + (if sint a < 0 then b else (0 :: u64))"
  "of_int (uint a * uint b div 2 ^ 64) = of_int (sint a * sint b div 2 ^ 64) +
     (if sint a < 0 then b else 0) + (if sint b < 0 then a else (0 :: u64))"
proof -
  define x where "x = (if sint a < 0 then 1 else 0 :: int)"
  define y where "y = (if sint b < 0 then 1 else 0 :: int)"
  have a: "uint a = sint a + x * 2 ^ 64" and b: "uint b = sint b + y * 2 ^ 64"
    unfolding x_def y_def by (subst uint_sint_if, simp)+
  have "uint a * uint b = sint a * uint b + (x * uint b) * 2 ^ 64"
    unfolding a by (simp add: algebra_simps)
  then have "of_int (uint a * uint b div 2 ^ 64) = (of_int (sint a * uint b div 2 ^ 64) + of_int (x * uint b) :: u64)"
    by (simp only: wrap_64)
  then show "of_int (uint a * uint b div 2 ^ 64) = of_int (sint a * uint b div 2 ^ 64) + (if sint a < 0 then b else (0 :: u64))"
    by (simp add: x_def)
  have "uint a * uint b = sint a * sint b + (x * sint b + y * sint a + x * y * 2 ^ 64) * 2 ^ 64"
    unfolding a b by (simp add: algebra_simps)
  then have "of_int (uint a * uint b div 2 ^ 64) =
      (of_int (sint a * sint b div 2 ^ 64) + of_int (x * sint b + y * sint a + x * y * 2 ^ 64) :: u64)"
    by (simp only: wrap_64)
  moreover have "(0x10000000000000000 :: u64) = 0" by simp
  ultimately show "of_int (uint a * uint b div 2 ^ 64) = of_int (sint a * sint b div 2 ^ 64) +
     (if sint a < 0 then b else 0) + (if sint b < 0 then a else (0 :: u64))"
    by (simp add: x_def y_def del: word_of_int_eq_0_iff)
qed

text \<open>C26: The high products, for all operands. MULHU returns the high half of the exact product.
  MULHSU and MULH return the high half of the exact (mixed and signed) product plus, for each
  operand the instruction reads as signed that is negative, the other operand: they are the
  architecture's results exactly when that sum of corrections is zero modulo 2^64.  MULH is
  undefined behaviour of the host when the product of the unsigned readings reaches 2^127.\<close>

theorem mul_high_products:
  "(\<exists>v. r_arith F3_MULHU F7_MEXT a b = Inr v \<and> uint v = uint a * uint b div 2 ^ 64) \<and>
   r_arith F3_MULHSU F7_MEXT a b = Inr (of_int (sint a * uint b div 2 ^ 64) + (if sint a < 0 then b else 0)) \<and>
   r_arith F3_MULH F7_MEXT a b =
     (if 2 ^ 127 \<le> uint a * uint b then Inl (Undefined SignedOverflow)
      else Inr (of_int (sint a * sint b div 2 ^ 64) + (if sint a < 0 then b else 0) + (if sint b < 0 then a else 0)))"
proof (intro conjI)
  show "\<exists>v. r_arith F3_MULHU F7_MEXT a b = Inr v \<and> uint v = uint a * uint b div 2 ^ 64"
    by (simp add: r_arith_def m_arith_def mul_high_u128_value)
  show "r_arith F3_MULHSU F7_MEXT a b = Inr (of_int (sint a * uint b div 2 ^ 64) + (if sint a < 0 then b else 0))"
    using high_half_signed(1) [of a b] by (simp add: r_arith_def m_arith_def mul_high_u128_of_int)
  show "r_arith F3_MULH F7_MEXT a b =
     (if 2 ^ 127 \<le> uint a * uint b then Inl (Undefined SignedOverflow)
      else Inr (of_int (sint a * sint b div 2 ^ 64) + (if sint a < 0 then b else 0) + (if sint b < 0 then a else 0)))"
    using high_half_signed(2) [of a b] by (auto simp: r_arith_def m_arith_def mul_high_i128_def)
qed

text \<open>For example minus one times one: zero instead of minus one, for both MULH and MULHSU; the
  square of minus one overflows the 128-bit type.\<close>

lemma mul_high_negative:
  "m_arith F3_MULH (- 1) 1 = Inr 0 \<and> m_arith F3_MULHSU (- 1) 1 = Inr 0 \<and>
   of_int (sint (- 1 :: u64) * sint (1 :: u64) div 2 ^ 64) = (- 1 :: u64) \<and>
   m_arith F3_MULH (- 1) (- 1) = Inl (Undefined SignedOverflow)"
proof -
  have "mul_high_u128 (- 1) 1 = 0"
    using mul_high_u128_value [of "- 1" 1] by (simp add: word_uint_eq_iff unsigned_minus_1_eq_mask mask_eq_exp_minus_1)
  then show ?thesis by (simp add: m_arith_def mul_high_i128_def unsigned_minus_1_eq_mask mask_eq_exp_minus_1)
qed

text \<open>
  The architecture's quotient and remainder.  They are determined by the dividend and the
  divisor: the remainder is smaller than the divisor and, if signed, has the dividend's sign.
\<close>

definition unsigned_pair :: "'a::len word \<Rightarrow> 'a word \<Rightarrow> 'a word \<Rightarrow> 'a word \<Rightarrow> bool" where
  "unsigned_pair a b q r \<longleftrightarrow>
     (if b = 0 then q = - 1 \<and> r = a else uint a = uint q * uint b + uint r \<and> uint r < uint b)"

definition signed_pair :: "'a::len word \<Rightarrow> 'a word \<Rightarrow> 'a word \<Rightarrow> 'a word \<Rightarrow> bool" where
  "signed_pair a b q r \<longleftrightarrow>
     (if b = 0 then q = - 1 \<and> r = a
      else sint a = sint q * sint b + sint r \<and> \<bar>sint r\<bar> < \<bar>sint b\<bar> \<and> (sint r = 0 \<or> sgn (sint r) = sgn (sint a)))"

lemma unsigned_pair_div: "unsigned_pair a b (if b = 0 then - 1 else a div b) (if b = 0 then a else a mod b)"
proof (cases "b = 0")
  case False
  then have "0 < uint b" using uint_bounded [of b] by (simp add: word_uint_eq_iff order_less_le)
  with False show ?thesis
    by (simp add: unsigned_pair_def uint_word_ariths(4) uint_div uint_mod)
qed (simp add: unsigned_pair_def)

lemma sint_of_small:
  "- (2 ^ (LENGTH('a) - 1)) \<le> k \<Longrightarrow> k < 2 ^ (LENGTH('a) - 1) \<Longrightarrow> sint (of_int k :: 'a::len word) = k"
  by (simp add: signed_of_int signed_take_bit_int_eq_self)

lemma signed_pair_sdiv:
  fixes a b :: "'a::len word"
  assumes "b \<noteq> 0" and "\<not> (sint a = - (2 ^ (LENGTH('a) - 1)) \<and> sint b = - 1)"
  shows "signed_pair a b (of_int (sint a sdiv sint b)) (of_int (sint a smod sint b))"
proof -
  let ?N = "2 ^ (LENGTH('a) - 1) :: int"
  have a: "- ?N \<le> sint a" "sint a < ?N" and b: "- ?N \<le> sint b" "sint b < ?N"
    using sint_range_size [of a] sint_range_size [of b] by (simp_all add: word_size)
  have b0: "sint b \<noteq> 0" using assms(1) by (metis signed_0 signed_word_eqI)
  have q: "\<bar>sint a sdiv sint b\<bar> \<le> \<bar>sint a\<bar>" using sdiv_int_range [of "sint a" "sint b"] by auto
  have "sint a sdiv sint b \<noteq> ?N"
  proof
    assume e: "sint a sdiv sint b = ?N"
    with q a have "sint a = - ?N" by linarith
    with e have "sint a sdiv sint b = - sint a" by simp
    then have "sint b = - 1" using int_sdiv_negated_is_minus1 [of "sint a" "sint b"] \<open>sint a = - ?N\<close> by simp
    with \<open>sint a = - ?N\<close> show False using assms(2) by simp
  qed
  with q a have "sint (of_int (sint a sdiv sint b) :: 'a word) = sint a sdiv sint b"
    by (intro sint_of_small) linarith+
  moreover have r: "\<bar>sint a smod sint b\<bar> < \<bar>sint b\<bar>" using smod_int_range [OF b0, of "sint a"] by auto
  then have "sint (of_int (sint a smod sint b) :: 'a word) = sint a smod sint b"
    using b by (intro sint_of_small) linarith+
  moreover have "sint a smod sint b = 0 \<or> sgn (sint a smod sint b) = sgn (sint a)"
  proof -
    have "0 \<le> \<bar>sint a\<bar> mod \<bar>sint b\<bar>" using b0 by simp
    then have "\<bar>sint a\<bar> mod \<bar>sint b\<bar> = 0 \<or> sgn (\<bar>sint a\<bar> mod \<bar>sint b\<bar>) = 1" by (auto simp: sgn_if)
    then show ?thesis unfolding smod_int_alt_def by (elim disjE) (simp_all only: sgn_mult sgn_sgn mult_1_right mult_zero_right, simp_all)
  qed
  ultimately show ?thesis
    using assms(1) r sdiv_mult_smod_eq [of "sint a" "sint b"] by (simp add: signed_pair_def)
qed

text \<open>C25: Division. The four pairs of instructions, on 64 bits and on the low 32 bits, return the
  quotient and the remainder of the architecture: for divisor zero all ones and the dividend,
  otherwise the integers with dividend = quotient * divisor + remainder whose remainder is
  smaller than the divisor and, for the signed pairs, has the sign of the dividend.  The one
  exception is the least integer divided by minus one, where the signed pairs are undefined
  behaviour of the host (the architecture defines the result).\<close>

theorem division_pairs:
  fixes a b :: u64
  defines "aw \<equiv> ucast a :: u32" and "bw \<equiv> ucast b :: u32"
  shows "(\<exists>q r. r_arith F3_DIVU F7_MEXT a b = Inr q \<and> r_arith F3_REMU F7_MEXT a b = Inr r \<and> unsigned_pair a b q r) \<and>
   (if sint a = - (2 ^ 63) \<and> sint b = - 1
    then r_arith F3_DIV F7_MEXT a b = Inl (Undefined SignedOverflow) \<and> r_arith F3_REM F7_MEXT a b = Inl (Undefined SignedOverflow)
    else \<exists>q r. r_arith F3_DIV F7_MEXT a b = Inr q \<and> r_arith F3_REM F7_MEXT a b = Inr r \<and> signed_pair a b q r) \<and>
   (\<exists>q r. r_arith_w F3_DIVU F7_MEXT a b = Inr q \<and> r_arith_w F3_REMU F7_MEXT a b = Inr r \<and> unsigned_pair aw bw q r) \<and>
   (if sint aw = - (2 ^ 31) \<and> sint bw = - 1
    then r_arith_w F3_DIV F7_MEXT a b = Inl (Undefined SignedOverflow) \<and> r_arith_w F3_REM F7_MEXT a b = Inl (Undefined SignedOverflow)
    else \<exists>q r. r_arith_w F3_DIV F7_MEXT a b = Inr q \<and> r_arith_w F3_REM F7_MEXT a b = Inr r \<and> signed_pair aw bw q r)"
proof (intro conjI)
  note defs = r_arith_def m_arith_def div_signed_def rem_signed_def
    r_arith_w_def m_arith_w_def div_signed_w_def rem_signed_w_def Let_def
  show "\<exists>q r. r_arith F3_DIVU F7_MEXT a b = Inr q \<and> r_arith F3_REMU F7_MEXT a b = Inr r \<and> unsigned_pair a b q r"
    using unsigned_pair_div [of a b] by (simp add: defs)
  show "\<exists>q r. r_arith_w F3_DIVU F7_MEXT a b = Inr q \<and> r_arith_w F3_REMU F7_MEXT a b = Inr r \<and> unsigned_pair aw bw q r"
    unfolding aw_def bw_def
    using unsigned_pair_div [of "ucast a :: u32" "ucast b"] by (simp add: defs)
  have zero: "signed_pair x 0 (- 1) x" for x :: "'w::len word" by (simp add: signed_pair_def)
  show "if sint a = - (2 ^ 63) \<and> sint b = - 1
    then r_arith F3_DIV F7_MEXT a b = Inl (Undefined SignedOverflow) \<and> r_arith F3_REM F7_MEXT a b = Inl (Undefined SignedOverflow)
    else \<exists>q r. r_arith F3_DIV F7_MEXT a b = Inr q \<and> r_arith F3_REM F7_MEXT a b = Inr r \<and> signed_pair a b q r"
    using signed_pair_sdiv [of b a] zero [of a] by (cases "b = 0") (auto simp: defs)
  show "if sint aw = - (2 ^ 31) \<and> sint bw = - 1
    then r_arith_w F3_DIV F7_MEXT a b = Inl (Undefined SignedOverflow) \<and> r_arith_w F3_REM F7_MEXT a b = Inl (Undefined SignedOverflow)
    else \<exists>q r. r_arith_w F3_DIV F7_MEXT a b = Inr q \<and> r_arith_w F3_REM F7_MEXT a b = Inr r \<and> signed_pair aw bw q r"
    unfolding aw_def bw_def
    using signed_pair_sdiv [of "ucast b :: u32" "ucast a"] zero [of "ucast a :: u32"]
    by (cases "ucast b = (0 :: u32)") (auto simp: defs)
qed

theorem division_pairs_witness:
  "\<exists>q r. r_arith F3_DIV F7_MEXT (- 7) 2 = Inr q \<and> r_arith F3_REM F7_MEXT (- 7) 2 = Inr r \<and> signed_pair (- 7) 2 q r"
  using division_pairs [of "- 7" 2] by simp

section \<open>Loads and stores\<close>

text \<open>A store followed by a load of the same width, without translation.\<close>

definition mem_insn :: "u32 \<Rightarrow> u32 \<Rightarrow> u32 \<Rightarrow> u32 \<Rightarrow> u32 \<Rightarrow> u64 \<Rightarrow> instruction" where
  "mem_insn op f3 rd rs1 rs2 im = \<lparr>opcode = op, i_rd = rd, i_rs1 = rs1, i_rs2 = rs2, funct3 = f3, funct7 = 0, imm = im, isize = 4\<rparr>"

definition access_bytes :: "u32 \<Rightarrow> nat" where
  "access_bytes f3 = (if f3 = F3_SB then 1 else if f3 = F3_SH then 2 else if f3 = F3_SW then 4 else 8)"

lemma take_ucast_64:
  "(ucast (ucast v :: u8) :: u64) = take_bit 8 v" "(ucast (ucast v :: u16) :: u64) = take_bit 16 v"
  "(ucast (ucast v :: u32) :: u64) = take_bit 32 (v :: u64)"
  by (rule bit_word_eqI; auto simp: bit_simps)+

lemma scast_sext:
  "(scast (ucast v :: u8) :: u64) = sext64 v 8" "(scast (ucast v :: u16) :: u64) = sext64 v 16"
  "(scast (ucast v :: u32) :: u64) = sext64 v 32" "sext64 v 64 = (v :: u64)"
proof -
  have e: "n < (8 :: nat) \<longleftrightarrow> n \<le> 7" "n < (16 :: nat) \<longleftrightarrow> n \<le> 15" "n < (32 :: nat) \<longleftrightarrow> n \<le> 31" for n by auto
  show "(scast (ucast v :: u8) :: u64) = sext64 v 8" "(scast (ucast v :: u16) :: u64) = sext64 v 16"
    "(scast (ucast v :: u32) :: u64) = sext64 v 32" "sext64 v 64 = (v :: u64)"
    by (rule bit_word_eqI; auto simp: bit_sext64 bit_simps min_def e)+
qed

lemma ram_store_take: "ram_store m a (take_bit (8 * n) v) n = ram_store m a v n"
  by (simp add: ram_store_def store_le_take split: sum.split)

lemma ram_store_ucast:
  "ram_store m a (ucast (ucast v :: u8)) 1 = ram_store m a v 1"
  "ram_store m a (ucast (ucast v :: u16)) 2 = ram_store m a v 2"
  "ram_store m a (ucast (ucast v :: u32)) 4 = ram_store m a v 4"
  unfolding take_ucast_64
  using ram_store_take [of m a 1 v] ram_store_take [of m a 2 v] ram_store_take [of m a 4 v] by simp_all

lemma advance_simps [simp]:
  "m_mem (advance i m) = m_mem m" "regs (m_cpu (advance i m)) = regs (m_cpu m)"
  "mmu_active (m_cpu (advance i m)) = mmu_active (m_cpu m)" "pc (m_cpu (advance i m)) = pc (m_cpu m) + ucast (isize i)"
  by (simp_all add: advance_def mmu_active_def)

lemma execute_store_ram:
  assumes "\<not> mmu_active (m_cpu m)" "regs (m_cpu m) rs1 + im = va" "va \<noteq> MMU_FAULT" "f3 < 4"
    "in_ram m va (access_bytes f3)"
  shows "execute h notify m (mem_insn OP_STORE f3 rd rs1 rs2 im) =
    Inr (advance (mem_insn OP_STORE f3 rd rs1 rs2 im) (ram_store m va (regs (m_cpu m) rs2) (access_bytes f3)))"
proof -
  have "f3 = 0 \<or> f3 = 1 \<or> f3 = 2 \<or> f3 = 3" using assms(4) by unat_arith
  then show ?thesis
    using assms
    by (elim disjE) (simp_all add: execute_def execute_store_def mem_insn_def finish_store_def vm_write8_def vm_write16_def
        vm_write32_def vm_write64_def vm_write_def mmu_translate_def mem_write8_def mem_write16_def mem_write32_def
        mem_write64_def mem_write_ram access_bytes_def ram_store_ucast [simplified])
qed

lemma execute_load_ram:
  assumes "\<not> mmu_active (m_cpu m)" "regs (m_cpu m) rs1 + im = va" "va \<noteq> MMU_FAULT" "f3 < 4"
    "in_ram m va (access_bytes f3)"
  shows "execute h notify m (mem_insn OP_LOAD f3 rd rs1 rs2 im) =
      Inr (advance (mem_insn OP_LOAD f3 rd rs1 rs2 im)
            (with_reg m rd (sext64 (ram_value m va (access_bytes f3)) (8 * access_bytes f3))))"
    "f3 < 3 \<Longrightarrow> execute h notify m (mem_insn OP_LOAD (f3 + 4) rd rs1 rs2 im) =
      Inr (advance (mem_insn OP_LOAD (f3 + 4) rd rs1 rs2 im)
            (with_reg m rd (take_bit (8 * access_bytes f3) (ram_value m va (access_bytes f3)))))"
proof -
  have f3: "f3 = 0 \<or> f3 = 1 \<or> f3 = 2 \<or> f3 = 3" using assms(4) by unat_arith
  note defs = execute_def execute_load_def mem_insn_def finish_load_def vm_read8_def vm_read16_def
        vm_read32_def vm_read64_def vm_read_def mmu_translate_def mem_read8_def mem_read16_def mem_read32_def
        mem_read64_def mem_read_ram access_bytes_def scast_sext take_ucast_64
  show "execute h notify m (mem_insn OP_LOAD f3 rd rs1 rs2 im) =
      Inr (advance (mem_insn OP_LOAD f3 rd rs1 rs2 im)
            (with_reg m rd (sext64 (ram_value m va (access_bytes f3)) (8 * access_bytes f3))))"
    using f3 assms by (elim disjE) (simp_all add: defs)
  show "f3 < 3 \<Longrightarrow> execute h notify m (mem_insn OP_LOAD (f3 + 4) rd rs1 rs2 im) =
      Inr (advance (mem_insn OP_LOAD (f3 + 4) rd rs1 rs2 im)
            (with_reg m rd (take_bit (8 * access_bytes f3) (ram_value m va (access_bytes f3)))))"
    using f3 assms by (elim disjE) (simp_all add: defs)
qed

lemma sext64_take: "n \<le> 64 \<Longrightarrow> 0 < n \<Longrightarrow> sext64 (take_bit n v) n = sext64 v n"
  by (rule sext64_eq) (auto simp: bit_simps)

text \<open>C4: Storing and loading back. Without translation, a store of one, two, four or eight bytes
  to RAM followed by the load of that width from the same address leaves in the destination the
  stored register's low bytes, sign-extended by the signed loads and zero-extended by the
  unsigned ones, with the program counter past both instructions.\<close>

theorem load_after_store:
  fixes m :: machine and rs1 rs2 rd f3 :: u32 and im :: u64
  defines "v \<equiv> regs (m_cpu m) rs2" and "va \<equiv> regs (m_cpu m) rs1 + im" and "n \<equiv> 8 * access_bytes f3"
  assumes "\<not> mmu_active (m_cpu m)" and "va \<noteq> MMU_FAULT" and "f3 < 4" and "in_ram m va (access_bytes f3)" and "rd \<noteq> 0"
  shows "\<exists>m1 m2. execute h notify m (mem_insn OP_STORE f3 0 rs1 rs2 im) = Inr m1 \<and>
     execute h notify m1 (mem_insn OP_LOAD f3 rd rs1 0 im) = Inr m2 \<and>
     regs (m_cpu m2) rd = sext64 v n \<and> pc (m_cpu m2) = pc (m_cpu m) + 8 \<and>
     (f3 < 3 \<longrightarrow> (\<exists>m3. execute h notify m1 (mem_insn OP_LOAD (f3 + 4) rd rs1 0 im) = Inr m3 \<and>
        regs (m_cpu m3) rd = take_bit n v))"
proof -
  let ?i = "mem_insn OP_STORE f3 0 rs1 rs2 im"
  let ?m1 = "advance ?i (ram_store m va v (access_bytes f3))"
  have n: "access_bytes f3 \<le> 8" "0 < access_bytes f3" by (simp_all add: access_bytes_def)
  have isz: "ucast (isize (mem_insn op f rd' r1 r2 im')) = (4 :: u64)" for op f rd' r1 r2 im'
    by (simp add: mem_insn_def)
  have m1: "\<not> mmu_active (m_cpu ?m1)" "regs (m_cpu ?m1) rs1 + im = va" "in_ram ?m1 va (access_bytes f3)"
    "ram_value ?m1 va (access_bytes f3) = take_bit n v"
    using assms(4,7) n
    by (simp_all add: va_def n_def ram_mem_cong [of "advance ?i x" x for x] ram_store_in_ram ram_value_store_same)
  have st: "execute h notify m ?i = Inr ?m1"
    unfolding v_def by (rule execute_store_ram [OF assms(4) _ assms(5-7)]) (simp add: va_def)
  note ld = execute_load_ram [OF m1(1,2) assms(5,6) m1(3), unfolded m1(4)]
  show ?thesis
    using st n \<open>rd \<noteq> 0\<close>
    by (simp add: ld regs_reg_write isz sext64_take n_def)
qed

theorem load_after_store_witness:
  "\<exists>m1 m2. execute default_fpu (\<lambda>i m. Inr m) (amo_machine 0x80000000) (mem_insn OP_STORE F3_SW 0 10 11 0) = Inr m1 \<and>
     execute default_fpu (\<lambda>i m. Inr m) m1 (mem_insn OP_LOAD F3_LW 12 10 0 0) = Inr m2 \<and> regs (m_cpu m2) 12 = 7"
proof -
  have "regs (m_cpu (amo_machine 0x80000000)) 10 = 0x80000000" "regs (m_cpu (amo_machine 0x80000000)) 11 = 7"
    "in_ram (amo_machine 0x80000000) 0x80000000 4" "sext64 7 32 = 7"
    using amo_machine_facts(4) by (simp_all add: amo_machine_def amo_insn_def amo_size_def sext64_def)
  then show ?thesis
    using load_after_store [of "amo_machine 0x80000000" 10 0 F3_SW 12 default_fpu "\<lambda>i m. Inr m" 11] amo_machine_facts(1)
    by (fastforce simp: access_bytes_def)
qed

section \<open>Control registers\<close>

definition trap_csrs :: "u32 set" where
  "trap_csrs = {CSR_MSTATUS, CSR_SEPC, CSR_SCAUSE, CSR_STVAL, CSR_MEPC, CSR_MCAUSE, CSR_MTVAL}"

lemma cpu_trap_csrs: "a \<notin> trap_csrs \<Longrightarrow> csrs (cpu_trap c cause tval) a = csrs c a"
  by (cases "trap_to_s c cause") (auto simp: cpu_trap_s cpu_trap_m trap_csrs_def)

text \<open>C20: Control registers are protected. A CSR instruction on a register whose number asks for
  more privilege than the processor has, whatever its operation and operands, does nothing but
  an illegal-instruction trap: the result is the machine with only the processor changed, by
  that trap; the general registers and the control registers a trap does not write keep their
  values, and the processor is at the vector of the mode the trap belongs to, with the
  instruction's own address, the cause 2 and the trap value 0 in that mode's registers.\<close>

theorem csr_protection:
  assumes "opcode i = OP_SYSTEM" and "funct3 i \<noteq> 0"
    and "privilege (m_cpu m) < drop_bit 8 (ucast (imm i AND 0xFFF)) AND 0x3"
  shows "let c = m_cpu m; c' = cpu_trap c 2 0 in
    execute h notify m i = Inr (m\<lparr>m_cpu := c'\<rparr>) \<and>
    regs c' = regs c \<and> fregs c' = fregs c \<and> (\<forall>a. a \<notin> trap_csrs \<longrightarrow> csrs c' a = csrs c a) \<and>
    (if trap_to_s c 2
     then privilege c' = PRIV_S \<and> pc c' = csrs c CSR_STVEC AND NOT 3 \<and> csrs c' CSR_SCAUSE = 2 \<and>
       csrs c' CSR_SEPC = pc c \<and> csrs c' CSR_STVAL = 0
     else privilege c' = PRIV_M \<and> pc c' = csrs c CSR_MTVEC AND NOT 3 \<and> csrs c' CSR_MCAUSE = 2 \<and>
       csrs c' CSR_MEPC = pc c \<and> csrs c' CSR_MTVAL = 0)"
proof -
  have "execute h notify m i = Inr (m\<lparr>m_cpu := cpu_trap (m_cpu m) 2 0\<rparr>)"
    using assms by (simp add: execute_def execute_csr_def Let_def set_cpu_def)
  then show ?thesis
    unfolding Let_def by (cases "trap_to_s (m_cpu m) 2") (simp_all add: cpu_trap_csrs, simp_all add: cpu_trap_s cpu_trap_m)
qed

theorem csr_protection_witness:
  "\<exists>c'. execute default_fpu (\<lambda>i m. Inr m) example_machine (mem_insn OP_SYSTEM 1 5 6 0 0x300) = Inr (example_machine\<lparr>m_cpu := c'\<rparr>) \<and>
     regs c' 5 = 0 \<and> csrs c' CSR_MCAUSE = 2"
proof -
  have "privilege (m_cpu example_machine) < drop_bit 8 (ucast (imm (mem_insn OP_SYSTEM 1 5 6 0 0x300) AND 0xFFF)) AND 0x3"
    and i: "opcode (mem_insn OP_SYSTEM 1 5 6 0 0x300) = OP_SYSTEM" "funct3 (mem_insn OP_SYSTEM 1 5 6 0 0x300) \<noteq> 0"
    and t: "\<not> trap_to_s (m_cpu example_machine) 2" "regs (m_cpu example_machine) 5 = 0"
    by (simp_all add: example_machine_def cpu_zero_def mem_insn_def trap_to_s_def csr_read_def)
  from csr_protection [OF i this(1), of default_fpu "\<lambda>i m. Inr m"] t show ?thesis by (auto simp: Let_def)
qed

section \<open>Departures from the architecture\<close>

text \<open>C38: An atomic instruction that takes a page fault does not enter the handler at its first
  instruction: the code advances the program counter after the trap set it, so that execution
  resumes one instruction length past the trap vector.\<close>

theorem amo_fault_skips_handler:
  assumes "opcode i = OP_AMO" and "drop_bit 2 (funct7 i) \<noteq> F5_LR"
    and "mmu_translate notify m (regs (m_cpu m) (i_rs1 i)) MMU_STORE = Inr (MMU_FAULT, trap_machine m 15 va)"
  shows "\<exists>m'. execute h notify m i = Inr m' \<and>
     pc (m_cpu m') = (if trap_to_s (m_cpu m) 15 then csrs (m_cpu m) CSR_STVEC AND NOT 3
                      else csrs (m_cpu m) CSR_MTVEC AND NOT 3) + ucast (isize i)"
  using assms
  by (simp add: execute_def execute_a_def execute_sc_def execute_amo_def Let_def trap_machine_def)
    (simp add: cpu_trap_s cpu_trap_m)

text \<open>A supervisor machine whose root table is all zeros: every access faults.\<close>

definition unmapped_machine :: machine where
  "unmapped_machine = example_machine\<lparr>
     m_cpu := cpu_zero\<lparr>privilege := PRIV_S, csrs := (\<lambda>_. 0)(CSR_SATP := 0x8000000000080000, CSR_MTVEC := 0x80001000)\<rparr>\<rparr>"

lemma unmapped_fault:
  "mmu_translate notify unmapped_machine va MMU_STORE = Inr (MMU_FAULT, trap_machine unmapped_machine 15 va)"
proof -
  let ?a = "pte_addr_of 0x80000 (vpn_of va 2)"
  have "unat (vpn_of va 2) < 512" by (simp add: unat_vpn_of)
  then have "unat ?a = 0x80000000 + 8 * unat (vpn_of va 2)"
    by (simp add: pte_addr_of_def unat_word_ariths)
  then have a: "unat ?a < 0x80001000" "0x80000000 \<le> unat ?a"
    using \<open>unat (vpn_of va 2) < 512\<close> by simp_all
  then have "unat (?a + 8) = unat ?a + 8" "unat (?a - 0x80000000) = unat ?a - 0x80000000"
    by (simp_all add: unat_word_ariths unat_diff_word word_le_nat_alt)
  then have "in_ram unmapped_machine ?a 8 \<and> ram_value unmapped_machine ?a 8 = 0"
    using a by (simp add: unmapped_machine_def example_machine_def ram_256M_def mem_find_region_def word_le_nat_alt
        in_ram_def ram_at_def ram_value_def)
  then have rd: "mem_read64 unmapped_machine ?a = Inr (0, unmapped_machine)"
    by (simp add: mem_read64_def mem_read_ram)
  have "mmu_active (m_cpu unmapped_machine)" "csrs (m_cpu unmapped_machine) CSR_SATP AND SATP_PPN_MASK = 0x80000"
    by (simp_all add: mmu_active_def unmapped_machine_def)
  then show ?thesis
    using rd by (simp add: mmu_translate_def numeral_3_eq_3 fault_cause_def numeral_2_eq_2)
qed

theorem amo_fault_skips_handler_witness:
  "\<exists>m'. execute default_fpu (\<lambda>i m. Inr m) unmapped_machine (amo_insn F5_AMOADD) = Inr m' \<and> pc (m_cpu m') = 0x80001004"
proof -
  have "opcode (amo_insn F5_AMOADD) = OP_AMO" "drop_bit 2 (funct7 (amo_insn F5_AMOADD)) \<noteq> F5_LR"
    "isize (amo_insn F5_AMOADD) = 4" "\<not> trap_to_s (m_cpu unmapped_machine) 15" "csrs (m_cpu unmapped_machine) CSR_MTVEC = 0x80001000"
    by (simp_all add: amo_insn_def trap_to_s_def csr_read_def unmapped_machine_def)
  then show ?thesis
    using amo_fault_skips_handler [OF _ _ unmapped_fault, where i = "amo_insn F5_AMOADD" and h = default_fpu] by simp
qed





end
