(* ===== verification/Boot.thy ===== *)
theory Boot
  imports Isa
begin

text \<open>
  Assembling and starting the machine: the \<open>_init\<close> functions of the devices, the ELF loader
  (\<^verbatim>\<open>src/elf.c\<close>), the three boot modes (\<^verbatim>\<open>elf_boot\<close>, \<^verbatim>\<open>src/kernel_boot.c\<close>,
  \<^verbatim>\<open>src/linux_boot.c\<close>) and \<^verbatim>\<open>src/main.c\<close>.  A file of the host is the list of its bytes, or
  none when it cannot be opened; reading past the buffer a file was loaded into is undefined
  behaviour.  \<open>alloc n\<close> is the answer of the host allocator to a request of \<open>n\<close> bytes.  The
  settings of the terminal (raw mode, non-blocking input) are not modelled beyond the answers
  of the console.
\<close>

section \<open>Device initialisation\<close>

abbreviation (input) MAX_IRQ_SOURCES :: nat where "MAX_IRQ_SOURCES \<equiv> 8"
abbreviation (input) UART_BASE :: u64 where "UART_BASE \<equiv> 0x10000000"
abbreviation (input) UART_SIZE :: u64 where "UART_SIZE \<equiv> 8"
abbreviation (input) PLIC_BASE :: u64 where "PLIC_BASE \<equiv> 0x0C000000"
abbreviation (input) PLIC_SIZE :: u64 where "PLIC_SIZE \<equiv> 0x04000000"
abbreviation (input) CLINT_BASE :: u64 where "CLINT_BASE \<equiv> 0x2000000"
abbreviation (input) CLINT_SIZE :: u64 where "CLINT_SIZE \<equiv> 0x10000"
abbreviation (input) RAM_BASE :: u64 where "RAM_BASE \<equiv> 0x80000000"
abbreviation (input) RAM_SIZE :: u64 where "RAM_SIZE \<equiv> 256 * 1024 * 1024"
abbreviation (input) LINUX_DTB_ADDR :: u64 where "LINUX_DTB_ADDR \<equiv> 0x82000000"
abbreviation (input) LINUX_INITRAMFS_ADDR :: u64 where "LINUX_INITRAMFS_ADDR \<equiv> 0x84000000"

definition cpu_add_irq_source :: "machine \<Rightarrow> irq_source \<Rightarrow> machine" where
  "cpu_add_irq_source m fn =
     (if length (m_sources m) < MAX_IRQ_SOURCES then m\<lparr>m_sources := m_sources m @ [fn]\<rparr> else m)"

definition add_device :: "machine \<Rightarrow> u64 \<Rightarrow> u64 \<Rightarrow> handler \<Rightarrow> machine" where
  "add_device m b sz h = m\<lparr>m_mem := snd (mem_add_device (m_mem m) b sz h)\<rparr>"

definition uart_init :: "machine \<Rightarrow> machine" where
  "uart_init m = add_device (cpu_add_irq_source m UartSource) UART_BASE UART_SIZE UartHandler"

definition plic_init :: "machine \<Rightarrow> machine" where
  "plic_init m = add_device m PLIC_BASE PLIC_SIZE PlicHandler"

definition clint_init :: "machine \<Rightarrow> machine" where
  "clint_init m = add_device (cpu_add_irq_source m ClintSource) CLINT_BASE CLINT_SIZE ClintHandler"

section \<open>The ELF loader (src/elf.c, include/elf.h)\<close>

abbreviation (input) ELF_MAGIC :: "u8 list" where "ELF_MAGIC \<equiv> [0x7F, 0x45, 0x4C, 0x46]"
abbreviation (input) ELF_MAGIC_LEN :: nat where "ELF_MAGIC_LEN \<equiv> 4"
abbreviation (input) ELF_CLASS64 :: u64 where "ELF_CLASS64 \<equiv> 2"
abbreviation (input) ELF_DATA_LSB :: u64 where "ELF_DATA_LSB \<equiv> 1"
abbreviation (input) ELF_MACH_RISCV :: u64 where "ELF_MACH_RISCV \<equiv> 243"
abbreviation (input) ELF_PT_LOAD :: u64 where "ELF_PT_LOAD \<equiv> 1"

text \<open>The value \<^verbatim>\<open>(u64)-1\<close> that reports a failure.\<close>

abbreviation (input) LOAD_FAILED :: u64 where "LOAD_FAILED \<equiv> - 1"

primrec le_value :: "u8 list \<Rightarrow> u64" where
  "le_value [] = 0"
| "le_value (b # bs) = ucast b OR push_bit 8 (le_value bs)"

text \<open>Bytes \<open>off .. off + n - 1\<close> of the buffer, and the little-endian number they hold.\<close>

definition file_slice :: "u8 list \<Rightarrow> nat \<Rightarrow> nat \<Rightarrow> stop + u8 list" where
  "file_slice data off n =
     (if off + n \<le> length data then Inr (take n (drop off data)) else Inl (Undefined OutOfBounds))"

definition file_read :: "u8 list \<Rightarrow> nat \<Rightarrow> nat \<Rightarrow> stop + u64" where
  "file_read data off n = andThen (file_slice data off n) (\<lambda>bs. Inr (le_value bs))"

text \<open>
  The fields of \<^verbatim>\<open>ElfHeader\<close> and \<^verbatim>\<open>ElfProgramHeader\<close> the loader reads, at the offsets the C
  layout of the structs gives them.  Each field is read when the code reads it.
\<close>

definition eh_ident :: "u8 list \<Rightarrow> nat \<Rightarrow> stop + u64" where "eh_ident data i = file_read data i 1"
definition eh_machine :: "u8 list \<Rightarrow> stop + u64" where "eh_machine data = file_read data 18 2"
definition eh_entry :: "u8 list \<Rightarrow> stop + u64" where "eh_entry data = file_read data 24 8"
definition eh_ph_off :: "u8 list \<Rightarrow> stop + u64" where "eh_ph_off data = file_read data 32 8"
definition eh_ph_ent_size :: "u8 list \<Rightarrow> stop + u64" where "eh_ph_ent_size data = file_read data 54 2"
definition eh_ph_num :: "u8 list \<Rightarrow> stop + u64" where "eh_ph_num data = file_read data 56 2"

definition ph_type :: "u8 list \<Rightarrow> nat \<Rightarrow> stop + u64" where "ph_type data ph = file_read data ph 4"
definition ph_offset :: "u8 list \<Rightarrow> nat \<Rightarrow> stop + u64" where "ph_offset data ph = file_read data (ph + 8) 8"
definition ph_vaddr :: "u8 list \<Rightarrow> nat \<Rightarrow> stop + u64" where "ph_vaddr data ph = file_read data (ph + 16) 8"
definition ph_paddr :: "u8 list \<Rightarrow> nat \<Rightarrow> stop + u64" where "ph_paddr data ph = file_read data (ph + 24) 8"
definition ph_file_size :: "u8 list \<Rightarrow> nat \<Rightarrow> stop + u64" where "ph_file_size data ph = file_read data (ph + 32) 8"
definition ph_mem_size :: "u8 list \<Rightarrow> nat \<Rightarrow> stop + u64" where "ph_mem_size data ph = file_read data (ph + 40) 8"

text \<open>
  The position of program header \<open>i\<close>: \<^verbatim>\<open>data + ehdr->ph_off + i * ehdr->ph_ent_size\<close>.  The
  product is of two \<^verbatim>\<open>int\<close>s.
\<close>

definition ph_at :: "u8 list \<Rightarrow> nat \<Rightarrow> stop + nat" where
  "ph_at data i =
     andThen (eh_ph_off data) (\<lambda>off.
     andThen (eh_ph_ent_size data) (\<lambda>ent.
       if i * unat ent < 2 ^ 31 then Inr (unat off + i * unat ent) else Inl (Undefined SignedOverflow)))"

text \<open>The first loop: the shift from physical to virtual addresses, from the first LOAD segment.\<close>

primrec elf_virt_shift :: "u8 list \<Rightarrow> nat list \<Rightarrow> stop + u64" where
  "elf_virt_shift data [] = Inr 0"
| "elf_virt_shift data (i # is) =
     andThen (ph_at data i) (\<lambda>ph.
     andThen (ph_type data ph) (\<lambda>t.
       if t = ELF_PT_LOAD then
         andThen (ph_vaddr data ph) (\<lambda>v. andThen (ph_paddr data ph) (\<lambda>p. Inr (v - p)))
       else elf_virt_shift data is))"

definition elf_copy :: "u8 list \<Rightarrow> nat \<Rightarrow> u64 \<Rightarrow> u64 \<Rightarrow> memory \<Rightarrow> stop + memory" where
  "elf_copy data ph phys_addr file_size mem =
     (if 0 < file_size then
        andThen (ph_offset data ph) (\<lambda>off.
        andThen (mem_find_region mem phys_addr file_size) (\<lambda>_.
        andThen (file_slice data (unat off) (unat file_size)) (\<lambda>bytes.
          mem_write_buf mem phys_addr bytes)))
      else Inr mem)"

text \<open>The zeroed tail of a segment; the result of \<^verbatim>\<open>calloc\<close> is not checked.\<close>

definition elf_zero :: "(nat \<Rightarrow> bool) \<Rightarrow> u64 \<Rightarrow> u64 \<Rightarrow> u64 \<Rightarrow> memory \<Rightarrow> stop + memory" where
  "elf_zero alloc phys_addr file_size mem_size mem =
     (if file_size < mem_size then
        (let bss_size = mem_size - file_size in
         andThen (mem_find_region mem (phys_addr + file_size) bss_size) (\<lambda>_.
           if alloc (unat bss_size)
           then mem_write_buf mem (phys_addr + file_size) (replicate (unat bss_size) 0)
           else Inl (Undefined NullPointer)))
      else Inr mem)"

definition elf_segment :: "(nat \<Rightarrow> bool) \<Rightarrow> u8 list \<Rightarrow> u64 \<Rightarrow> nat \<Rightarrow> memory \<Rightarrow> stop + memory" where
  "elf_segment alloc data phys_base i mem =
     andThen (ph_at data i) (\<lambda>ph.
     andThen (ph_type data ph) (\<lambda>t.
       if t \<noteq> ELF_PT_LOAD then Inr mem
       else
         andThen (ph_paddr data ph) (\<lambda>paddr.
         andThen (ph_file_size data ph) (\<lambda>file_size.
         andThen (elf_copy data ph (paddr + phys_base) file_size mem) (\<lambda>mem.
         andThen (ph_mem_size data ph) (\<lambda>mem_size.
           elf_zero alloc (paddr + phys_base) file_size mem_size mem))))))"

primrec elf_segments :: "(nat \<Rightarrow> bool) \<Rightarrow> u8 list \<Rightarrow> u64 \<Rightarrow> nat list \<Rightarrow> memory \<Rightarrow> stop + memory" where
  "elf_segments alloc data phys_base [] mem = Inr mem"
| "elf_segments alloc data phys_base (i # is) mem =
     andThen (elf_segment alloc data phys_base i mem) (elf_segments alloc data phys_base is)"

text \<open>The checks of the identification: the magic, then class, byte order and machine in turn.\<close>

definition elf_accepts :: "u8 list \<Rightarrow> stop + bool" where
  "elf_accepts data =
     andThen (file_slice data 0 ELF_MAGIC_LEN) (\<lambda>magic.
       if magic \<noteq> ELF_MAGIC then Inr False
       else andThen (eh_ident data 4) (\<lambda>class.
         if class \<noteq> ELF_CLASS64 then Inr False
         else andThen (eh_ident data 5) (\<lambda>order.
           if order \<noteq> ELF_DATA_LSB then Inr False
           else andThen (eh_machine data) (\<lambda>mach. Inr (mach = ELF_MACH_RISCV)))))"

definition elf_load :: "(nat \<Rightarrow> bool) \<Rightarrow> memory \<Rightarrow> u8 list option \<Rightarrow> u64 \<Rightarrow> stop + u64 \<times> memory" where
  "elf_load alloc mem file phys_base =
     (case file of
        None \<Rightarrow> Inr (LOAD_FAILED, mem)
      | Some data \<Rightarrow>
          (if \<not> alloc (length data) then Inr (LOAD_FAILED, mem)
           else
             andThen (elf_accepts data) (\<lambda>ok.
               if \<not> ok then Inr (LOAD_FAILED, mem)
               else
                 andThen (eh_ph_num data) (\<lambda>num.
                 andThen (elf_virt_shift data [0..<unat num]) (\<lambda>virt_shift.
                 andThen (elf_segments alloc data phys_base [0..<unat num] mem) (\<lambda>mem.
                 andThen (eh_entry data) (\<lambda>entry.
                   Inr (entry - virt_shift + phys_base, mem))))))))"

section \<open>Boot modes\<close>

text \<open>A boot function returns 0 (here \<^term>\<open>True\<close>) or -1.\<close>

definition elf_boot :: "(nat \<Rightarrow> bool) \<Rightarrow> u8 list option \<Rightarrow> machine \<Rightarrow> stop + bool \<times> machine" where
  "elf_boot alloc file m =
     andThen (elf_load alloc (m_mem m) file 0) (\<lambda>(entry, mem).
       let m = m\<lparr>m_mem := mem\<rparr> in
       if entry = LOAD_FAILED then Inr (False, m)
       else Inr (True, set_cpu m ((m_cpu m)\<lparr>pc := entry\<rparr>)))"

definition boot_args :: "cpu \<Rightarrow> u64 \<Rightarrow> u64 \<Rightarrow> cpu" where
  "boot_args c a0 a1 = c\<lparr>regs := (regs c)(REG_A0 := a0, REG_A1 := a1)\<rparr>"

definition kernel_boot :: "(nat \<Rightarrow> bool) \<Rightarrow> u8 list option \<Rightarrow> machine \<Rightarrow> stop + bool \<times> machine" where
  "kernel_boot alloc file m =
     andThen (elf_load alloc (m_mem m) file 0) (\<lambda>(entry, mem).
       let m = m\<lparr>m_mem := mem\<rparr> in
       if entry = LOAD_FAILED then Inr (False, m)
       else Inr (True, set_cpu m (sbi_init (boot_args (m_cpu m) 0 0) entry)))"

definition linux_boot ::
  "(nat \<Rightarrow> bool) \<Rightarrow> u8 list option \<Rightarrow> u8 list option \<Rightarrow> u8 list option \<Rightarrow> machine \<Rightarrow> stop + bool \<times> machine" where
  "linux_boot alloc vmlinux dtb initramfs m =
     andThen (elf_load alloc (m_mem m) vmlinux 0x80000000) (\<lambda>(entry, mem).
       let m = m\<lparr>m_mem := mem\<rparr> in
       if entry = LOAD_FAILED then Inr (False, m)
       else
         andThen (mem_read16 m entry) (\<lambda>(magic, m).
           let entry = (if magic = 0x5A4D then entry + 2 else entry) in
           andThen (mem_load_file (m_mem m) dtb LINUX_DTB_ADDR) (\<lambda>(ok, mem).
             let m = m\<lparr>m_mem := mem\<rparr> in
             if \<not> ok then Inr (False, m)
             else
               andThen (mem_load_file (m_mem m) initramfs LINUX_INITRAMFS_ADDR) (\<lambda>(ok, mem).
                 let m = m\<lparr>m_mem := mem\<rparr> in
                 if \<not> ok then Inr (False, m)
                 else Inr (True, set_cpu m (sbi_init (boot_args (m_cpu m) 0 LINUX_DTB_ADDR) entry))))))"

section \<open>The main program (src/main.c)\<close>

text \<open>
  The files of the host: the binary named on the command line and the two files whose paths
  are fixed.  The disk image is part of the initial state; \<open>disk_size\<close> is its length, or
  none when it cannot be opened.
\<close>

record host =
  allocator :: "nat \<Rightarrow> bool"
  binary :: "u8 list option"
  dtb_file :: "u8 list option"
  initramfs_file :: "u8 list option"
  disk_size :: "nat option"

definition boot :: "host \<Rightarrow> string \<Rightarrow> machine \<Rightarrow> stop + bool \<times> machine" where
  "boot w mode m =
     (if mode = ''linux'' then linux_boot (allocator w) (binary w) (dtb_file w) (initramfs_file w) m
      else if mode = ''elf'' then elf_boot (allocator w) (binary w) m
      else if mode = ''kernel'' then kernel_boot (allocator w) (binary w) m
      else Inr (False, m))"

definition add_ram :: "(nat \<Rightarrow> bool) \<Rightarrow> machine \<Rightarrow> machine" where
  "add_ram alloc m = m\<lparr>m_mem := snd (mem_add_region (alloc (unat RAM_SIZE)) (m_mem m) RAM_BASE RAM_SIZE)\<rparr>"

definition main_init :: "host \<Rightarrow> machine \<Rightarrow> machine" where
  "main_init w m =
     (let m = add_ram (allocator w) m;
          m = uart_init m;
          m = plic_init m;
          m = virtio_blk_init m (disk_size w);
          m = clint_init m
      in set_cpu m (cpu_init (m_cpu m)))"

text \<open>The statics at program start: zero except where the code gives an initial value.\<close>

definition static_machine :: "console \<Rightarrow> (nat \<Rightarrow> u8) \<Rightarrow> io_answer list \<Rightarrow> machine" where
  "static_machine con disk answers =
     \<lparr>m_cpu = cpu_zero, m_mem = [], m_clint = g_clint, m_plic = s_plic,
      m_uart = \<lparr>lcr = 0, ier = 0, mcr = 0, scr = 0, dll = 0, dlh = 0, rx_buf = 0, rx_ready = False, thre_ip = False\<rparr>,
      m_con = con,
      m_slots = (\<lambda>_. \<lparr>dev = BlockDevice, vq = empty_queue, status = 0, device_features_sel = 0,
         driver_features_sel = 0, queue_sel = 0, interrupt_status = 0, slot_irq = 0\<rparr>),
      m_slot_count = 0,
      m_blk = \<lparr>disk_bytes = disk, disk_length = 0, disk_answers = answers, disk_capacity = 0\<rparr>,
      m_reservation = NO_RESERVATION, m_sources = []\<rparr>"

text \<open>
  \<open>argv\<close> is the command line without the program's name.  Too few arguments and a failed boot
  end the program with status 1; \<open>n\<close> bounds the iterations of the loop, \<open>k\<close> the loops and the
  nesting inside one step.
\<close>

definition emulator :: "fpu \<Rightarrow> nat \<Rightarrow> nat \<Rightarrow> host \<Rightarrow> string list \<Rightarrow> machine \<Rightarrow> stop + machine" where
  "emulator h k n w argv m =
     (case argv of
        mode # _ # _ \<Rightarrow>
          andThen (boot w mode (main_init w m)) (\<lambda>(ok, m). if ok then run h k n m else Inl (Exit 1))
      | _ \<Rightarrow> Inl (Exit 1))"

end
