(* ===== verification/Loader.thy ===== *)
theory Loader
  imports Boot
begin

text \<open>
  What the loader and the boot modes guarantee.  The program headers of a file are parsed into
  a list of segments by \<open>elf_headers\<close>, independently of the memory; the loader is shown to place
  exactly these.
\<close>

section \<open>The segments a file describes\<close>

record segment =
  seg_vaddr :: u64
  seg_paddr :: u64
  seg_bytes :: "u8 list"
  seg_mem :: u64

definition elf_header_at :: "u8 list \<Rightarrow> nat \<Rightarrow> stop + segment option" where
  "elf_header_at data i =
     andThen (ph_at data i) (\<lambda>ph.
     andThen (ph_type data ph) (\<lambda>t.
       if t \<noteq> ELF_PT_LOAD then Inr None
       else
         andThen (ph_offset data ph) (\<lambda>off.
         andThen (ph_vaddr data ph) (\<lambda>v.
         andThen (ph_paddr data ph) (\<lambda>p.
         andThen (ph_file_size data ph) (\<lambda>fs.
         andThen (ph_mem_size data ph) (\<lambda>ms.
         andThen (file_slice data (unat off) (unat fs)) (\<lambda>bs.
           Inr (Some \<lparr>seg_vaddr = v, seg_paddr = p, seg_bytes = bs, seg_mem = ms\<rparr>)))))))))"

primrec elf_headers :: "u8 list \<Rightarrow> nat list \<Rightarrow> stop + segment list" where
  "elf_headers data [] = Inr []"
| "elf_headers data (i # is) =
     andThen (elf_header_at data i) (\<lambda>s.
     andThen (elf_headers data is) (\<lambda>ss. Inr (case s of None \<Rightarrow> ss | Some s \<Rightarrow> s # ss)))"

text \<open>The contents of a segment in memory: its bytes in the file, then zeros.\<close>

definition seg_image :: "segment \<Rightarrow> u8 list" where
  "seg_image s = seg_bytes s @ replicate (unat (seg_mem s) - length (seg_bytes s)) 0"

definition seg_shift :: "segment list \<Rightarrow> u64" where
  "seg_shift ss = (case ss of [] \<Rightarrow> 0 | s # _ \<Rightarrow> seg_vaddr s - seg_paddr s)"

definition seg_apart :: "segment \<Rightarrow> segment \<Rightarrow> bool" where
  "seg_apart s t \<longleftrightarrow> apart (seg_paddr s) (length (seg_image s)) (seg_paddr t) (length (seg_image t))"

definition seg_in :: "memory \<Rightarrow> nat \<Rightarrow> u64 \<Rightarrow> segment \<Rightarrow> bool" where
  "seg_in mem r phys s \<longleftrightarrow> dma_at mem (seg_paddr s + phys) (length (seg_image s)) r"

section \<open>One segment\<close>

lemma file_slice_length: "file_slice data off n = Inr bs \<Longrightarrow> length bs = n"
  by (auto simp: file_slice_def split: if_splits)

lemma dma_find_prefix:
  assumes "dma_at mem a n i" "0 < k" "k \<le> n"
  shows "mem_find_region mem a (of_nat k) = Inr i"
  by (rule dma_find [OF dma_prefix [OF assms(1,3)] assms(2)])

lemma elf_copy_dma:
  assumes "ph_offset data ph = Inr off" "file_slice data (unat off) (unat fs) = Inr bs" "dma_at mem a (length bs) i"
  shows "elf_copy data ph a fs mem = Inr (dma_store mem i a bs)"
proof (cases "0 < fs")
  case True
  then have len: "length bs = unat fs" "0 < unat fs" using file_slice_length [OF assms(2)] by (simp_all add: unat_gt_0)
  then have "mem_find_region mem a fs = Inr i" using dma_find [OF assms(3)] by simp
  moreover have "mem_write_buf mem a bs = Inr (dma_store mem i a bs)"
    using len by (intro mem_write_buf_dma [OF assms(3)]) auto
  ultimately show ?thesis using True assms by (simp add: elf_copy_def)
next
  case False
  then have "fs = 0" by (simp add: word_gt_0)
  then have "bs = []" using file_slice_length [OF assms(2)] by simp
  then show ?thesis using False assms(3) by (simp add: elf_copy_def dma_store_Nil)
qed

lemma elf_zero_dma:
  assumes "dma_at mem (a + fs) (unat ms - unat fs) i" "alloc (unat ms - unat fs)"
  shows "elf_zero alloc a fs ms mem = Inr (dma_store mem i (a + fs) (replicate (unat ms - unat fs) 0))"
proof (cases "fs < ms")
  case True
  then have u: "unat (ms - fs) = unat ms - unat fs" "0 < unat ms - unat fs"
    by (simp_all add: word_less_nat_alt unat_sub word_le_nat_alt)
  then have w: "(of_nat (unat ms - unat fs) :: u64) = ms - fs" unfolding u(1) [symmetric] by simp
  have "mem_find_region mem (a + fs) (ms - fs) = Inr i"
    using dma_find [OF assms(1) u(2)] by (simp add: w)
  moreover have "mem_write_buf mem (a + fs) (replicate (unat ms - unat fs) 0)
      = Inr (dma_store mem i (a + fs) (replicate (unat ms - unat fs) 0))"
    using u assms(1) by (intro mem_write_buf_dma) auto
  ultimately show ?thesis using True assms(2) u by (simp add: elf_zero_def Let_def)
next
  case False
  then have "unat ms - unat fs = 0" by (simp add: word_less_nat_alt)
  then show ?thesis using False assms(1) by (simp add: elf_zero_def dma_store_Nil)
qed

lemma elf_segment_load:
  assumes "elf_header_at data i = Inr (Some s)" "seg_in mem r phys s" "alloc (unat (seg_mem s) - length (seg_bytes s))"
  shows "elf_segment alloc data phys i mem = Inr (dma_store mem r (seg_paddr s + phys) (seg_image s))"
proof -
  from assms(1) obtain ph t off fs where f: "ph_at data i = Inr ph" "ph_type data ph = Inr t" "t = ELF_PT_LOAD"
      "ph_offset data ph = Inr off" "ph_paddr data ph = Inr (seg_paddr s)" "ph_file_size data ph = Inr fs"
      "ph_mem_size data ph = Inr (seg_mem s)" "file_slice data (unat off) (unat fs) = Inr (seg_bytes s)"
    by (auto simp: elf_header_at_def andThen_Inr_iff split: if_splits)
  let ?a = "seg_paddr s + phys"
  let ?k = "length (seg_bytes s)"
  have fs: "unat fs = ?k" "of_nat ?k = fs" using file_slice_length [OF f(8)] by simp_all
  have at: "dma_at mem ?a (length (seg_image s)) r" using assms(2) by (simp add: seg_in_def)
  have len: "length (seg_image s) = ?k + (unat (seg_mem s) - ?k)" by (simp add: seg_image_def)
  have pre: "dma_at mem ?a ?k r" by (rule dma_prefix [OF at]) (simp add: len)
  have suf: "dma_at mem (?a + of_nat ?k) (unat (seg_mem s) - ?k) r"
    using dma_suffix [OF at, of ?k] by (simp add: len)
  have "elf_zero alloc ?a fs (seg_mem s) (dma_store mem r ?a (seg_bytes s)) =
      Inr (dma_store (dma_store mem r ?a (seg_bytes s)) r (?a + fs) (replicate (unat (seg_mem s) - unat fs) 0))"
    using suf pre assms(3) fs by (intro elf_zero_dma) simp_all
  moreover have "r < length mem" using at by (simp add: dma_at_def)
  then have "dma_store (dma_store mem r ?a (seg_bytes s)) r (?a + fs) (replicate (unat (seg_mem s) - unat fs) 0) =
      dma_store mem r ?a (seg_image s)"
    using fs by (simp add: seg_image_def dma_store_append)
  ultimately show ?thesis
    using f elf_copy_dma [OF f(4,8) pre] by (simp add: elf_segment_def)
qed

lemma elf_segment_skip:
  "elf_header_at data i = Inr None \<Longrightarrow> elf_segment alloc data phys i mem = Inr mem"
  by (auto simp: elf_header_at_def elf_segment_def andThen_Inr_iff split: if_splits)

section \<open>All segments\<close>

definition place :: "nat \<Rightarrow> u64 \<Rightarrow> segment list \<Rightarrow> memory \<Rightarrow> memory" where
  "place r phys ss mem = foldl (\<lambda>mem s. dma_store mem r (seg_paddr s + phys) (seg_image s)) mem ss"

lemma place_simps [simp]:
  "place r phys [] mem = mem"
  "place r phys (s # ss) mem = place r phys ss (dma_store mem r (seg_paddr s + phys) (seg_image s))"
  by (simp_all add: place_def)

lemma elf_segments_place:
  assumes "elf_headers data is = Inr ss" "\<forall>s \<in> set ss. seg_in mem r phys s" "\<And>n. alloc n"
  shows "elf_segments alloc data phys is mem = Inr (place r phys ss mem)"
  using assms
proof (induction "is" arbitrary: ss mem)
  case (Cons i "is")
  then obtain so ss' where h: "elf_header_at data i = Inr so" "elf_headers data is = Inr ss'"
      "ss = (case so of None \<Rightarrow> ss' | Some s \<Rightarrow> s # ss')"
    by (auto simp: andThen_Inr_iff)
  show ?case
  proof (cases so)
    case None
    then show ?thesis using Cons h by (simp add: elf_segment_skip)
  next
    case (Some s)
    let ?mem = "dma_store mem r (seg_paddr s + phys) (seg_image s)"
    have s: "seg_in mem r phys s" and rest: "\<forall>t \<in> set ss'. seg_in mem r phys t"
      using Cons.prems(2) h(3) Some by simp_all
    then have "\<forall>t \<in> set ss'. seg_in ?mem r phys t" by (simp add: seg_in_def)
    from Cons.IH [OF h(2) this Cons.prems(3)] show ?thesis
      using elf_segment_load [OF h(1) [unfolded Some] s] Cons.prems(3) h(3) Some by simp
  qed
qed simp

lemma elf_virt_shift_headers: "elf_headers data is = Inr ss \<Longrightarrow> elf_virt_shift data is = Inr (seg_shift ss)"
proof (induction "is" arbitrary: ss)
  case (Cons i "is")
  then obtain so ss' where h: "elf_header_at data i = Inr so" "elf_headers data is = Inr ss'"
      "ss = (case so of None \<Rightarrow> ss' | Some s \<Rightarrow> s # ss')"
    by (auto simp: andThen_Inr_iff)
  from h(1) Cons.IH [OF h(2)] h(3) show ?case
    by (auto simp: elf_header_at_def andThen_Inr_iff seg_shift_def split: if_splits)
qed (simp add: seg_shift_def)

section \<open>What the placed segments hold\<close>

lemma apart_shift: "apart (a + c) n (b + c) k = apart a n b k"
  by (simp add: apart_def)

lemma dma_load_store_apart:
  assumes "dma_at mem a (length bs) i" "apart a (length bs) b n"
  shows "dma_load (dma_store mem i a bs) i b n = dma_load mem i b n"
proof -
  have "store_bytes d (a - base (mem ! i)) bs (b - base (mem ! i) + of_nat j) = d (b - base (mem ! i) + of_nat j)"
    if "j < n" for j d
    using apart_bytes [OF assms(2) that] by (intro store_bytes_other) (simp add: algebra_simps)
  then show ?thesis
    using assms(1) by (auto simp: dma_load_def dma_store_def dma_at_def intro!: load_bytes_cong)
qed

lemma seg_in_store [simp]:
  "seg_in mem r phys s \<Longrightarrow> seg_in (dma_store mem r (seg_paddr s + phys) (seg_image s)) r phys t = seg_in mem r phys t"
  by (simp add: seg_in_def)

lemma place_apart:
  assumes "\<forall>s \<in> set ss. seg_in mem r phys s \<and> apart (seg_paddr s + phys) (length (seg_image s)) b n"
  shows "dma_load (place r phys ss mem) r b n = dma_load mem r b n"
  using assms
proof (induction ss arbitrary: mem)
  case (Cons s ss)
  then have s: "dma_at mem (seg_paddr s + phys) (length (seg_image s)) r" by (simp add: seg_in_def)
  from Cons show ?case
    using dma_load_store_apart [OF s] by simp
qed simp

lemma place_holds:
  assumes "\<forall>s \<in> set ss. seg_in mem r phys s" "sorted_wrt seg_apart ss" "s \<in> set ss"
  shows "dma_load (place r phys ss mem) r (seg_paddr s + phys) (length (seg_image s)) = seg_image s"
  using assms
proof (induction ss arbitrary: mem)
  case (Cons t ss)
  let ?mem = "dma_store mem r (seg_paddr t + phys) (seg_image t)"
  have t: "seg_in mem r phys t" and rest: "\<forall>u \<in> set ss. seg_in ?mem r phys u"
    using Cons.prems(1) by simp_all
  show ?case
  proof (cases "s = t \<and> s \<notin> set ss")
    case True
    have "\<forall>u \<in> set ss. apart (seg_paddr u + phys) (length (seg_image u)) (seg_paddr t + phys) (length (seg_image t))"
      using Cons.prems(2) by (auto simp: seg_apart_def apart_shift) (auto simp: apart_def)
    with rest have "dma_load (place r phys ss ?mem) r (seg_paddr t + phys) (length (seg_image t)) =
        dma_load ?mem r (seg_paddr t + phys) (length (seg_image t))"
      by (intro place_apart) blast
    then show ?thesis using True t dma_load_store by (simp add: seg_in_def)
  next
    case False
    then have "s \<in> set ss" using Cons.prems(3) by auto
    with Cons.IH [OF rest] Cons.prems(2) show ?thesis by simp
  qed
qed simp

text \<open>The regions and their shapes stay, and only region \<open>r\<close> has other contents.\<close>

lemma place_frame:
  assumes "\<forall>s \<in> set ss. seg_in mem r phys s"
  shows "map region_shape (place r phys ss mem) = map region_shape mem \<and>
    (\<forall>j. j \<noteq> r \<longrightarrow> place r phys ss mem ! j = mem ! j)"
  using assms
proof (induction ss arbitrary: mem)
  case (Cons s ss)
  let ?mem = "dma_store mem r (seg_paddr s + phys) (seg_image s)"
  have "\<exists>d. rdata (mem ! r) = Some d" "r < length mem"
    using Cons.prems by (auto simp: seg_in_def dma_at_def)
  then have "map region_shape ?mem = map region_shape mem"
    by (auto simp: dma_store_def map_update region_shape_def list_update_same_conv)
  moreover have "?mem ! j = mem ! j" if "j \<noteq> r" for j using that by (simp add: dma_store_def)
  ultimately show ?case using Cons by simp
qed simp

section \<open>Properties\<close>

text \<open>C16: The loader places every segment. For a RISC-V ELF file whose LOAD segments lie in one RAM
  region without overlapping, loading returns the physical entry point; afterwards every segment's
  range holds its bytes of the file followed by zeros, every range of that region apart from the
  segments holds what it held before, every other region is the same, and the memory map (the
  number, addresses, sizes and handlers of the regions) is unchanged.\<close>

theorem elf_load_places_segments:
  assumes "elf_accepts data = Inr True" and "eh_ph_num data = Inr num" and "eh_entry data = Inr entry"
    and "elf_headers data [0..<unat num] = Inr ss"
    and "\<forall>s \<in> set ss. seg_in mem r phys s" and "sorted_wrt seg_apart ss" and "\<And>n. alloc n"
  shows "\<exists>mem'. elf_load alloc mem (Some data) phys = Inr (entry - seg_shift ss + phys, mem') \<and>
     (\<forall>s \<in> set ss. dma_load mem' r (seg_paddr s + phys) (length (seg_image s)) = seg_image s) \<and>
     (\<forall>b n. (\<forall>s \<in> set ss. apart (seg_paddr s + phys) (length (seg_image s)) b n) \<longrightarrow>
        dma_load mem' r b n = dma_load mem r b n) \<and>
     (\<forall>j. j \<noteq> r \<longrightarrow> mem' ! j = mem ! j) \<and> map region_shape mem' = map region_shape mem"
proof (intro exI conjI)
  show "elf_load alloc mem (Some data) phys = Inr (entry - seg_shift ss + phys, place r phys ss mem)"
    using assms(1-3) elf_segments_place [OF assms(4,5,7)] elf_virt_shift_headers [OF assms(4)]
    by (simp add: elf_load_def assms(7) [of "length data"] del: upt_Suc)
qed (use place_holds [OF assms(5,6)] place_apart [where ss = ss and mem = mem and r = r and phys = phys]
    place_frame [OF assms(5)] assms(5) in blast)+

text \<open>A file of one segment: sixteen bytes of memory at the start of RAM, four of them in the file.\<close>

definition tiny_elf :: "u8 list" where
  "tiny_elf =
     [0x7F, 0x45, 0x4C, 0x46, 2, 1, 1, 0, 0, 0, 0, 0, 0, 0, 0, 0, 2, 0, 243, 0, 1, 0, 0, 0,
      0, 0, 0, 0x80, 0, 0, 0, 0, 64, 0, 0, 0, 0, 0, 0, 0, 0, 0, 0, 0, 0, 0, 0, 0,
      0, 0, 0, 0, 64, 0, 56, 0, 1, 0, 0, 0, 0, 0, 0, 0,
      1, 0, 0, 0, 5, 0, 0, 0, 120, 0, 0, 0, 0, 0, 0, 0, 0, 0, 0, 0x80, 0, 0, 0, 0,
      0, 0, 0, 0x80, 0, 0, 0, 0, 4, 0, 0, 0, 0, 0, 0, 0, 16, 0, 0, 0, 0, 0, 0, 0, 0, 16, 0, 0, 0, 0, 0, 0,
      0x13, 0x05, 0xA0, 0x02]"

definition tiny_segment :: segment where
  "tiny_segment = \<lparr>seg_vaddr = 0x80000000, seg_paddr = 0x80000000, seg_bytes = [0x13, 0x05, 0xA0, 0x02], seg_mem = 16\<rparr>"

lemmas eh_defs = eh_ident_def eh_machine_def eh_entry_def eh_ph_off_def eh_ph_ent_size_def eh_ph_num_def file_read_def
  ph_type_def ph_offset_def ph_vaddr_def ph_paddr_def ph_file_size_def ph_mem_size_def ph_at_def

lemma tiny_elf_headers:
  "elf_accepts tiny_elf = Inr True" "eh_ph_num tiny_elf = Inr 1" "eh_entry tiny_elf = Inr 0x80000000"
  "elf_headers tiny_elf [0..<1] = Inr [tiny_segment]"
  by (simp_all add: elf_accepts_def eh_defs file_slice_def tiny_elf_def elf_header_at_def tiny_segment_def)

lemma tiny_segment_image: "seg_image tiny_segment = [0x13, 0x05, 0xA0, 0x02] @ replicate 12 0"
  by (simp add: seg_image_def tiny_segment_def)

lemma tiny_segment_in: "seg_in [ram_256M] 0 0 tiny_segment"
  by (simp add: seg_in_def tiny_segment_image) (simp add: tiny_segment_def dma_at_def ram_256M_def region_fits_def)

theorem elf_load_places_segments_witness:
  "\<exists>mem'. elf_load (\<lambda>_. True) [ram_256M] (Some tiny_elf) 0 = Inr (0x80000000, mem') \<and>
     dma_load mem' 0 0x80000000 16 = [0x13, 0x05, 0xA0, 0x02] @ replicate 12 0 \<and>
     dma_load mem' 0 0x80000010 8 = replicate 8 0 \<and> map region_shape mem' = map region_shape [ram_256M]"
proof -
  have apart: "apart (seg_paddr tiny_segment + 0) (length (seg_image tiny_segment)) 0x80000010 8"
    by (simp add: tiny_segment_image) (simp add: apart_def tiny_segment_def)
  have zero: "dma_load [ram_256M] 0 0x80000010 8 = replicate 8 0"
    by (simp add: dma_load_def ram_256M_def eval_nat_numeral)
  have "\<forall>s \<in> set [tiny_segment]. seg_in [ram_256M] 0 0 s" "sorted_wrt seg_apart [tiny_segment]"
    by (simp_all add: tiny_segment_in)
  from elf_load_places_segments [OF tiny_elf_headers(1,2,3) _ this, where alloc = "\<lambda>_. True"]
  obtain mem' where m: "elf_load (\<lambda>_. True) [ram_256M] (Some tiny_elf) 0 = Inr (0x80000000 - seg_shift [tiny_segment] + 0, mem')"
      "dma_load mem' 0 (seg_paddr tiny_segment + 0) (length (seg_image tiny_segment)) = seg_image tiny_segment"
      "\<forall>b n. apart (seg_paddr tiny_segment + 0) (length (seg_image tiny_segment)) b n \<longrightarrow>
         dma_load mem' 0 b n = dma_load [ram_256M] 0 b n" "map region_shape mem' = map region_shape [ram_256M]"
    using tiny_elf_headers(4) by auto
  from m(3) apart zero have "dma_load mem' 0 0x80000010 8 = replicate 8 0" by simp
  with m(1,2,4) show ?thesis
    by (intro exI [of _ mem']) (simp add: tiny_segment_image, simp add: tiny_segment_def seg_shift_def)
qed

end
