(* ===== verification/Startup.thy ===== *)
theory Startup
  imports Loader
begin

text \<open>
  The machine that main assembles, and what every later state inherits from it: the boot modes
  keep the invariant of the processor and the memory map, whatever the files hold.
\<close>

section \<open>The machine main assembles\<close>

definition boot_map :: "(u64 \<times> u64 \<times> bool \<times> handler) list" where
  "boot_map =
     [(0x80000000, 0x10000000, True, DefaultHandler), (0x10000000, 8, False, UartHandler),
      (0x0C000000, 0x04000000, False, PlicHandler), (0x10001000, 0x1000, False, VirtioHandler 0),
      (0x02000000, 0x10000, False, ClintHandler)]"

lemmas init_defs = main_init_def add_ram_def uart_init_def plic_init_def clint_init_def add_device_def cpu_add_irq_source_def
  virtio_blk_init_def virtio_init_def mem_add_region_def mem_add_device_def add_region_def static_machine_def

lemma main_init_map:
  assumes "allocator w (256 * 1024 * 1024)" "disk_size w = Some d"
  shows "layout (main_init w (static_machine con disk ans)) = boot_map"
    "m_sources (main_init w (static_machine con disk ans)) = [UartSource, ClintSource]"
    "m_cpu (main_init w (static_machine con disk ans)) = cpu_init cpu_zero"
  using assms
  by (simp_all add: init_defs Let_def layout_def boot_map_def region_shape_def upd_slot_def set_cpu_def)

lemma layout_ok_layout:
  "layout_ok m \<longleftrightarrow> (\<forall>(b, sz, backed, h) \<in> set (layout m). unat b + unat sz < 2 ^ 64 \<and>
     (h = DefaultHandler \<longrightarrow> backed) \<and> (h = PlicHandler \<longrightarrow> unat sz \<le> 0x04000000))"
  by (auto simp: layout_ok_def layout_def region_shape_def region_fits_def word_le_nat_alt)

lemma boot_map_ok: "layout m = boot_map \<Longrightarrow> layout_ok m"
  by (simp add: layout_ok_layout boot_map_def)

lemma cpu_init_ok: "cpu_ok (cpu_init cpu_zero)" "steps (cpu_init cpu_zero) = 0"
  by (simp_all add: cpu_ok_def cpu_init_def cpu_zero_def Let_def set_csr_def satp_legal_def)

section \<open>Booting keeps the invariant\<close>

definition same_shape :: "memory \<Rightarrow> memory \<Rightarrow> bool" where
  "same_shape mem mem' \<longleftrightarrow> map region_shape mem' = map region_shape mem"

interpretation sh: state_relation same_shape
  by unfold_locales (auto simp: same_shape_def)

lemma mem_write_buf_same: "moves same_shape mem (mem_write_buf mem a bs)"
  using mem_write_buf_shape [of mem a bs] by (simp add: moves_def same_shape_def [abs_def])

lemma elf_copy_same: "moves same_shape mem (elf_copy data ph a fs mem)"
  by (auto simp: elf_copy_def sh.refl intro!: sh.moves_pure mem_write_buf_same)

lemma elf_zero_same: "moves same_shape mem (elf_zero alloc a fs ms mem)"
  by (auto simp: elf_zero_def Let_def sh.refl intro!: sh.moves_pure mem_write_buf_same)

lemma elf_segment_same: "moves same_shape mem (elf_segment alloc data phys i mem)"
proof -
  have rest: "moves same_shape mem (andThen (elf_copy data ph a fs mem)
      (\<lambda>mem. andThen (ph_mem_size data ph) (\<lambda>ms. elf_zero alloc a fs ms mem)))" for ph a fs
    by (rule sh.moves_bind [OF elf_copy_same]) (rule sh.moves_pure [OF elf_zero_same])
  show ?thesis
    unfolding elf_segment_def
    by (rule sh.moves_pure, rule sh.moves_pure, simp add: sh.refl, rule impI, rule sh.moves_pure, rule sh.moves_pure, rule rest)
qed

lemma elf_segments_same: "moves same_shape mem (elf_segments alloc data phys is mem)"
  by (induction "is" arbitrary: mem) (auto simp: sh.refl intro!: sh.moves_bind elf_segment_same)

lemma elf_load_same: "gives same_shape mem (elf_load alloc mem file phys)"
proof -
  have "gives same_shape mem (andThen (elf_segments alloc data phys is mem)
      (\<lambda>mem. andThen (eh_entry data) (\<lambda>e. Inr (e - v + phys, mem))))" for data "is" v
    by (rule sh.moves_gives [OF elf_segments_same]) (rule sh.gives_pure, simp add: sh.refl)
  note tail = this
  show ?thesis
  proof (cases "file")
    case (Some data)
    show ?thesis
      unfolding elf_load_def Some option.case
      by (simp add: sh.refl, rule impI, rule sh.gives_pure, simp add: sh.refl, rule impI,
          rule sh.gives_pure, rule sh.gives_pure, rule tail)
  qed (simp add: elf_load_def sh.refl)
qed

lemma mem_load_file_same: "gives same_shape mem (mem_load_file mem file a)"
  using moves_elim [OF mem_write_buf_same]
  by (auto simp: mem_load_file_def sh.refl gives_def okR_iff andThen_Inr_iff split: option.splits)

text \<open>The loader and the file reads, as steps of the machine.\<close>

lemma keeps_mem: "same_shape (m_mem m) mem' \<Longrightarrow> keeps m (m\<lparr>m_mem := mem'\<rparr>)"
  by (simp add: keeps_def layout_def same_shape_def)

lemma elf_load_keeps: "elf_load alloc (m_mem m) file phys = Inr (e, mem') \<Longrightarrow> keeps m (m\<lparr>m_mem := mem'\<rparr>)"
  by (rule keeps_mem) (rule gives_elim [OF elf_load_same])

lemma mem_load_file_keeps: "mem_load_file (m_mem m) file a = Inr (ok, mem') \<Longrightarrow> keeps m (m\<lparr>m_mem := mem'\<rparr>)"
  by (rule keeps_mem) (rule gives_elim [OF mem_load_file_same])

lemma sbi_init_ok: "cpu_ok c \<Longrightarrow> cpu_ok (sbi_init (boot_args c a0 a1) e)" "steps (sbi_init (boot_args c a0 a1) e) = steps c"
  by (simp_all add: cpu_ok_def sbi_init_def boot_args_def set_csr_def satp_legal_def Let_def)

lemma keeps_sbi_init: "keeps m m' \<Longrightarrow> keeps m (set_cpu m' (sbi_init (boot_args (m_cpu m') a0 a1) e))"
  using sbi_init_ok by (auto simp: keeps_def set_cpu_def layout_def)

lemma keeps_pc: "keeps m m' \<Longrightarrow> keeps m (set_cpu m' ((m_cpu m')\<lparr>pc := e\<rparr>))"
  by (auto simp: keeps_def set_cpu_def layout_def cpu_ok_def satp_legal_def)

lemma boot_keeps:
  assumes "boot w mode m = Inr (ok, m')"
  shows "keeps m m'"
proof -
  have rd: "mem_read16 a e = Inr (x, b) \<Longrightarrow> keeps a b" for a b e x
    by (rule gives_elim [OF gives_keeps [OF mem_reads_steps(2)]])
  have linux: "keeps m m'" if boot: "linux_boot alloc v d i m = Inr (ok, m')" for alloc v d i
  proof -
    from boot obtain e mem1 where 1: "elf_load alloc (m_mem m) v 0x80000000 = Inr (e, mem1)"
      by (auto simp: linux_boot_def andThen_Inr_iff)
    note k1 = elf_load_keeps [OF 1]
    show ?thesis
    proof (cases "e = - 1")
      case True
      with boot 1 k1 show ?thesis by (simp add: linux_boot_def Let_def)
    next
      case False
      with boot 1 obtain x m2 where 2: "mem_read16 (m\<lparr>m_mem := mem1\<rparr>) e = Inr (x, m2)"
        by (auto simp: linux_boot_def Let_def andThen_Inr_iff)
      with boot 1 False obtain ok1 mem3 where 3: "mem_load_file (m_mem m2) d 0x82000000 = Inr (ok1, mem3)"
        by (auto simp: linux_boot_def Let_def andThen_Inr_iff)
      have k3: "keeps m (m2\<lparr>m_mem := mem3\<rparr>)"
        using kp.trans [OF k1 kp.trans [OF rd [OF 2] mem_load_file_keeps [OF 3]]] .
      show ?thesis
      proof (cases ok1)
        case False
        with boot 1 2 3 \<open>e \<noteq> - 1\<close> k3 show ?thesis by (simp add: linux_boot_def Let_def)
      next
        case True
        with boot 1 2 3 \<open>e \<noteq> - 1\<close> obtain ok2 mem4 where 4: "mem_load_file mem3 i 0x84000000 = Inr (ok2, mem4)"
          by (auto simp: linux_boot_def Let_def andThen_Inr_iff)
        have k4: "keeps m (m2\<lparr>m_mem := mem4\<rparr>)"
          using kp.trans [OF k3 mem_load_file_keeps [of "m2\<lparr>m_mem := mem3\<rparr>" i "0x84000000" ok2 mem4]] 4 by simp
        with boot 1 2 3 4 True \<open>e \<noteq> - 1\<close> show ?thesis
          using keeps_sbi_init [OF k4] by (auto simp: linux_boot_def Let_def split: if_splits)
      qed
    qed
  qed
  have kernel: "keeps m m'" if "kernel_boot alloc v m = Inr (ok, m')" for alloc v
    using that elf_load_keeps [of alloc m v 0] keeps_sbi_init [where m = m and m' = "m\<lparr>m_mem := b\<rparr>" for b]
    by (auto simp: kernel_boot_def andThen_Inr_iff Let_def split: if_splits)
  have elf: "keeps m m'" if "elf_boot alloc v m = Inr (ok, m')" for alloc v
    using that elf_load_keeps [of alloc m v 0] keeps_pc [where m = m and m' = "m\<lparr>m_mem := b\<rparr>" for b]
    by (auto simp: elf_boot_def andThen_Inr_iff Let_def split: if_splits)
  show ?thesis
    using assms linux kernel elf by (auto simp: boot_def split: if_splits)
qed

section \<open>Properties of the boot sequence\<close>

text \<open>C15: From the command line to every later state. Whenever the allocator grants the RAM, the
  disk opens and a boot mode succeeds, on whatever files, every state the main loop reaches has
  the memory map and interrupt sources that main assembled, x0 zero, a two-bit privilege (the
  reserved value 2 included, which mret reaches), satp bare or Sv39, and a time equal to the
  number of steps taken; and in none of them can a bus read that does not wrap leave the RAM
  block or the arrays of the interrupt controller, or do more harm than end the emulator with a
  diagnosis or the exit key.\<close>

theorem booted_machine:
  assumes "allocator w (256 * 1024 * 1024)" and "disk_size w = Some d"
    and "boot w mode (main_init w (static_machine con disk ans)) = Inr (True, m0)"
    and "reachable h k m0 n m"
  shows "layout m = boot_map \<and> m_sources m = [UartSource, ClintSource] \<and>
         regs (m_cpu m) 0 = 0 \<and> privilege (m_cpu m) \<le> 3 \<and> satp_legal (m_cpu m) \<and>
         steps (m_cpu m) = of_nat n \<and>
         (\<forall>a j. no_wrap a j \<longrightarrow> stops (\<lambda>e. e = Exit 1 \<or> e = Exit 0) (mem_read m a j))"
proof -
  have "keeps (main_init w (static_machine con disk ans)) m0" by (rule boot_keeps [OF assms(3)])
  then have m0: "layout m0 = boot_map" "m_sources m0 = [UartSource, ClintSource]" "cpu_ok (m_cpu m0)" "steps (m_cpu m0) = 0"
    by (simp_all add: keeps_def main_init_map [OF assms(1,2)] cpu_init_ok)
  from reachable_keeps [OF assms(4)] m0
  have m: "layout m = boot_map" "m_sources m = [UartSource, ClintSource]" "cpu_ok (m_cpu m)" "steps (m_cpu m) = of_nat n"
    by simp_all
  then show ?thesis using mem_read_stops [OF boot_map_ok] unfolding cpu_ok_def by blast
qed

definition tiny_host :: host where
  "tiny_host = \<lparr>allocator = (\<lambda>_. True), binary = Some tiny_elf, dtb_file = None, initramfs_file = None, disk_size = Some 0\<rparr>"

lemma tiny_boot:
  "\<exists>m0. boot tiny_host ''kernel'' (main_init tiny_host (static_machine con disk ans)) = Inr (True, m0) \<and> pc (m_cpu m0) = 0x80000000"
proof -
  let ?m = "main_init tiny_host (static_machine con disk ans)"
  have w: "allocator tiny_host (256 * 1024 * 1024)" "disk_size tiny_host = Some 0" by (simp_all add: tiny_host_def)
  have "seg_in (m_mem ?m) 0 0 tiny_segment"
    by (simp add: seg_in_def tiny_segment_image)
      (simp add: tiny_segment_def dma_at_def tiny_host_def init_defs Let_def upd_slot_def set_cpu_def region_fits_def)
  then have "elf_load (\<lambda>_. True) (m_mem ?m) (Some tiny_elf) 0
      = Inr (0x80000000 - seg_shift [tiny_segment] + 0, place 0 0 [tiny_segment] (m_mem ?m))"
    using elf_segments_place [of tiny_elf "[0..<1]" "[tiny_segment]" "m_mem ?m" 0 0 "\<lambda>_. True"] tiny_elf_headers
      elf_virt_shift_headers [of tiny_elf "[0..<1]" "[tiny_segment]"]
    by (simp add: elf_load_def)
  then show ?thesis
    by (simp add: boot_def kernel_boot_def tiny_segment_def seg_shift_def set_cpu_def)
      (simp add: tiny_host_def sbi_init_def Let_def)
qed

theorem booted_machine_witness:
  "\<exists>m0. layout m0 = boot_map \<and> privilege (m_cpu m0) \<le> 3 \<and> stops (\<lambda>e. e = Exit 1 \<or> e = Exit 0) (mem_read m0 0x80000000 4)"
proof -
  obtain m0 where m0: "boot tiny_host ''kernel'' (main_init tiny_host
      (static_machine \<lparr>stdin_answers = [], stdout_bytes = []\<rparr> (\<lambda>_. 0) [])) = Inr (True, m0)"
    using tiny_boot by blast
  have w: "allocator tiny_host (256 * 1024 * 1024)" "disk_size tiny_host = Some 0" by (simp_all add: tiny_host_def)
  from booted_machine [OF w m0 reachable.start] show ?thesis
    by (intro exI [of _ m0]) (simp add: no_wrap_def)
qed

lemma byte_pair:
  fixes b c :: u8
  shows "(ucast (ucast b OR push_bit 8 (ucast c) :: u64) :: u8) = b" "(ucast (drop_bit 8 (ucast b OR push_bit 8 (ucast c) :: u64)) :: u8) = c"
  by (rule bit_word_eqI; auto simp: bit_simps dest: bit_imp_le_length)+
lemma byte_eq: "(ucast (b :: u8) :: u64) = 2 \<Longrightarrow> b = 2" "(ucast (b :: u8) :: u64) = 1 \<Longrightarrow> b = 1"
  by (drule arg_cong [of _ _ "ucast :: u64 \<Rightarrow> u8"], simp)+
lemma byte_pair_243:
  assumes "(ucast b OR push_bit 8 (ucast c) :: u64) = 243"
  shows "b = (243 :: u8) \<and> c = (0 :: u8)"
  using byte_pair [of b c, unfolded assms] by simp

text \<open>
  The fields by which the loader recognises its files, and the lengths it needs to read them
  in its order: the magic, then the class, the byte order and the machine, each only when the
  ones before it are right.
\<close>

definition riscv_elf :: "u8 list \<Rightarrow> bool" where
  "riscv_elf data \<longleftrightarrow> 20 \<le> length data \<and> take 4 data = ELF_MAGIC \<and> data ! 4 = 2 \<and> data ! 5 = 1 \<and>
     data ! 18 = 243 \<and> data ! 19 = 0"

definition long_enough :: "u8 list \<Rightarrow> bool" where
  "long_enough data \<longleftrightarrow> 4 \<le> length data \<and>
     (take 4 data = ELF_MAGIC \<longrightarrow> 5 \<le> length data \<and>
       (data ! 4 = 2 \<longrightarrow> 6 \<le> length data \<and> (data ! 5 = 1 \<longrightarrow> 20 \<le> length data)))"

lemma elf_accepts_foreign:
  assumes "\<not> riscv_elf data"
  shows "elf_accepts data = (if long_enough data then Inr False else Inl (Undefined OutOfBounds))"
proof -
  have id: "eh_ident data i = (if i < length data then Inr (ucast (data ! i)) else Inl (Undefined OutOfBounds))" for i
    by (simp add: eh_ident_def file_read_def file_slice_def take_Suc hd_drop_conv_nth)
  have mach: "eh_machine data = (if 20 \<le> length data then Inr (ucast (data ! 18) OR push_bit 8 (ucast (data ! 19)))
      else Inl (Undefined OutOfBounds))"
    using nth_tl [of 18 data]
    by (simp add: eh_machine_def file_read_def file_slice_def numeral_2_eq_2 take_Suc hd_drop_conv_nth tl_drop)
  have b2: "(ucast (x :: u8) :: u64) = 2 \<longleftrightarrow> x = 2" and b1: "(ucast (x :: u8) :: u64) = 1 \<longleftrightarrow> x = 1" for x
    using byte_eq [of x] by auto
  define M where "M \<longleftrightarrow> take 4 data = ELF_MAGIC"
  have "elf_accepts data =
      (if \<not> 4 \<le> length data then Inl (Undefined OutOfBounds) else if \<not> M then Inr False
       else if \<not> 5 \<le> length data then Inl (Undefined OutOfBounds) else if data ! 4 \<noteq> 2 then Inr False
       else if \<not> 6 \<le> length data then Inl (Undefined OutOfBounds) else if data ! 5 \<noteq> 1 then Inr False
       else andThen (eh_machine data) (\<lambda>mach. Inr (mach = ELF_MACH_RISCV)))"
    by (simp add: elf_accepts_def file_slice_def id b1 b2 M_def less_eq_Suc_le)
  moreover have "andThen (eh_machine data) (\<lambda>mach. Inr (mach = ELF_MACH_RISCV)) =
      (if 20 \<le> length data then Inr (data ! 18 = 243 \<and> data ! 19 = 0) else Inl (Undefined OutOfBounds))"
    using byte_pair_243 [of "data ! 18" "data ! 19"] by (auto simp: mach)
  ultimately show ?thesis
    using assms by (simp add: long_enough_def riscv_elf_def flip: M_def)
qed

text \<open>C28: A file that is not a little-endian 64-bit RISC-V ELF file does not boot. If it is long
  enough for the fields that are read before it is recognised as foreign, every boot mode refuses
  it with the whole machine unchanged.  If it is not (shorter than the magic, or cut off after the
  right magic, class or byte order) and the allocator grants its buffer, each of the three modes
  reads past the buffer: the loader does not check the length.\<close>

theorem boot_refuses_foreign_files:
  assumes "binary w = Some data" and "\<not> riscv_elf data"
  shows "(long_enough data \<longrightarrow> boot w mode m = Inr (False, m)) \<and>
    (\<not> long_enough data \<and> allocator w (length data) \<and> mode \<in> {''linux'', ''elf'', ''kernel''} \<longrightarrow>
       boot w mode m = Inl (Undefined OutOfBounds))"
proof -
  note acc = elf_accepts_foreign [OF assms(2)]
  have "elf_load alloc (m_mem m) (Some data) phys = Inr (- 1, m_mem m)" if "long_enough data" for alloc phys
    using that by (simp add: elf_load_def acc)
  moreover have "elf_load alloc (m_mem m) (Some data) phys = Inl (Undefined OutOfBounds)"
    if "\<not> long_enough data" "alloc (length data)" for alloc phys
    using that by (simp add: elf_load_def acc)
  ultimately show ?thesis
    using assms(1) by (auto simp: boot_def linux_boot_def kernel_boot_def elf_boot_def)
qed

theorem boot_refuses_foreign_files_witness:
  "boot (tiny_host\<lparr>binary := Some (replicate 20 0)\<rparr>) ''kernel'' example_machine = Inr (False, example_machine) \<and>
   boot (tiny_host\<lparr>binary := Some [0x7F, 0x45]\<rparr>) ''kernel'' example_machine = Inl (Undefined OutOfBounds)"
proof -
  have "\<not> riscv_elf (replicate 20 0)" "long_enough (replicate 20 0)" "\<not> riscv_elf [0x7F, 0x45]" "\<not> long_enough [0x7F, 0x45]"
    "allocator (tiny_host\<lparr>binary := Some [0x7F, 0x45]\<rparr>) (length [0x7F, 0x45 :: u8])"
    by (simp_all add: riscv_elf_def long_enough_def tiny_host_def)
  then show ?thesis
    using boot_refuses_foreign_files [where w = "tiny_host\<lparr>binary := Some (replicate 20 0)\<rparr>" and mode = "''kernel''" and m = example_machine]
      boot_refuses_foreign_files [where w = "tiny_host\<lparr>binary := Some [0x7F, 0x45]\<rparr>" and mode = "''kernel''" and m = example_machine]
    by fastforce
qed

section \<open>The Linux boot protocol\<close>

lemma dma_at_shape: "same_shape mem mem' \<Longrightarrow> dma_at mem' a n i = dma_at mem a n i"
proof -
  assume s: "same_shape mem mem'"
  then have len: "length mem' = length mem" unfolding same_shape_def by (rule map_eq_imp_length_eq)
  have "region_shape (mem' ! j) = region_shape (mem ! j)" if "j < length mem" for j
    using arg_cong [OF s [unfolded same_shape_def], of "\<lambda>xs. xs ! j"] that len by simp
  then have "base (mem' ! j) = base (mem ! j)" "rsize (mem' ! j) = rsize (mem ! j)"
    "(\<exists>d. rdata (mem' ! j) = Some d) = (\<exists>d. rdata (mem ! j) = Some d)" if "j < length mem" for j
    using that by (auto simp: region_shape_def)
  then show ?thesis
    using len by (cases "i < length mem") (fastforce simp: dma_at_def region_fits_def)+
qed

lemma mem_load_file_dma:
  "dma_at mem a (length bs) r \<Longrightarrow> bs \<noteq> [] \<Longrightarrow> mem_load_file mem (Some bs) a = Inr (True, dma_store mem r a bs)"
  by (simp add: mem_load_file_def mem_write_buf_dma)

text \<open>C27: The Linux boot protocol. When the kernel image loads, a Linux boot leaves the hart in
  supervisor mode with a0 the hart number and a1 the address of the device tree, timer,
  software and external interrupts delegated and the environment call of supervisor mode not;
  execution starts at the entry point, past the two-byte "MZ" signature if there is one; and the
  device tree and the initial file system are in memory, provided the device tree does not reach
  the file system loaded after it.\<close>

theorem linux_boot_protocol:
  fixes m :: machine and mem :: memory
  defines "m1 \<equiv> m\<lparr>m_mem := mem\<rparr>"
  assumes "elf_load alloc (m_mem m) vmlinux 0x80000000 = Inr (entry, mem)" and "entry \<noteq> - 1" and "in_ram m1 entry 2"
    and "dma_at (m_mem m) 0x82000000 (length dtb) r" and "dma_at (m_mem m) 0x84000000 (length ramfs) r"
    and "dtb \<noteq> []" and "ramfs \<noteq> []" and "length dtb \<le> 0x2000000"
  shows "\<exists>m'. linux_boot alloc vmlinux (Some dtb) (Some ramfs) m = Inr (True, m') \<and>
     dma_load (m_mem m') r 0x82000000 (length dtb) = dtb \<and> dma_load (m_mem m') r 0x84000000 (length ramfs) = ramfs \<and>
     regs (m_cpu m') 10 = 0 \<and> regs (m_cpu m') 11 = 0x82000000 \<and> privilege (m_cpu m') = PRIV_S \<and>
     csrs (m_cpu m') CSR_MIDELEG = 0x222 \<and> \<not> bit (csrs (m_cpu m') CSR_MEDELEG) 9 \<and>
     pc (m_cpu m') = entry + (if (ucast (ram_value m1 entry 2) :: u16) = 0x5A4D then 2 else 0)"
proof -
  let ?mem2 = "dma_store mem r 0x82000000 dtb"
  let ?mem3 = "dma_store ?mem2 r 0x84000000 ramfs"
  let ?e = "if (ucast (ram_value m1 entry 2) :: u16) = 0x5A4D then entry + 2 else entry"
  have "same_shape (m_mem m) mem" by (rule gives_elim [OF elf_load_same assms(2)])
  then have at: "dma_at mem 0x82000000 (length dtb) r" "dma_at mem 0x84000000 (length ramfs) r"
    using assms(5,6) dma_at_shape by blast+
  have at2: "dma_at ?mem2 0x84000000 (length ramfs) r" "dma_at ?mem2 0x82000000 (length dtb) r"
    using at by simp_all
  have rd: "mem_read16 m1 entry = Inr (ucast (ram_value m1 entry 2), m1)"
    using mem_read_ram [OF assms(4)] by (simp add: mem_read16_def)
  have ap: "apart 0x84000000 (length ramfs) 0x82000000 (length dtb)"
    using dma_no_wrap [OF at(2)] assms(9) by (simp add: apart_def)
  have "linux_boot alloc vmlinux (Some dtb) (Some ramfs) m =
      Inr (True, set_cpu (m\<lparr>m_mem := ?mem3\<rparr>) (sbi_init (boot_args (m_cpu m) 0 0x82000000) ?e))"
    using assms(2,3) rd mem_load_file_dma [OF at(1) assms(7)] mem_load_file_dma [OF at2(1) assms(8)]
    by (simp add: linux_boot_def Let_def m1_def)
  moreover have "dma_load ?mem3 r 0x82000000 (length dtb) = dtb" "dma_load ?mem3 r 0x84000000 (length ramfs) = ramfs"
    using dma_load_store_apart [OF at2(1) ap] dma_load_store [OF at(1)] dma_load_store [OF at2(1)] by simp_all
  moreover have "\<not> bit sbi_medeleg 9" by code_simp
  ultimately show ?thesis
    by (simp add: set_cpu_def sbi_init_def boot_args_def set_csr_def Let_def)
qed

text \<open>An image with no segments whose entry point is the start of RAM.\<close>

definition stub_elf :: "u8 list" where
  "stub_elf = [0x7F, 0x45, 0x4C, 0x46, 2, 1] @ replicate 12 0 @ [243, 0] @ replicate 44 0"

lemma le_value_zeros [simp]: "le_value (replicate n 0) = 0"
  by (induction n) simp_all

lemma stub_elf_load: "elf_load (\<lambda>_. True) mem (Some stub_elf) 0x80000000 = Inr (0x80000000, mem)"
proof -
  have "elf_accepts stub_elf = Inr True" "eh_ph_num stub_elf = Inr 0" "eh_entry stub_elf = Inr 0"
    by (simp_all add: elf_accepts_def eh_defs file_slice_def stub_elf_def)
  then show ?thesis by (simp add: elf_load_def)
qed

theorem linux_boot_protocol_witness:
  "\<exists>m'. linux_boot (\<lambda>_. True) (Some stub_elf) (Some [1, 2]) (Some [3]) example_machine = Inr (True, m') \<and>
     dma_load (m_mem m') 0 0x82000000 2 = [1, 2] \<and> privilege (m_cpu m') = PRIV_S \<and> pc (m_cpu m') = 0x80000000"
proof -
  let ?m = "example_machine\<lparr>m_mem := m_mem example_machine\<rparr>"
  have at: "dma_at (m_mem example_machine) 0x82000000 (length [1, 2 :: u8]) 0" "dma_at (m_mem example_machine) 0x84000000 (length [3 :: u8]) 0"
    by (simp_all add: dma_at_def example_machine_def ram_256M_def region_fits_def)
  have "load_le (\<lambda>_. 0) a n = 0" for a n by (induction n arbitrary: a) simp_all
  then have ram: "in_ram ?m 0x80000000 2" "ram_value ?m 0x80000000 2 = 0"
    by (simp_all add: in_ram_def ram_at_def ram_value_def example_machine_def ram_256M_def mem_find_region_def)
  have ne: "(0x80000000 :: u64) \<noteq> - 1" by simp
  have "length [1, 2 :: u8] \<le> 0x2000000" by simp
  note p = linux_boot_protocol [OF stub_elf_load ne ram(1) at list.distinct(2) list.distinct(2) this]
  from p obtain m' where m': "linux_boot (\<lambda>_. True) (Some stub_elf) (Some [1, 2]) (Some [3]) example_machine = Inr (True, m')"
    "dma_load (m_mem m') 0 0x82000000 (length [1, 2 :: u8]) = [1, 2]" "privilege (m_cpu m') = PRIV_S"
    "pc (m_cpu m') = 0x80000000 + (if (ucast (ram_value ?m 0x80000000 2) :: u16) = 0x5A4D then 2 else 0)"
    by (elim exE conjE)
  have two: "length [1, 2 :: u8] = 2" by simp
  show ?thesis
    by (intro exI [of _ m'] conjI) (use m' [unfolded two] ram(2) in simp_all)
qed

end
