(* ===== verification/Fuel.thy ===== *)
theory Fuel
  imports Startup
begin

text \<open>
  The fuel of the model.  \<open>below x y\<close>: \<open>x\<close> ran out of fuel or \<open>y\<close> is the same outcome.  Every
  operation that reaches the notification of the block device is monotone in it, and the
  notification is monotone in its fuel; so an outcome other than \<open>OutOfFuel\<close> is the outcome for
  every larger fuel, and the theorems of the development that speak of a returned state do not
  depend on the fuel chosen.
\<close>

section \<open>The order of outcomes\<close>

definition below :: "stop + 'a \<Rightarrow> stop + 'a \<Rightarrow> bool" where
  "below x y \<longleftrightarrow> x = Inl OutOfFuel \<or> x = y"

lemma below_refl [simp, intro]: "below x x"
  by (simp add: below_def)

lemma below_out [simp]: "below (Inl OutOfFuel) y"
  by (simp add: below_def)

lemma below_trans: "below x y \<Longrightarrow> below y z \<Longrightarrow> below x z"
  by (auto simp: below_def)

lemma below_bind:
  assumes "below x y" "\<And>a. below (f a) (g a)"
  shows "below (andThen x f) (andThen y g)"
proof (cases x)
  case (Inr a)
  then show ?thesis using assms(1) assms(2) [of a] by (auto simp: below_def)
qed (use assms(1) in \<open>auto simp: below_def\<close>)

lemma below_same: "(\<And>a. below (f a) (g a)) \<Longrightarrow> below (andThen x f) (andThen x g)"
  by (rule below_bind) simp_all

lemma below_If: "(c \<Longrightarrow> below x y) \<Longrightarrow> (\<not> c \<Longrightarrow> below x' y') \<Longrightarrow> below (if c then x else x') (if c then y else y')"
  by simp

section \<open>Operations that may notify\<close>

locale notify_below =
  fixes n n' :: notify_fn
  assumes notify: "below (n i m) (n' i m)"
begin

lemma region_write: "below (region_write n m i off v w) (region_write n' m i off v w)"
  using notify by (auto simp: region_write_def virtio_write_def Let_def split: handler.split)

lemma mem_write: "below (mem_write n m a v w) (mem_write n' m a v w)"
  unfolding mem_write_def by (rule below_same) (rule region_write)

lemma mem_write8: "below (mem_write8 n m a v) (mem_write8 n' m a v)"
  and mem_write16: "below (mem_write16 n m a v16) (mem_write16 n' m a v16)"
  and mem_write32: "below (mem_write32 n m a v32) (mem_write32 n' m a v32)"
  and mem_write64: "below (mem_write64 n m a v64) (mem_write64 n' m a v64)"
  by (simp_all add: mem_write8_def mem_write16_def mem_write32_def mem_write64_def mem_write)

lemma vq_ring_post: "below (vq_ring_post n m i ident len) (vq_ring_post n' m i ident len)"
  by (auto simp: vq_ring_post_def Let_def intro!: below_same below_bind [OF mem_write32] mem_write16)

lemma mmu_translate: "below (mmu_translate n m va acc) (mmu_translate n' m va acc)"
  by (auto simp: mmu_translate_def Let_def intro!: below_same below_bind [OF mem_write64] split: option.split)

lemma vm_read: "below (vm_read n rd m va) (vm_read n' rd m va)"
  by (auto simp: vm_read_def intro!: below_bind [OF mmu_translate])

lemma vm_write: "(\<And>m a v. below (wr m a v) (wr' m a v)) \<Longrightarrow> below (vm_write n wr m va v) (vm_write n' wr' m va v)"
  by (auto simp: vm_write_def intro!: below_bind [OF mmu_translate] below_bind)

lemma vm_reads:
  "below (vm_read8 n m va) (vm_read8 n' m va)" "below (vm_read16 n m va) (vm_read16 n' m va)"
  "below (vm_read32 n m va) (vm_read32 n' m va)" "below (vm_read64 n m va) (vm_read64 n' m va)"
  by (simp_all add: vm_read8_def vm_read16_def vm_read32_def vm_read64_def vm_read)

lemma vm_writes:
  "below (vm_write8 n m va v8) (vm_write8 n' m va v8)" "below (vm_write16 n m va v16) (vm_write16 n' m va v16)"
  "below (vm_write32 n m va v32) (vm_write32 n' m va v32)" "below (vm_write64 n m va v64) (vm_write64 n' m va v64)"
  by (simp_all add: vm_write8_def vm_write16_def vm_write32_def vm_write64_def vm_write mem_write8 mem_write16 mem_write32 mem_write64)

lemma execute_a: "below (execute_a n m i) (execute_a n' m i)"
  by (auto simp: execute_a_def execute_lr_def execute_sc_def execute_amo_def amo_write_def Let_def
      intro!: below_bind [OF mmu_translate] below_same below_bind mem_write32 mem_write64)

lemma finish_load: "below x y \<Longrightarrow> below (finish_load i put x) (finish_load i put y)"
  by (auto simp: finish_load_def intro!: below_bind)

lemma finish_store: "below x y \<Longrightarrow> below (finish_store i x) (finish_store i y)"
  by (auto simp: finish_store_def intro!: below_bind)

lemma execute_memory:
  "below (execute_load n m i) (execute_load n' m i)" "below (execute_store n m i) (execute_store n' m i)"
  "below (execute_fp_load n m i) (execute_fp_load n' m i)" "below (execute_fp_store n m i) (execute_fp_store n' m i)"
  by (auto simp: execute_load_def execute_store_def execute_fp_load_def execute_fp_store_def Let_def
      intro!: finish_load finish_store vm_reads vm_writes)

lemma execute: "below (execute h n m i) (execute h n' m i)"
  by (auto simp: execute_def Let_def intro!: execute_memory below_bind execute_a)

lemma fetch_execute: "below (fetch_execute h n m) (fetch_execute h n' m)"
  by (auto simp: fetch_execute_def intro!: below_bind [OF mmu_translate] below_same execute)

lemma cpu_step: "below (cpu_step h n m) (cpu_step h n' m)"
  by (auto simp: cpu_step_def intro!: below_same fetch_execute)

end

section \<open>The block device\<close>

lemma blk_do_read_below: "k \<le> k' \<Longrightarrow> below (blk_do_read k m offset dst len) (blk_do_read k' m offset dst len)"
proof (induction k arbitrary: k' m offset dst len)
  case 0
  then show ?case
    by (cases "len = 0") (simp_all add: blk_do_read.simps [of _ m offset dst len] blk_do_read.simps [of _ m offset dst 0])
next
  case (Suc k)
  from Suc.prems obtain j where "k' = Suc j" "k \<le> j" by (cases k') auto
  with Suc.IH [OF \<open>k \<le> j\<close>] show ?case
    by (auto simp: blk_do_read.simps [of _ m offset dst len] Let_def case_prod_unfold intro!: below_same split: option.split)
qed

lemma blk_do_write_below: "k \<le> k' \<Longrightarrow> below (blk_do_write k m offset src len) (blk_do_write k' m offset src len)"
proof (induction k arbitrary: k' m offset src len)
  case 0
  then show ?case
    by (cases "len = 0") (simp_all add: blk_do_write.simps [of _ m offset src len] blk_do_write.simps [of _ m offset src 0])
next
  case (Suc k)
  from Suc.prems obtain j where "k' = Suc j" "k \<le> j" by (cases k') auto
  with Suc.IH [OF \<open>k \<le> j\<close>] show ?case
    by (auto simp: blk_do_write.simps [of _ m offset src len] Let_def case_prod_unfold intro!: below_same split: option.split)
qed

lemma blk_execute_below: "k \<le> k' \<Longrightarrow> below (blk_execute k m t offset d) (blk_execute k' m t offset d)"
  by (simp add: blk_execute_def blk_do_read_below blk_do_write_below)

context notify_below
begin

lemma blk_handle_request: "k \<le> k' \<Longrightarrow> below (blk_handle_request k n m i head) (blk_handle_request k' n' m i head)"
  by (auto simp: blk_handle_request_def
      intro!: below_same below_bind [OF blk_execute_below] below_bind [OF mem_write8] vq_ring_post)

lemma blk_serve: "k \<le> k' \<Longrightarrow> j \<le> j' \<Longrightarrow> below (blk_serve k j n m i) (blk_serve k' j' n' m i)"
proof (induction k arbitrary: k' m)
  case 0
  then show ?case
    by (auto simp: blk_serve.simps [of _ _ _ m i] intro!: below_same)
next
  case (Suc k)
  from Suc.prems obtain l where "k' = Suc l" "k \<le> l" by (cases k') auto
  with Suc.IH [OF \<open>k \<le> l\<close> Suc.prems(2)] show ?case
    by (auto simp: blk_serve.simps [of _ _ _ m i] intro!: below_same below_bind [OF blk_handle_request] Suc.prems(2))
qed

end

lemma blk_notify_below: "k \<le> k' \<Longrightarrow> below (blk_notify k i m) (blk_notify k' i m)"
proof (induction k arbitrary: k' i m)
  case (Suc k)
  from Suc.prems obtain j where j: "k' = Suc j" "k \<le> j" by (cases k') auto
  then have "notify_below (blk_notify k) (blk_notify j)" by (intro notify_below.intro Suc.IH)
  from notify_below.blk_serve [OF this j(2) j(2)] j(1) show ?case
    by (auto intro!: below_bind)
qed simp

interpretation blk_fuel: notify_below "blk_notify k" "blk_notify (k + j)" for k j
  by unfold_locales (simp add: blk_notify_below)

lemma run_below: "k \<le> k' \<Longrightarrow> below (run h k n m) (run h k' n m)"
proof (induction n arbitrary: m)
  case (Suc n)
  from Suc.prems have "below (cpu_step h (blk_notify k) m) (cpu_step h (blk_notify k') m)"
    using blk_fuel.cpu_step [of h k m "k' - k"] by simp
  then show ?case using Suc by (auto intro!: below_bind)
qed simp

section \<open>Properties\<close>

text \<open>Fuel decides only how far the model follows the code. A run of the emulator from its
  command line that ends in any other way than by exhausted fuel (a state after n iterations, an
  exit with its status, undefined behaviour) ends in the same way for every larger fuel.\<close>

theorem emulator_fuel_irrelevant:
  assumes "emulator h k n w argv m = r" and "r \<noteq> Inl OutOfFuel" and "k \<le> k'"
  shows "emulator h k' n w argv m = r"
proof -
  have "below (emulator h k n w argv m) (emulator h k' n w argv m)"
    using run_below [OF assms(3)]
    by (auto simp: emulator_def intro!: below_same split: list.split)
  then show ?thesis using assms by (simp add: below_def)
qed

text \<open>The smallest booted program runs: its one instruction sets a0 to 42.\<close>

definition tiny_start :: machine where
  "tiny_start = static_machine \<lparr>stdin_answers = [], stdout_bytes = []\<rparr> (\<lambda>_. 0) []"

abbreviation (input) tiny_init :: machine where "tiny_init \<equiv> main_init tiny_host tiny_start"

definition tiny_booted :: machine where
  "tiny_booted = set_cpu (tiny_init\<lparr>m_mem := place 0 0 [tiny_segment] (m_mem tiny_init)\<rparr>)
     (sbi_init (boot_args (cpu_init cpu_zero) 0 0) 0x80000000)"

lemma tiny_init_in: "seg_in (m_mem tiny_init) 0 0 tiny_segment"
  by (simp add: seg_in_def tiny_segment_image)
    (simp add: tiny_segment_def dma_at_def tiny_host_def tiny_start_def init_defs Let_def upd_slot_def set_cpu_def region_fits_def)

lemma tiny_init_map: "layout tiny_init = boot_map" "m_sources tiny_init = [UartSource, ClintSource]" "m_cpu tiny_init = cpu_init cpu_zero"
  unfolding tiny_start_def by (rule main_init_map; simp add: tiny_host_def)+

lemma tiny_kernel: "boot tiny_host ''kernel'' tiny_init = Inr (True, tiny_booted)"
proof -
  have "elf_load (\<lambda>_. True) (m_mem tiny_init) (Some tiny_elf) 0
      = Inr (0x80000000 - seg_shift [tiny_segment] + 0, place 0 0 [tiny_segment] (m_mem tiny_init))"
    using elf_segments_place [of tiny_elf "[0..<1]" "[tiny_segment]" "m_mem tiny_init" 0 0 "\<lambda>_. True"] tiny_elf_headers
      elf_virt_shift_headers [of tiny_elf "[0..<1]" "[tiny_segment]"] tiny_init_in
    by (simp add: elf_load_def)
  then have "elf_load (allocator tiny_host) (m_mem tiny_init) (binary tiny_host) 0
      = Inr (0x80000000, place 0 0 [tiny_segment] (m_mem tiny_init))"
    by (simp only: tiny_host_def host.select_convs) (simp add: seg_shift_def tiny_segment_def)
  then show ?thesis
    by (simp add: boot_def kernel_boot_def Let_def tiny_init_map tiny_booted_def)
qed

lemma load_le_bytes: "load_le d a n = le_value (load_bytes d a n)"
  by (induction d a n rule: load_le.induct) simp_all

lemma mem_read_dma:
  assumes "dma_at (m_mem m) a n i" "0 < n" "rhandler (m_mem m ! i) = DefaultHandler"
  shows "mem_read m a n = Inr (le_value (dma_load (m_mem m) i a n), m)"
  using assms dma_find [OF assms(1,2)] dma_offset [OF assms(1)]
  by (auto simp: mem_read_def region_read_def default_read_def with_block_def dma_load_def load_le_bytes dma_at_def)

lemma tiny_ram:
  assumes "m_mem m = m_mem tiny_booted" "n \<le> 4" "0 < n"
  shows "mem_read m 0x80000000 n = Inr (le_value (take n [0x13, 0x05, 0xA0, 0x02]), m)"
proof -
  let ?mem = "place 0 0 [tiny_segment] (m_mem tiny_init)"
  have mem: "m_mem m = ?mem" using assms(1) by (simp add: tiny_booted_def)
  have "dma_load ?mem 0 (seg_paddr tiny_segment + 0) (length (seg_image tiny_segment)) = seg_image tiny_segment"
    by (rule place_holds) (simp_all add: tiny_init_in)
  then have "dma_load ?mem 0 0x80000000 16 = [0x13, 0x05, 0xA0, 0x02] @ replicate 12 0"
    by (simp add: tiny_segment_image) (simp add: tiny_segment_def)
  moreover have "take n ([0x13, 0x05, 0xA0, 0x02] @ replicate 12 (0 :: u8)) = take n [0x13, 0x05, 0xA0, 0x02]"
    using assms(2) by (subst take_append) simp
  ultimately have bytes: "dma_load ?mem 0 0x80000000 n = take n [0x13, 0x05, 0xA0, 0x02]"
    using assms(2) take_dma_load [of n 16 ?mem 0 "0x80000000"] by simp
  have "region_shape (m_mem tiny_init ! 0) = boot_map ! 0" "m_mem tiny_init \<noteq> []"
    using tiny_init_map(1) by (auto simp: layout_def boot_map_def)
  then have "rhandler (m_mem m ! 0) = DefaultHandler"
    using mem by (auto simp: dma_store_def boot_map_def region_shape_def nth_list_update)
  moreover have "dma_at (m_mem m) 0x80000000 16 0"
    using tiny_init_in mem by (simp add: seg_in_def tiny_segment_image) (simp add: tiny_segment_def)
  then have "dma_at (m_mem m) 0x80000000 n 0" by (rule dma_prefix) (use assms(2) in simp)
  ultimately show ?thesis using mem_read_dma [of m "0x80000000" n 0] bytes mem assms(3) by simp
qed

lemma tiny_fetch:
  assumes "m_mem m = m_mem tiny_booted"
  shows "mem_read16 m 0x80000000 = Inr (0x0513, m)" "mem_read32 m 0x80000000 = Inr (0x02A00513, m)"
  using tiny_ram [OF assms, of 2] tiny_ram [OF assms, of 4]
  by (simp_all add: mem_read16_def mem_read32_def)

lemma tiny_decode: "decode 0x02A00513 =
    \<lparr>opcode = OP_I_ARITH, i_rd = 10, i_rs1 = 0, i_rs2 = 10, funct3 = 0, funct7 = 1, imm = 42, isize = 4\<rparr>"
  by (simp add: decode_def decode_imm_def sign_extend_def sext64_def)

lemma tiny_step: "\<exists>m. cpu_step h notify tiny_booted = Inr m \<and> regs (m_cpu m) 10 = 42"
proof -
  let ?t = "tick tiny_booted"
  let ?m = "?t\<lparr>m_cpu := cpu_lower_irq (m_cpu ?t) MIP_STIP\<rparr>"
  have c: "m_sources ?t = [UartSource, ClintSource]" "steps (m_cpu ?t) = 1" "privilege (m_cpu ?t) = PRIV_S"
      "pc (m_cpu ?t) = 0x80000000" "csrs (m_cpu ?t) CSR_MIP = 0" "csrs (m_cpu ?t) CSR_SATP = 0" "regs (m_cpu ?t) 0 = 0"
      "m_mem ?t = m_mem tiny_booted" "m_clint ?t = m_clint tiny_init"
    using tiny_init_map
    by (simp_all add: tick_def tiny_booted_def set_cpu_def sbi_init_def boot_args_def cpu_init_def cpu_zero_def set_csr_def Let_def)
  have "m_clint tiny_init = g_clint"
    by (simp add: tiny_start_def init_defs Let_def upd_slot_def set_cpu_def split: option.split)
  then have "poll_sources (m_sources ?t) ?t = Inr ?m"
    using c by (simp add: poll_source_def uart_irq_source_def clint_irq_source_def g_clint_def word_le_nat_alt)
  then have "cpu_check_interrupts ?t = Inr (False, ?m)"
    by (simp add: cpu_check_interrupts_def select_interrupt_def cpu_lower_irq_def set_csr_def c)
  moreover have "fetch_execute h notify ?m = Inr (advance (decode 0x02A00513) (with_reg ?m 10 42))"
    using c tiny_fetch [of ?m]
    by (simp add: fetch_execute_def mmu_translate_def mmu_active_def cpu_lower_irq_def set_csr_def execute_def tiny_decode
        i_arith_def finish_def)
  ultimately show ?thesis
    by (intro exI [of _ "advance (decode 0x02A00513) (with_reg ?m 10 42)"])
      (simp add: cpu_step_def advance_def regs_reg_write)
qed

theorem emulator_fuel_irrelevant_witness:
  "\<exists>m. emulator default_fpu 7 1 tiny_host [''kernel'', ''tiny.elf''] tiny_start = Inr m \<and> regs (m_cpu m) 10 = 42"
proof -
  obtain m where m: "cpu_step default_fpu (blk_notify 0) tiny_booted = Inr m" "regs (m_cpu m) 10 = 42"
    using tiny_step by blast
  have "\<not> halted (m_cpu tiny_booted)"
    by (simp add: tiny_booted_def sbi_init_def boot_args_def cpu_init_def cpu_zero_def set_csr_def Let_def)
  with m(1) have "emulator default_fpu 0 1 tiny_host [''kernel'', ''tiny.elf''] tiny_start = Inr m"
    by (simp add: emulator_def tiny_kernel)
  from emulator_fuel_irrelevant [OF this, of 7] m(2) show ?thesis by simp
qed

end
