(* ===== verification/Rvc.thy ===== *)
theory Rvc
  imports Isa
begin

text \<open>
  The compressed instruction set as the architecture presents it: an instruction is an
  abbreviation of a 32-bit one.  \<open>encode_rvc\<close> is its halfword, \<open>expand_rvc\<close> the word of the
  instruction it abbreviates; the two decoders of the code, followed by the code's execution,
  agree on them.
\<close>

abbreviation (input) REG_ZERO :: u32 where "REG_ZERO \<equiv> 0"
abbreviation (input) REG_RA :: u32 where "REG_RA \<equiv> 1"

section \<open>Instructions, their halfwords and their expansions\<close>

datatype rvc =
    C_ADDI4SPN u32 u64 | C_FLD u32 u32 u64 | C_LW u32 u32 u64 | C_LD u32 u32 u64
  | C_FSD u32 u32 u64 | C_SW u32 u32 u64 | C_SD u32 u32 u64
  | C_ADDI u32 u64 | C_ADDIW u32 u64 | C_LI u32 u64 | C_ADDI16SP u64 | C_LUI u32 u64
  | C_SRLI u32 u64 | C_SRAI u32 u64 | C_ANDI u32 u64
  | C_SUB u32 u32 | C_XOR u32 u32 | C_OR u32 u32 | C_AND u32 u32 | C_SUBW u32 u32 | C_ADDW u32 u32
  | C_J u64 | C_BEQZ u32 u64 | C_BNEZ u32 u64
  | C_SLLI u32 u64 | C_FLDSP u32 u64 | C_LWSP u32 u64 | C_LDSP u32 u64
  | C_JR u32 | C_MV u32 u32 | C_EBREAK | C_JALR u32 | C_ADD u32 u32
  | C_FSDSP u32 u64 | C_SWSP u32 u64 | C_SDSP u32 u64

text \<open>
  The fixed bits of a halfword, and a register in a field of five bits or, for the registers
  8 to 15, of three bits.
\<close>

definition rvc_op :: "u16 \<Rightarrow> u16 \<Rightarrow> u16" where
  "rvc_op q f3 = q OR push_bit 13 f3"

definition reg5 :: "u32 \<Rightarrow> nat \<Rightarrow> u16" where
  "reg5 x p = cfield (ucast x) 0 5 p"

definition reg3 :: "u32 \<Rightarrow> nat \<Rightarrow> u16" where
  "reg3 x p = cfield (ucast x) 0 3 p"

text \<open>An arithmetic instruction of the CA format: bit 12, the selector of bits 5 and 6.\<close>

definition enc_ca :: "u16 \<Rightarrow> u16 \<Rightarrow> u32 \<Rightarrow> u32 \<Rightarrow> u16" where
  "enc_ca b12 sel rd rs2 = rvc_op 1 4 OR push_bit 10 3 OR push_bit 12 b12 OR push_bit 5 sel OR reg3 rd 7 OR reg3 rs2 2"

fun encode_rvc :: "rvc \<Rightarrow> u16" where
  "encode_rvc (C_ADDI4SPN rd v) = enc_addi4spn v OR (rvc_op 0 0 OR reg3 rd 2)"
| "encode_rvc (C_FLD rd rs1 v) = enc_cld v OR (rvc_op 0 1 OR reg3 rd 2 OR reg3 rs1 7)"
| "encode_rvc (C_LW rd rs1 v) = enc_clw v OR (rvc_op 0 2 OR reg3 rd 2 OR reg3 rs1 7)"
| "encode_rvc (C_LD rd rs1 v) = enc_cld v OR (rvc_op 0 3 OR reg3 rd 2 OR reg3 rs1 7)"
| "encode_rvc (C_FSD rs2 rs1 v) = enc_cld v OR (rvc_op 0 5 OR reg3 rs2 2 OR reg3 rs1 7)"
| "encode_rvc (C_SW rs2 rs1 v) = enc_clw v OR (rvc_op 0 6 OR reg3 rs2 2 OR reg3 rs1 7)"
| "encode_rvc (C_SD rs2 rs1 v) = enc_cld v OR (rvc_op 0 7 OR reg3 rs2 2 OR reg3 rs1 7)"
| "encode_rvc (C_ADDI rd v) = enc_ci v OR (rvc_op 1 0 OR reg5 rd 7)"
| "encode_rvc (C_ADDIW rd v) = enc_ci v OR (rvc_op 1 1 OR reg5 rd 7)"
| "encode_rvc (C_LI rd v) = enc_ci v OR (rvc_op 1 2 OR reg5 rd 7)"
| "encode_rvc (C_ADDI16SP v) = enc_addi16sp v OR (rvc_op 1 3 OR reg5 2 7)"
| "encode_rvc (C_LUI rd v) = enc_lui v OR (rvc_op 1 3 OR reg5 rd 7)"
| "encode_rvc (C_SRLI rd v) = enc_ci v OR (rvc_op 1 4 OR reg3 rd 7)"
| "encode_rvc (C_SRAI rd v) = enc_ci v OR (rvc_op 1 4 OR push_bit 10 1 OR reg3 rd 7)"
| "encode_rvc (C_ANDI rd v) = enc_ci v OR (rvc_op 1 4 OR push_bit 10 2 OR reg3 rd 7)"
| "encode_rvc (C_SUB rd rs2) = enc_ca 0 0 rd rs2"
| "encode_rvc (C_XOR rd rs2) = enc_ca 0 1 rd rs2"
| "encode_rvc (C_OR rd rs2) = enc_ca 0 2 rd rs2"
| "encode_rvc (C_AND rd rs2) = enc_ca 0 3 rd rs2"
| "encode_rvc (C_SUBW rd rs2) = enc_ca 1 0 rd rs2"
| "encode_rvc (C_ADDW rd rs2) = enc_ca 1 1 rd rs2"
| "encode_rvc (C_J v) = enc_cj v OR rvc_op 1 5"
| "encode_rvc (C_BEQZ rs1 v) = enc_cb v OR (rvc_op 1 6 OR reg3 rs1 7)"
| "encode_rvc (C_BNEZ rs1 v) = enc_cb v OR (rvc_op 1 7 OR reg3 rs1 7)"
| "encode_rvc (C_SLLI rd v) = enc_ci v OR (rvc_op 2 0 OR reg5 rd 7)"
| "encode_rvc (C_FLDSP rd v) = enc_ldsp v OR (rvc_op 2 1 OR reg5 rd 7)"
| "encode_rvc (C_LWSP rd v) = enc_lwsp v OR (rvc_op 2 2 OR reg5 rd 7)"
| "encode_rvc (C_LDSP rd v) = enc_ldsp v OR (rvc_op 2 3 OR reg5 rd 7)"
| "encode_rvc (C_JR rs1) = rvc_op 2 4 OR reg5 rs1 7"
| "encode_rvc (C_MV rd rs2) = rvc_op 2 4 OR reg5 rd 7 OR reg5 rs2 2"
| "encode_rvc C_EBREAK = rvc_op 2 4 OR push_bit 12 1"
| "encode_rvc (C_JALR rs1) = rvc_op 2 4 OR push_bit 12 1 OR reg5 rs1 7"
| "encode_rvc (C_ADD rd rs2) = rvc_op 2 4 OR push_bit 12 1 OR reg5 rd 7 OR reg5 rs2 2"
| "encode_rvc (C_FSDSP rs2 v) = enc_sdsp v OR (rvc_op 2 5 OR reg5 rs2 2)"
| "encode_rvc (C_SWSP rs2 v) = enc_swsp v OR (rvc_op 2 6 OR reg5 rs2 2)"
| "encode_rvc (C_SDSP rs2 v) = enc_sdsp v OR (rvc_op 2 7 OR reg5 rs2 2)"

fun expand_rvc :: "rvc \<Rightarrow> u32" where
  "expand_rvc (C_ADDI4SPN rd v) = encode_I OP_I_ARITH rd F3_ADD_SUB REG_SP v"
| "expand_rvc (C_FLD rd rs1 v) = encode_I OP_FLW_FLD rd F3_FLD_FSD rs1 v"
| "expand_rvc (C_LW rd rs1 v) = encode_I OP_LOAD rd F3_LW rs1 v"
| "expand_rvc (C_LD rd rs1 v) = encode_I OP_LOAD rd F3_LD rs1 v"
| "expand_rvc (C_FSD rs2 rs1 v) = encode_S OP_FSW_FSD F3_FLD_FSD rs1 rs2 v"
| "expand_rvc (C_SW rs2 rs1 v) = encode_S OP_STORE F3_SW rs1 rs2 v"
| "expand_rvc (C_SD rs2 rs1 v) = encode_S OP_STORE F3_SD rs1 rs2 v"
| "expand_rvc (C_ADDI rd v) = encode_I OP_I_ARITH rd F3_ADD_SUB rd v"
| "expand_rvc (C_ADDIW rd v) = encode_I OP_I_ARITH_W rd F3_ADD_SUB rd v"
| "expand_rvc (C_LI rd v) = encode_I OP_I_ARITH rd F3_ADD_SUB REG_ZERO v"
| "expand_rvc (C_ADDI16SP v) = encode_I OP_I_ARITH REG_SP F3_ADD_SUB REG_SP v"
| "expand_rvc (C_LUI rd v) = encode_U OP_LUI rd v"
| "expand_rvc (C_SRLI rd v) = encode_I OP_I_ARITH rd F3_SRL_SRA rd v"
| "expand_rvc (C_SRAI rd v) = encode_I OP_I_ARITH rd F3_SRL_SRA rd (v OR 0x400)"
| "expand_rvc (C_ANDI rd v) = encode_I OP_I_ARITH rd F3_AND rd v"
| "expand_rvc (C_SUB rd rs2) = encode_R OP_R_ARITH rd F3_ADD_SUB rd rs2 F7_ALT"
| "expand_rvc (C_XOR rd rs2) = encode_R OP_R_ARITH rd F3_XOR rd rs2 0"
| "expand_rvc (C_OR rd rs2) = encode_R OP_R_ARITH rd F3_OR rd rs2 0"
| "expand_rvc (C_AND rd rs2) = encode_R OP_R_ARITH rd F3_AND rd rs2 0"
| "expand_rvc (C_SUBW rd rs2) = encode_R OP_R_ARITH_W rd F3_ADD_SUB rd rs2 F7_ALT"
| "expand_rvc (C_ADDW rd rs2) = encode_R OP_R_ARITH_W rd F3_ADD_SUB rd rs2 0"
| "expand_rvc (C_J v) = encode_J OP_JAL REG_ZERO v"
| "expand_rvc (C_BEQZ rs1 v) = encode_B OP_BRANCH F3_BEQ rs1 REG_ZERO v"
| "expand_rvc (C_BNEZ rs1 v) = encode_B OP_BRANCH F3_BNE rs1 REG_ZERO v"
| "expand_rvc (C_SLLI rd v) = encode_I OP_I_ARITH rd F3_SLL rd v"
| "expand_rvc (C_FLDSP rd v) = encode_I OP_FLW_FLD rd F3_FLD_FSD REG_SP v"
| "expand_rvc (C_LWSP rd v) = encode_I OP_LOAD rd F3_LW REG_SP v"
| "expand_rvc (C_LDSP rd v) = encode_I OP_LOAD rd F3_LD REG_SP v"
| "expand_rvc (C_JR rs1) = encode_I OP_JALR REG_ZERO 0 rs1 0"
| "expand_rvc (C_MV rd rs2) = encode_R OP_R_ARITH rd F3_ADD_SUB REG_ZERO rs2 0"
| "expand_rvc C_EBREAK = encode_I OP_SYSTEM REG_ZERO 0 REG_ZERO SYSTEM_EBREAK"
| "expand_rvc (C_JALR rs1) = encode_I OP_JALR REG_RA 0 rs1 0"
| "expand_rvc (C_ADD rd rs2) = encode_R OP_R_ARITH rd F3_ADD_SUB rd rs2 0"
| "expand_rvc (C_FSDSP rs2 v) = encode_S OP_FSW_FSD F3_FLD_FSD REG_SP rs2 v"
| "expand_rvc (C_SWSP rs2 v) = encode_S OP_STORE F3_SW REG_SP rs2 v"
| "expand_rvc (C_SDSP rs2 v) = encode_S OP_STORE F3_SD REG_SP rs2 v"

text \<open>
  The operands a format can carry: registers below 32, or 8 to 15 where the field has three
  bits; signed immediates of the format's width; scaled unsigned offsets.  Where two
  instructions share an encoding, the operand that tells them apart is excluded (rd = 2 for lui,
  0 for jr, mv, jalr and add).
\<close>

abbreviation (input) signed_imm :: "nat \<Rightarrow> nat \<Rightarrow> u64 \<Rightarrow> bool" where
  "signed_imm n s v \<equiv> sext64 v n = v \<and> take_bit s v = 0"

abbreviation (input) unsigned_imm :: "nat \<Rightarrow> nat \<Rightarrow> u64 \<Rightarrow> bool" where
  "unsigned_imm n s v \<equiv> take_bit n v = v \<and> take_bit s v = 0"

definition creg :: "u32 \<Rightarrow> bool" where
  "creg x \<longleftrightarrow> 8 \<le> x \<and> x < 16"

fun rvc_ok :: "rvc \<Rightarrow> bool" where
  "rvc_ok (C_ADDI4SPN rd v) \<longleftrightarrow> creg rd \<and> unsigned_imm 10 2 v"
| "rvc_ok (C_FLD rd rs1 v) \<longleftrightarrow> creg rd \<and> creg rs1 \<and> unsigned_imm 8 3 v"
| "rvc_ok (C_LW rd rs1 v) \<longleftrightarrow> creg rd \<and> creg rs1 \<and> unsigned_imm 7 2 v"
| "rvc_ok (C_LD rd rs1 v) \<longleftrightarrow> creg rd \<and> creg rs1 \<and> unsigned_imm 8 3 v"
| "rvc_ok (C_FSD rs2 rs1 v) \<longleftrightarrow> creg rs2 \<and> creg rs1 \<and> unsigned_imm 8 3 v"
| "rvc_ok (C_SW rs2 rs1 v) \<longleftrightarrow> creg rs2 \<and> creg rs1 \<and> unsigned_imm 7 2 v"
| "rvc_ok (C_SD rs2 rs1 v) \<longleftrightarrow> creg rs2 \<and> creg rs1 \<and> unsigned_imm 8 3 v"
| "rvc_ok (C_ADDI rd v) \<longleftrightarrow> rd < 32 \<and> signed_imm 6 0 v"
| "rvc_ok (C_ADDIW rd v) \<longleftrightarrow> rd < 32 \<and> signed_imm 6 0 v"
| "rvc_ok (C_LI rd v) \<longleftrightarrow> rd < 32 \<and> signed_imm 6 0 v"
| "rvc_ok (C_ADDI16SP v) \<longleftrightarrow> signed_imm 10 4 v"
| "rvc_ok (C_LUI rd v) \<longleftrightarrow> rd < 32 \<and> rd \<noteq> REG_SP \<and> signed_imm 18 12 v"
| "rvc_ok (C_SRLI rd v) \<longleftrightarrow> creg rd \<and> unsigned_imm 6 0 v"
| "rvc_ok (C_SRAI rd v) \<longleftrightarrow> creg rd \<and> unsigned_imm 6 0 v"
| "rvc_ok (C_ANDI rd v) \<longleftrightarrow> creg rd \<and> signed_imm 6 0 v"
| "rvc_ok (C_SUB rd rs2) \<longleftrightarrow> creg rd \<and> creg rs2"
| "rvc_ok (C_XOR rd rs2) \<longleftrightarrow> creg rd \<and> creg rs2"
| "rvc_ok (C_OR rd rs2) \<longleftrightarrow> creg rd \<and> creg rs2"
| "rvc_ok (C_AND rd rs2) \<longleftrightarrow> creg rd \<and> creg rs2"
| "rvc_ok (C_SUBW rd rs2) \<longleftrightarrow> creg rd \<and> creg rs2"
| "rvc_ok (C_ADDW rd rs2) \<longleftrightarrow> creg rd \<and> creg rs2"
| "rvc_ok (C_J v) \<longleftrightarrow> signed_imm 12 1 v"
| "rvc_ok (C_BEQZ rs1 v) \<longleftrightarrow> creg rs1 \<and> signed_imm 9 1 v"
| "rvc_ok (C_BNEZ rs1 v) \<longleftrightarrow> creg rs1 \<and> signed_imm 9 1 v"
| "rvc_ok (C_SLLI rd v) \<longleftrightarrow> rd < 32 \<and> unsigned_imm 6 0 v"
| "rvc_ok (C_FLDSP rd v) \<longleftrightarrow> rd < 32 \<and> unsigned_imm 9 3 v"
| "rvc_ok (C_LWSP rd v) \<longleftrightarrow> rd < 32 \<and> unsigned_imm 8 2 v"
| "rvc_ok (C_LDSP rd v) \<longleftrightarrow> rd < 32 \<and> unsigned_imm 9 3 v"
| "rvc_ok (C_JR rs1) \<longleftrightarrow> rs1 < 32"
| "rvc_ok (C_MV rd rs2) \<longleftrightarrow> rd < 32 \<and> rs2 < 32 \<and> rs2 \<noteq> 0"
| "rvc_ok C_EBREAK \<longleftrightarrow> True"
| "rvc_ok (C_JALR rs1) \<longleftrightarrow> rs1 < 32 \<and> rs1 \<noteq> 0"
| "rvc_ok (C_ADD rd rs2) \<longleftrightarrow> rd < 32 \<and> rs2 < 32 \<and> rs2 \<noteq> 0"
| "rvc_ok (C_FSDSP rs2 v) \<longleftrightarrow> rs2 < 32 \<and> unsigned_imm 9 3 v"
| "rvc_ok (C_SWSP rs2 v) \<longleftrightarrow> rs2 < 32 \<and> unsigned_imm 8 2 v"
| "rvc_ok (C_SDSP rs2 v) \<longleftrightarrow> rs2 < 32 \<and> unsigned_imm 9 3 v"

section \<open>Reading the fields of a halfword\<close>

lemma half_or:
  "(ucast (a OR b :: u16) :: u32) = ucast a OR ucast b"
  by (rule bit_word_eqI) (auto simp: bit_simps)

lemma half_miss:
  "p + m \<le> s \<or> s + n \<le> p \<Longrightarrow> take_bit n (drop_bit s (ucast (cfield v lo m p) :: u32)) = 0"
  "n \<le> p \<Longrightarrow> take_bit n (ucast (cfield v lo m p) :: u32) = 0"
  by (rule bit_word_eqI; auto simp: bit_simps bit_cfield)+

lemma half_miss_bit: "p + m \<le> s \<or> s < p \<Longrightarrow> drop_bit s (ucast (cfield v lo m p) :: u32) mod 2 = 0"
  using half_miss(1) [of p m s 1 v lo] by (simp add: take_bit_Suc less_eq_Suc_le mod_2_eq_odd flip: take_bit_Suc_0)

lemma half_hit: "p + n \<le> 16 \<Longrightarrow> take_bit n (drop_bit p (ucast (cfield (ucast x) 0 n p) :: u32)) = take_bit n (x :: u32)"
  by (rule bit_word_eqI) (auto simp: bit_simps bit_cfield)

lemma and_low: "(w :: u32) AND 1 = take_bit 1 w" "(w :: u32) AND 3 = take_bit 2 w" "w AND 7 = take_bit 3 w" "w AND 0x1F = take_bit 5 w"
  by (simp_all add: take_bit_eq_mask mask_eq_exp_minus_1)

text \<open>The reads of the decoder as fields, and the fields as bits.\<close>

lemmas half_reads = half_or drop_bit_or take_bit_or half_miss half_miss_bit half_hit rvc_rd_s_def rvc_rs1_s_def rvc_rd_def rvc_rs2_def rvc_b12_def rvc_sub_def rvc_arith_def cl_def and_low

lemmas half_bits = bit_or_iff bit_cfield enc_defs rvc_op_def reg5_def reg3_def enc_ca_def bit_push_bit_iff bit_unsigned_iff

lemma reg_values: "x < 32 \<Longrightarrow> take_bit 5 x = (x :: u32)" "creg x \<Longrightarrow> take_bit 5 x = x" "creg x \<Longrightarrow> take_bit 3 x + 8 = x"
proof -
  show five: "take_bit 5 x = x" if "x < 32" for x :: u32 using that by (intro small) simp
  assume "creg x"
  then have x: "8 \<le> x" "x < 16" by (simp_all add: creg_def)
  then show "take_bit 5 x = x" by (intro five) unat_arith
  from x have "unat x \<in> set [8..<16]" unfolding set_upt by (simp add: word_le_nat_alt word_less_nat_alt)
  then have "of_nat (unat x) \<in> set (map of_nat [8..<16] :: u32 list)" by (simp only: set_map image_eqI)
  then have "x \<in> set (map of_nat [8..<16])" by simp
  then show "take_bit 3 x + 8 = x" by (auto simp: upt_rec)
qed



text \<open>Shift amounts, in both encodings of the shifts.\<close>

lemma shamt_imms:
  assumes "take_bit 6 v = v"
  shows "sext64 v 6 AND 0x3F = v" and "(ucast (sext64 (v OR 0x400) 12) :: u32) AND 0x3F = ucast v" and "(ucast v :: u32) AND 0x3F = ucast v"
    and "clear [2, 3, 4, 5, 6, 12] w \<Longrightarrow> push_bit 5 (rbits (enc_ci v OR w) 12 1) OR rbits (enc_ci v OR w) 2 5 = v"
proof -
  have v: "bit v k \<Longrightarrow> k < 6" for k using assms by (metis bit_take_bit_iff)
  have m: "x AND 0x3F = take_bit 6 (x :: u64)" "y AND 0x3F = take_bit 6 (y :: u32)" for x y
    by (simp_all add: take_bit_eq_mask mask_eq_exp_minus_1)
  show "sext64 v 6 AND 0x3F = v"
    unfolding m by (rule bit_word_eqI) (auto simp: bit_simps bit_sext64 dest: v)
  show "(ucast (sext64 (v OR 0x400) 12) :: u32) AND 0x3F = ucast v"
  proof -
    have "take_bit 6 (ucast (sext64 w 12) :: u32) = ucast (take_bit 6 w)" for w
      by (rule bit_word_eqI) (auto simp: bit_simps bit_sext64)
    then show ?thesis unfolding m using assms by (simp add: take_bit_or)
  qed
  show "(ucast v :: u32) AND 0x3F = ucast v"
    unfolding m by (rule bit_word_eqI) (auto simp: bit_simps dest: v)
  show "clear [2, 3, 4, 5, 6, 12] w \<Longrightarrow> push_bit 5 (rbits (enc_ci v OR w) 12 1) OR rbits (enc_ci v OR w) 2 5 = v"
    unfolding enc_ci_def
    by (rule word_eq_all [rotated 2], rule assms, unfold c_bits, simp add: eval_nat_numeral, auto)
qed

lemma encode_I_alt: "take_bit 7 (drop_bit 25 (encode_I op rd f3 rs1 v)) AND 0x20 = (if bit v 10 then 0x20 else 0)"
proof (rule bit_word_eqI)
  fix k
  have "bit (0x20 :: u32) k \<longleftrightarrow> k = 5" using bit_push_bit_iff [of 5 "1 :: u32" k] by (auto simp: bit_1_iff)
  then show "bit (take_bit 7 (drop_bit 25 (encode_I op rd f3 rs1 v)) AND 0x20) k = bit (if bit v 10 then 0x20 else 0 :: u32) k"
    by (auto simp: encode_defs bit_simps bit_field)
qed

lemma sext64_wider:
  assumes "0 < n" "n \<le> k" "k \<le> 64" "sext64 v n = v"
  shows "sext64 v k = v"
proof (rule bit_word_eqI)
  have high: "bit v i = bit v (n - 1)" if "n \<le> i" "i < 64" for i
    using bit_sext64 [of n v i] assms that by simp
  fix i :: nat assume "i < LENGTH(64)"
  then show "bit (sext64 v k) i = bit v i"
    using high [of i] high [of "k - 1"] assms(1-3) by (cases "n = k") (auto simp: bit_sext64)
qed

lemma sext64_unsigned:
  assumes "n < k" "k \<le> 64" "take_bit n v = v"
  shows "sext64 v k = v"
proof (rule bit_word_eqI)
  have high: "\<not> bit v i" if "n \<le> i" for i using assms(3) that by (metis bit_take_bit_iff not_less)
  fix i :: nat assume "i < LENGTH(64)"
  then show "bit (sext64 v k) i = bit v i"
    using high [of i] high [of "k - 1"] assms(1,2) by (simp add: bit_sext64)
qed

lemmas half_imms = sext_imms [unfolded enc_defs One_nat_def] scaled_imms [unfolded enc_defs One_nat_def]

lemmas half_eval = decode_rvc_def decode_rvc_q0_def decode_rvc_q1_def decode_rvc_q2_def decode_rvc_cr_def decode_rvc_arith_def
  Let_def half_reads enc_defs reg5_def reg3_def rvc_op_def enc_ca_def reg_values half_imms half_bits rvc_blank_def
  shamt_imms shamt_imms(4) [unfolded enc_defs One_nat_def]

text \<open>An immediate of a short format is one of the format it expands to.\<close>

lemmas wider_imms =
  sext64_wider [of 6 12, simplified] sext64_wider [of 10 12, simplified] sext64_wider [of 18 32, simplified]
  sext64_wider [of 9 13, simplified] sext64_wider [of 12 21, simplified]
  sext64_unsigned [of 6 12, simplified] sext64_unsigned [of 7 12, simplified] sext64_unsigned [of 8 12, simplified]
  sext64_unsigned [of 9 12, simplified] sext64_unsigned [of 10 12, simplified]

lemma even_imms: "take_bit 1 v = 0 \<Longrightarrow> \<not> bit v 0" for v :: u64
  by (simp add: bit_0 even_iff_mod_2_eq_zero)

lemmas jump_imms = encode_J_imm [OF even_imms, simplified] encode_B_imm [OF even_imms, simplified]

lemmas word_eval = decode_simps jump_imms encode_I_alt reg_values wider_imms

section \<open>The fields an instruction uses\<close>

text \<open>
  The decoders fill every field; an instruction uses some of them.  \<open>canon\<close> clears the rest,
  for the instructions that have a compressed form.
\<close>

definition canon :: "instruction \<Rightarrow> instruction" where
  "canon i =
     (let op = opcode i;
          shift = (op = OP_I_ARITH \<and> (funct3 i = F3_SLL \<or> funct3 i = F3_SRL_SRA));
          register = (op = OP_R_ARITH \<or> op = OP_R_ARITH_W)
      in i\<lparr>i_rd := if op \<in> {OP_STORE, OP_FSW_FSD, OP_BRANCH, OP_SYSTEM} then 0 else i_rd i,
           i_rs1 := if op \<in> {OP_LUI, OP_JAL, OP_SYSTEM} then 0 else i_rs1 i,
           i_rs2 := if register \<or> op \<in> {OP_STORE, OP_FSW_FSD, OP_BRANCH} then i_rs2 i else 0,
           funct3 := if op \<in> {OP_LUI, OP_JAL, OP_JALR} then 0 else funct3 i,
           funct7 := if register then funct7 i
                     else if op = OP_I_ARITH \<and> funct3 i = F3_SRL_SRA then funct7 i AND F7_ALT
                     else if op = OP_I_ARITH_W \<and> funct3 i \<noteq> F3_ADD_SUB then funct7 i else 0,
           imm := if register then 0 else if shift then imm i AND 0x3F else imm i\<rparr>)"

lemma canon_simps [simp]: "opcode (canon i) = opcode i" "isize (canon i) = isize i"
  by (simp_all add: canon_def Let_def)

lemma finish_canon:
  "advance (canon i) = advance i" "finish_load (canon i) put r = finish_load i put r"
  "finish_store (canon i) s = finish_store i s"
proof -
  show adv: "advance (canon i) = advance i" by (rule ext) (simp add: advance_def)
  show "finish_load (canon i) put r = finish_load i put r" "finish_store (canon i) s = finish_store i s"
    unfolding finish_load_def finish_store_def adv by (rule refl)+
qed

lemma shamt_low: "(ucast (v AND 0x3F :: u64) :: u32) AND 0x3F = ucast v AND 0x3F"
  by (rule bit_word_eqI) (auto simp: bit_simps)

lemma canon_used:
  "opcode i \<notin> {OP_STORE, OP_FSW_FSD, OP_BRANCH, OP_SYSTEM} \<Longrightarrow> i_rd (canon i) = i_rd i"
  "opcode i \<notin> {OP_LUI, OP_JAL, OP_SYSTEM} \<Longrightarrow> i_rs1 (canon i) = i_rs1 i"
  "opcode i \<in> {OP_R_ARITH, OP_R_ARITH_W, OP_STORE, OP_FSW_FSD, OP_BRANCH} \<Longrightarrow> i_rs2 (canon i) = i_rs2 i"
  "opcode i \<notin> {OP_LUI, OP_JAL, OP_JALR} \<Longrightarrow> funct3 (canon i) = funct3 i"
  "opcode i \<in> {OP_R_ARITH, OP_R_ARITH_W} \<Longrightarrow> funct7 (canon i) = funct7 i"
  "opcode i \<notin> {OP_I_ARITH, OP_R_ARITH, OP_R_ARITH_W} \<Longrightarrow> imm (canon i) = imm i"
  by (auto simp: canon_def Let_def)

lemma canon_arith:
  "opcode i = OP_I_ARITH \<Longrightarrow> i_arith (funct3 i) (funct7 (canon i)) a (imm (canon i)) = i_arith (funct3 i) (funct7 i) a (imm i)"
  "opcode i = OP_I_ARITH_W \<Longrightarrow> i_arith_w (funct3 i) (funct7 (canon i)) a v = i_arith_w (funct3 i) (funct7 i) a v"
  by (simp_all add: canon_def i_arith_def i_arith_w_def shamt_low Let_def and.assoc)

lemma branch_canon: "opcode i = OP_BRANCH \<Longrightarrow> execute_branch m (canon i) = execute_branch m i"
  by (simp add: execute_branch_def canon_used cong: if_cong)

lemma execute_canon:
  assumes "opcode i \<in> {OP_LUI, OP_JAL, OP_JALR, OP_BRANCH, OP_LOAD, OP_STORE, OP_I_ARITH, OP_R_ARITH,
      OP_I_ARITH_W, OP_R_ARITH_W, OP_FLW_FLD, OP_FSW_FSD} \<or> opcode i = OP_SYSTEM \<and> funct3 i = 0"
  shows "execute h notify m (canon i) = execute h notify m i"
proof -
  have "finish (canon i) m v = finish i m v" if "i_rd (canon i) = i_rd i" for v
    using that by (simp add: finish_def finish_canon)
  note simps = this finish_canon canon_used canon_arith branch_canon
  from assms show ?thesis
    by (elim insertE disjE emptyE conjE; simp add: execute_def execute_load_def execute_store_def
        execute_fp_load_def execute_fp_store_def Let_def simps)
qed

text \<open>What remains of the expansions after reading the fields: immediates of the formats.\<close>

lemma expansion_imms:
  "take_bit 5 (drop_bit 7 (ucast (cfield 2 0 5 7))) = (2 :: u32)"
  "take_bit 12 v = 0 \<Longrightarrow> push_bit 12 (drop_bit 12 v) = v"
  "take_bit 6 v = v \<Longrightarrow> \<not> bit v 10"
  "take_bit 6 v = v \<Longrightarrow> sext64 (v OR 0x400) 12 AND 0x3F = v"
  "take_bit 6 v = v \<Longrightarrow> v AND 0x3F = v"
  for v :: u64
proof -
  have m: "x AND 0x3F = take_bit 6 x" for x :: u64 by (simp add: take_bit_eq_mask mask_eq_exp_minus_1)
  have "take_bit 6 (sext64 w 12) = take_bit 6 w" for w
    by (rule bit_word_eqI) (auto simp: bit_simps bit_sext64)
  then show "take_bit 6 v = v \<Longrightarrow> sext64 (v OR 0x400) 12 AND 0x3F = v"
    unfolding m by (simp add: take_bit_or)
  show "take_bit 6 v = v \<Longrightarrow> v AND 0x3F = v" unfolding m by simp
  show "take_bit 6 v = v \<Longrightarrow> \<not> bit v 10" using bit_take_bit_iff [of 6 v 10] by simp
  show "take_bit 12 v = 0 \<Longrightarrow> push_bit 12 (drop_bit 12 v) = v"
    using bits_ident [of 12 v] by simp
  show "take_bit 5 (drop_bit 7 (ucast (cfield 2 0 5 7))) = (2 :: u32)" by (simp add: cfield_def)
qed

lemma rvc_canon:
  "rvc_ok c \<Longrightarrow> canon (decode_rvc (encode_rvc c)) = canon ((decode (expand_rvc c))\<lparr>isize := 2\<rparr>)"
  by (cases c) (simp_all add: half_eval word_eval canon_def expansion_imms)

text \<open>C11: A compressed instruction does what the 32-bit instruction it abbreviates does. For each
  of the 36 compressed instructions and all operands its format can carry, executing what the
  compressed decoder makes of the halfword gives the same outcome, state, fault or exit as
  executing what the 32-bit decoder makes of the expansion, with an instruction length of two.\<close>

theorem rvc_expansion:
  assumes "rvc_ok c"
  shows "execute h notify m (decode_rvc (encode_rvc c)) = execute h notify m ((decode (expand_rvc c))\<lparr>isize := 2\<rparr>)"
proof -
  have "opcode (decode_rvc (encode_rvc c)) = opcode (decode (expand_rvc c))"
    using arg_cong [OF rvc_canon [OF assms], of opcode] by simp
  moreover have "opcode (decode (expand_rvc c)) \<in> {OP_LUI, OP_JAL, OP_JALR, OP_BRANCH, OP_LOAD, OP_STORE, OP_I_ARITH, OP_R_ARITH,
      OP_I_ARITH_W, OP_R_ARITH_W, OP_FLW_FLD, OP_FSW_FSD} \<or> c = C_EBREAK"
    by (cases c) (simp_all add: word_eval)
  moreover have "opcode (decode (expand_rvc C_EBREAK)) = OP_SYSTEM" "funct3 (decode (expand_rvc C_EBREAK)) = 0"
      "funct3 (decode_rvc (encode_rvc C_EBREAK)) = 0"
    by (simp_all add: word_eval half_eval)
  ultimately show ?thesis
    using execute_canon [of "decode_rvc (encode_rvc c)" h notify m]
      execute_canon [of "(decode (expand_rvc c))\<lparr>isize := 2\<rparr>" h notify m] rvc_canon [OF assms] by fastforce
qed

text \<open>Stepping back and looping: the halfwords of \<^verbatim>\<open>c.addi a0, -16\<close> and
  \<^verbatim>\<open>c.j .-2\<close> against the words of \<^verbatim>\<open>addi a0, a0, -16\<close> and \<^verbatim>\<open>jal x0, .-2\<close>.\<close>

theorem rvc_expansion_witness:
  "execute default_fpu (\<lambda>i m. Inr m) example_machine (decode_rvc 0x1541) =
     execute default_fpu (\<lambda>i m. Inr m) example_machine ((decode 0xFF050513)\<lparr>isize := 2\<rparr>) \<and>
   execute default_fpu (\<lambda>i m. Inr m) example_machine (decode_rvc 0xBFFD) =
     execute default_fpu (\<lambda>i m. Inr m) example_machine ((decode 0xFFFFF06F)\<lparr>isize := 2\<rparr>)"
proof -
  have "rvc_ok (C_ADDI 10 (- 16))" "rvc_ok (C_J (- 2))" by (simp_all add: sext64_def)
  moreover have "encode_rvc (C_ADDI 10 (- 16)) = 0x1541" "encode_rvc (C_J (- 2)) = 0xBFFD"
    by (simp_all add: enc_defs reg5_def rvc_op_def cfield_def)
  moreover have "expand_rvc (C_ADDI 10 (- 16)) = 0xFF050513" "expand_rvc (C_J (- 2)) = 0xFFFFF06F"
    by (simp_all add: encode_defs field_def)
  ultimately show ?thesis
    using rvc_expansion [of "C_ADDI 10 (- 16)" default_fpu "\<lambda>i m. Inr m" example_machine]
      rvc_expansion [of "C_J (- 2)" default_fpu "\<lambda>i m. Inr m" example_machine] by simp
qed

end
